(* ===== verification/Prelude.thy ===== *)
theory Prelude
  imports Main "HOL-Library.Word" "HOL-Library.Multiset"
begin

text \<open>
  Shared vocabulary of the development.

  \<^item> Go's \<open>time.Time\<close> and \<open>time.Duration\<close> are integers counted in nanoseconds.
    A call of \<open>time.Now()\<close> is an argument of the operation that makes it.
  \<^item> Go's \<open>int\<close> and \<open>int64\<close> are integers; \<open>wrap64\<close> is the two's complement
    wrap-around of the 64-bit type, written out where the code relies on it or can meet it.
  \<^item> A Go map is a partial function; \<open>mget\<close> is the read \<open>m[k]\<close> of a map whose
    missing keys give the zero value (or another default).
  \<^item> \<open>string\<close> is a list of bytes, as Go strings are.

  The generic lemmas of this theory are about these four notions and are used by every
  component.
\<close>

type_synonym time = int
type_synonym duration = int

named_theorems go_simps

section \<open>Durations\<close>

definition nanosecond :: duration where
  "nanosecond = 1"

definition second :: duration where
  "second = 1000000000"

definition minute :: duration where
  "minute = 60000000000"

definition hour :: duration where
  "hour = 3600000000000"

definition day :: duration where
  "day = 86400000000000"

lemmas duration_defs = nanosecond_def second_def minute_def hour_def day_def

lemma durations_pos [simp]:
  "0 < nanosecond" "0 < second" "0 < minute" "0 < hour" "0 < day"
  by (simp_all add: duration_defs)

section \<open>Sixty-four bit integers\<close>

definition wrap64 :: "int \<Rightarrow> int" where
  "wrap64 i = (i + 2 ^ 63) mod 2 ^ 64 - 2 ^ 63"

definition max_int64 :: int where
  "max_int64 = 2 ^ 63 - 1"

definition min_int64 :: int where
  "min_int64 = - (2 ^ 63)"

definition is_int64 :: "int \<Rightarrow> bool" where
  "is_int64 i \<longleftrightarrow> min_int64 \<le> i \<and> i \<le> max_int64"

lemmas int64_defs = wrap64_def max_int64_def min_int64_def is_int64_def

lemma wrap64_id: "is_int64 i \<Longrightarrow> wrap64 i = i"
  by (simp add: int64_defs)

lemma is_int64_wrap64 [simp]: "is_int64 (wrap64 i)"
proof -
  have "0 \<le> (i + 2 ^ 63) mod 2 ^ 64" "(i + 2 ^ 63) mod 2 ^ 64 < (2::int) ^ 64"
    by (rule pos_mod_sign, simp, rule pos_mod_bound, simp)
  then show ?thesis by (simp add: int64_defs)
qed

lemma wrap64_small: "0 \<le> i \<Longrightarrow> i < 2 ^ 63 \<Longrightarrow> wrap64 i = i"
  by (rule wrap64_id) (simp add: int64_defs)

lemma wrap64_mod: "wrap64 (i mod 2 ^ 64) = wrap64 i"
  by (simp add: wrap64_def mod_add_left_eq)

section \<open>Maps with a default\<close>

definition mget :: "('k \<rightharpoonup> 'v) \<Rightarrow> 'k \<Rightarrow> 'v \<Rightarrow> 'v" where
  "mget m k z = (case m k of None \<Rightarrow> z | Some v \<Rightarrow> v)"

lemma mget_simps [simp]:
  "mget Map.empty k z = z"
  "mget (m(k \<mapsto> v)) k z = v"
  "k' \<noteq> k \<Longrightarrow> mget (m(k \<mapsto> v)) k' z = mget m k' z"
  "mget (m(k := None)) k z = z"
  "k' \<noteq> k \<Longrightarrow> mget (m(k := None)) k' z = mget m k' z"
  by (simp_all add: mget_def)

lemma mget_upd: "mget (m(k \<mapsto> v)) k' z = (if k' = k then v else mget m k' z)"
  by simp

lemma mget_Some [simp]: "m k = Some v \<Longrightarrow> mget m k z = v"
  by (simp add: mget_def)

lemma mget_None [simp]: "m k = None \<Longrightarrow> mget m k z = z"
  by (simp add: mget_def)

section \<open>Association lists\<close>

text \<open>
  Where the code iterates over a map, the map is an association list with distinct keys:
  \<open>alist_put\<close> is the assignment \<open>m[k] = v\<close> (the key keeps its place) and \<open>map_of\<close>
  is the read.
\<close>

fun alist_put :: "'k \<Rightarrow> 'v \<Rightarrow> ('k \<times> 'v) list \<Rightarrow> ('k \<times> 'v) list" where
  "alist_put k v [] = [(k, v)]"
| "alist_put k v ((k', v') # xs) =
     (if k' = k then (k, v) # xs else (k', v') # alist_put k v xs)"

lemma map_of_alist_put [simp]: "map_of (alist_put k v xs) = (map_of xs)(k \<mapsto> v)"
  by (induction xs) auto

lemma keys_alist_put: "fst ` set (alist_put k v xs) = insert k (fst ` set xs)"
  by (simp flip: dom_map_of_conv_image_fst)

lemma distinct_alist_put:
  "distinct (map fst xs) \<Longrightarrow> distinct (map fst (alist_put k v xs))"
proof (induction xs)
  case Nil
  then show ?case by simp
next
  case (Cons x xs)
  obtain k' v' where x: "x = (k', v')" by (cases x)
  show ?case
  proof (cases "k' = k")
    case True
    with Cons.prems x show ?thesis by simp
  next
    case False
    have "k' \<notin> fst ` set (alist_put k v xs)"
      using Cons.prems False by (simp add: keys_alist_put x)
    with False Cons x show ?thesis by simp
  qed
qed

section \<open>Lists\<close>

lemma length_filter_remove: "x \<in> set xs \<Longrightarrow> \<not> P x \<Longrightarrow> length (filter P xs) < length xs"
  by (induction xs) (auto simp: less_Suc_eq_le)

lemma sum_list_pos_ex: "0 < sum_list (map f xs) \<Longrightarrow> \<exists>x \<in> set xs. (0::int) < f x"
proof (induction xs)
  case Nil
  then show ?case by simp
next
  case (Cons x xs)
  then show ?case by (cases "0 < f x") (auto simp: not_less)
qed

lemma sum_list_pos_all:
  "xs \<noteq> [] \<Longrightarrow> (\<And>x. x \<in> set xs \<Longrightarrow> 0 < f x) \<Longrightarrow> (0::int) < sum_list (map f xs)"
proof (induction xs)
  case Nil
  then show ?case by simp
next
  case (Cons x xs)
  then show ?case by (cases xs) force+
qed

lemma sum_list_le_eq:
  fixes f g :: "'a \<Rightarrow> int"
  assumes "\<And>x. x \<in> set xs \<Longrightarrow> f x \<le> g x"
    and "sum_list (map f xs) = sum_list (map g xs)"
    and "x \<in> set xs"
  shows "f x = g x"
  using assms
proof (induction xs)
  case Nil
  then show ?case by simp
next
  case (Cons y ys)
  have le: "sum_list (map f ys) \<le> sum_list (map g ys)"
    by (rule sum_list_mono) (use Cons.prems(1) in simp)
  have y: "f y \<le> g y" using Cons.prems(1) by simp
  from Cons.prems(2) le y have "f y = g y" "sum_list (map f ys) = sum_list (map g ys)"
    by simp_all
  with Cons show ?case by auto
qed

lemma sum_list_map_add: "sum_list (map (\<lambda>x. f x + g x) xs) = sum_list (map f xs) + (sum_list (map g xs) :: int)"
  by (induction xs) simp_all

section \<open>Decimal integers (\<open>strconv.Atoi\<close>, \<open>strconv.Itoa\<close>)\<close>

definition digit_val :: "char \<Rightarrow> int option" where
  "digit_val c = (let n = int (of_char c) in if 48 \<le> n \<and> n \<le> 57 then Some (n - 48) else None)"

fun digits_val :: "int \<Rightarrow> string \<Rightarrow> int option" where
  "digits_val acc [] = Some acc"
| "digits_val acc (c # cs) =
     (case digit_val c of None \<Rightarrow> None | Some v \<Rightarrow> digits_val (10 * acc + v) cs)"

text \<open>\<open>None\<close> is the error of \<open>Atoi\<close>: no digits, another character, or out of range.\<close>

definition atoi :: "string \<Rightarrow> int option" where
  "atoi s =
     (let (neg, ds) = (case s of [] \<Rightarrow> (False, [])
        | c # cs \<Rightarrow> if c = CHR ''-'' then (True, cs)
                    else if c = CHR ''+'' then (False, cs) else (False, s))
      in if ds = [] then None
         else case digits_val 0 ds of None \<Rightarrow> None
         | Some v \<Rightarrow> (let i = (if neg then - v else v) in if is_int64 i then Some i else None))"

lemma atoi_int64: "atoi s = Some i \<Longrightarrow> is_int64 i"
  by (auto simp: atoi_def Let_def split: prod.splits if_splits option.splits)

section \<open>Trimming (\<open>strings.TrimRight\<close>)\<close>

definition trim_right :: "char \<Rightarrow> string \<Rightarrow> string" where
  "trim_right c s = rev (dropWhile (\<lambda>x. x = c) (rev s))"

lemma trim_right_append_neq: "x \<noteq> c \<Longrightarrow> trim_right c (s @ [x]) = s @ [x]"
  by (simp add: trim_right_def)

lemma trim_right_append_eq: "trim_right c (s @ [c]) = trim_right c s"
  by (simp add: trim_right_def)

lemma last_trim_right: "trim_right c s \<noteq> [] \<Longrightarrow> last (trim_right c s) \<noteq> c"
  using hd_dropWhile [of "\<lambda>x. x = c" "rev s"] by (simp add: trim_right_def last_rev)

lemma trim_right_split: "\<exists>n. s = trim_right c s @ replicate n c"
proof (induction s rule: rev_induct)
  case Nil
  then show ?case by (simp add: trim_right_def)
next
  case (snoc x s)
  show ?case
  proof (cases "x = c")
    case True
    from snoc obtain n where n: "s = trim_right c s @ replicate n c" by blast
    have "s @ [x] = trim_right c s @ replicate (Suc n) c"
      using True by (subst n) (simp add: replicate_append_same)
    then show ?thesis using True by (metis trim_right_append_eq)
  next
    case False
    then show ?thesis by (metis append_Nil2 replicate_0 trim_right_append_neq)
  qed
qed

section \<open>Printing natural numbers\<close>

text \<open>\<open>%q\<close> of a string without characters to escape.\<close>

definition dquoted :: "string \<Rightarrow> string" where
  "dquoted s = CHR 0x22 # s @ [CHR 0x22]"

definition digit_char :: "nat \<Rightarrow> char" where
  "digit_char n = char_of (48 + n)"

fun show_nat :: "nat \<Rightarrow> string" where
  "show_nat n = (if n < 10 then [digit_char n] else show_nat (n div 10) @ [digit_char (n mod 10)])"

declare show_nat.simps [simp del]

text \<open>The last \<open>k\<close> digits of a number, with leading zeros.\<close>

fun show_fixed :: "nat \<Rightarrow> nat \<Rightarrow> string" where
  "show_fixed 0 n = []"
| "show_fixed (Suc k) n = show_fixed k (n div 10) @ [digit_char (n mod 10)]"

definition is_digit :: "char \<Rightarrow> bool" where
  "is_digit c \<longleftrightarrow> digit_val c \<noteq> None"

lemma digit_val_char [simp]: "n < 10 \<Longrightarrow> digit_val (digit_char n) = Some (int n)"
  by (simp add: digit_val_def digit_char_def of_char_of Let_def)

lemma is_digit_char [simp]: "n < 10 \<Longrightarrow> is_digit (digit_char n)"
  by (simp add: is_digit_def)

lemma digits_val_append:
  "digits_val a (xs @ ys) = (case digits_val a xs of None \<Rightarrow> None | Some b \<Rightarrow> digits_val b ys)"
  by (induction xs arbitrary: a) (simp_all split: option.splits)

lemma digits_val_shift:
  "digits_val a xs = (case digits_val 0 xs of None \<Rightarrow> None | Some v \<Rightarrow> Some (a * 10 ^ length xs + v))"
proof (induction xs arbitrary: a rule: rev_induct)
  case Nil
  then show ?case by simp
next
  case (snoc x xs)
  show ?case
    using snoc.IH [of a] by (auto simp: digits_val_append algebra_simps split: option.splits)
qed

lemma digits_val_show_nat [simp]: "digits_val 0 (show_nat n) = Some (int n)"
proof (induction n rule: show_nat.induct)
  case (1 n)
  show ?case
    using 1 by (subst show_nat.simps) (simp add: digits_val_append zdiv_int zmod_int)
qed

lemma digits_val_show_fixed [simp]: "digits_val 0 (show_fixed k n) = Some (int (n mod 10 ^ k))"
proof (induction k arbitrary: n)
  case 0
  then show ?case by simp
next
  case (Suc k)
  have "n mod 10 ^ Suc k = 10 * (n div 10 mod 10 ^ k) + n mod 10"
    by (metis add.commute mod_mult2_eq power_Suc)
  then show ?case using Suc [of "n div 10"] by (simp add: digits_val_append flip: of_nat_mult of_nat_add)
qed

lemma digits_show_nat: "list_all is_digit (show_nat n)"
proof (induction n rule: show_nat.induct)
  case (1 n)
  then show ?case by (subst show_nat.simps) simp
qed

lemma digits_show_fixed: "list_all is_digit (show_fixed k n)"
  by (induction k arbitrary: n) simp_all

lemma length_show_fixed [simp]: "length (show_fixed k n) = k"
  by (induction k arbitrary: n) simp_all

lemma show_nat_not_Nil [simp]: "show_nat n \<noteq> []"
  by (subst show_nat.simps) simp

lemma length_show_nat: "n < 10 ^ k \<Longrightarrow> 0 < k \<Longrightarrow> length (show_nat n) \<le> k"
proof (induction k arbitrary: n)
  case 0
  then show ?case by simp
next
  case (Suc k)
  show ?case
  proof (cases "n < 10")
    case True
    then show ?thesis by (subst show_nat.simps) simp
  next
    case False
    then have "0 < k" using Suc.prems(1) by (cases k) auto
    moreover have "n div 10 < 10 ^ k" using Suc.prems(1) by (simp add: less_mult_imp_div_less mult.commute)
    ultimately have "length (show_nat (n div 10)) \<le> k" by (rule Suc.IH [rotated])
    then show ?thesis using False by (subst show_nat.simps) simp
  qed
qed

end
