(* ===== verification/Float64.thy ===== *)
theory Float64
  imports Prelude "HOL-Library.Log_Nat" Complex_Main
begin

text \<open>
  Go's \<open>float64\<close>. A finite value is the rational number it denotes; an operation rounds the
  exact result with \<open>rnd64\<close>, IEEE 754 round-to-nearest-even with 53 significant bits and
  the smallest exponent \<open>-1074\<close>. Overflow to infinity, NaN and the sign of zero are outside
  the model: the amounts the proxy adds are US dollars.

  The theory proves what the budget code needs: rounding is monotone, it leaves a value that
  is already a \<open>float64\<close> unchanged, so adding a nonnegative amount never lowers a total.
\<close>

type_synonym f64 = rat

section \<open>Rounding to the nearest integer, ties to even\<close>

definition rhe :: "rat \<Rightarrow> int" where
  "rhe x = (let f = \<lfloor>x\<rfloor>; r = x - of_int f in
     if r < 1 / 2 then f else if 1 / 2 < r then f + 1
     else if even f then f else f + 1)"

lemma rhe_of_int [simp]: "rhe (of_int n) = n"
  by (simp add: rhe_def)

lemma rhe_bounds: "\<lfloor>x\<rfloor> \<le> rhe x" "rhe x \<le> \<lfloor>x\<rfloor> + 1"
  by (simp_all add: rhe_def Let_def)

lemma rhe_mono:
  assumes "x \<le> y"
  shows "rhe x \<le> rhe y"
proof (cases "\<lfloor>x\<rfloor> = \<lfloor>y\<rfloor>")
  case True
  with assms show ?thesis by (simp add: rhe_def Let_def)
next
  case False
  with assms have "\<lfloor>x\<rfloor> + 1 \<le> \<lfloor>y\<rfloor>"
    using floor_mono [OF assms] by linarith
  with rhe_bounds(2) [of x] rhe_bounds(1) [of y] show ?thesis by linarith
qed

lemma rhe_neg: "rhe (- x) = - rhe x"
proof (cases "x = of_int \<lfloor>x\<rfloor>")
  case True
  then have "rhe x = \<lfloor>x\<rfloor>" and "rhe (- x) = - \<lfloor>x\<rfloor>"
    by (metis rhe_of_int, metis of_int_minus rhe_of_int)
  then show ?thesis by simp
next
  case False
  then have "of_int \<lfloor>x\<rfloor> < x"
    using of_int_floor_le [of x] by linarith
  then have "\<lfloor>- x\<rfloor> = - \<lfloor>x\<rfloor> - 1"
    by (intro floor_unique) (simp, linarith, simp)
  then show ?thesis
    by (auto simp: rhe_def Let_def)
qed

section \<open>Binary exponent of a positive rational\<close>

text \<open>
  \<open>pow2 e\<close> is two to the power of an integer; \<open>ilog x\<close> is the integer \<open>e\<close> with
  \<open>2^e \<le> x < 2^(e+1)\<close>, computed from the bit lengths of numerator and denominator.
\<close>

definition pow2 :: "int \<Rightarrow> rat" where
  "pow2 e = (if 0 \<le> e then 2 ^ nat e else 1 / 2 ^ nat (- e))"

definition ilog :: "rat \<Rightarrow> int" where
  "ilog x = (let (n, d) = quotient_of x;
       k = int (floorlog 2 (nat n)) - int (floorlog 2 (nat d))
     in if pow2 k \<le> x then k else k - 1)"

lemma pow2_powi: "pow2 e = 2 powi e"
  by (simp add: pow2_def power_int_def inverse_eq_divide power_one_over)

lemma pow2_pos [simp]: "0 < pow2 e"
  by (simp add: pow2_powi)

lemma pow2_nonneg [simp]: "0 \<le> pow2 e"
  by (rule less_imp_le) simp

lemma pow2_nonzero [simp]: "pow2 e \<noteq> 0"
  using pow2_pos [of e] by linarith

lemma pow2_add: "pow2 (a + b) = pow2 a * pow2 b"
  by (simp add: pow2_powi power_int_add)

lemma pow2_diff: "pow2 (a - b) = pow2 a / pow2 b"
  by (simp add: pow2_powi power_int_diff)

lemma pow2_mono: "a \<le> b \<Longrightarrow> pow2 a \<le> pow2 b"
  by (simp add: pow2_powi power_int_increasing)

lemma pow2_strict_mono: "a < b \<Longrightarrow> pow2 a < pow2 b"
  by (simp add: pow2_powi power_int_strict_increasing)

lemma pow2_less_iff: "pow2 a < pow2 b \<longleftrightarrow> a < b"
  using pow2_mono [of b a] pow2_strict_mono [of a b] by linarith

lemma pow2_int: "0 \<le> e \<Longrightarrow> pow2 e = of_int (2 ^ nat e)"
  by (simp add: pow2_def)

lemma pow2_of_nat: "pow2 (int n) = of_nat (2 ^ n)"
  by (simp add: pow2_def)

lemma floorlog_pow2:
  assumes "0 < n"
  shows "pow2 (int (floorlog 2 n) - 1) \<le> of_nat n" "of_nat n < pow2 (int (floorlog 2 n))"
proof -
  have "floorlog 2 n \<noteq> 0" using assms by (simp add: floorlog_eq_zero_iff)
  then have pos: "0 < floorlog 2 n" by simp
  have b: "2 ^ (floorlog 2 n - 1) \<le> n" "n < 2 ^ floorlog 2 n"
    using floorlog_bounds [of n 2] assms by simp_all
  have "int (floorlog 2 n) - 1 = int (floorlog 2 n - 1)" using pos by simp
  with b(1) show "pow2 (int (floorlog 2 n) - 1) \<le> of_nat n"
    by (simp only: pow2_of_nat of_nat_le_iff)
  from b(2) show "of_nat n < pow2 (int (floorlog 2 n))"
    by (simp only: pow2_of_nat of_nat_less_iff)
qed

lemma ilog_spec:
  assumes "0 < x"
  shows "pow2 (ilog x) \<le> x" "x < pow2 (ilog x + 1)"
proof -
  obtain n d where q: "quotient_of x = (n, d)" by (cases "quotient_of x")
  have d: "0 < d" using quotient_of_denom_pos [OF q] .
  have x: "x = of_int n / of_int d" using quotient_of_div [OF q] .
  have n: "0 < n" using assms d by (simp add: x zero_less_divide_iff)
  define a b where "a = int (floorlog 2 (nat n))" and "b = int (floorlog 2 (nat d))"
  have N: "pow2 (a - 1) \<le> of_int n" "of_int n < pow2 a"
    using floorlog_pow2 [of "nat n"] n by (simp_all add: a_def of_nat_nat)
  have D: "pow2 (b - 1) \<le> of_int d" "of_int d < pow2 b"
    using floorlog_pow2 [of "nat d"] d by (simp_all add: b_def of_nat_nat)
  have hi: "x < pow2 (a - b + 1)"
  proof -
    have "x < pow2 a / pow2 (b - 1)"
      unfolding x using N(2) D(1) n d by (intro frac_less) simp_all
    then show ?thesis by (simp flip: pow2_diff add: algebra_simps)
  qed
  have lo: "pow2 (a - b - 1) \<le> x"
  proof -
    have "pow2 (a - 1) / pow2 b \<le> x"
      unfolding x using N(1) D(2) d n by (intro frac_le) simp_all
    then show ?thesis by (simp flip: pow2_diff add: algebra_simps)
  qed
  have e: "ilog x = (if pow2 (a - b) \<le> x then a - b else a - b - 1)"
    by (simp add: ilog_def q a_def b_def)
  show "pow2 (ilog x) \<le> x" using lo by (simp add: e)
  show "x < pow2 (ilog x + 1)" using hi by (simp add: e)
qed

lemma ilog_mono:
  assumes "0 < x" "x \<le> y"
  shows "ilog x \<le> ilog y"
proof -
  have "pow2 (ilog x) < pow2 (ilog y + 1)"
    using ilog_spec(1) [of x] ilog_spec(2) [of y] assms by linarith
  then show ?thesis by (simp add: pow2_less_iff)
qed

section \<open>Rounding to \<open>float64\<close>\<close>

definition quantum :: "rat \<Rightarrow> int" where
  "quantum x = max (ilog x - 52) (- 1074)"

definition rnd_pos :: "rat \<Rightarrow> rat" where
  "rnd_pos x = of_int (rhe (x / pow2 (quantum x))) * pow2 (quantum x)"

definition rnd64 :: "rat \<Rightarrow> f64" where
  "rnd64 x = (if x = 0 then 0 else if 0 < x then rnd_pos x else - rnd_pos (- x))"

definition is_f64 :: "rat \<Rightarrow> bool" where
  "is_f64 x \<longleftrightarrow> rnd64 x = x"

definition fadd :: "f64 \<Rightarrow> f64 \<Rightarrow> f64" where
  "fadd a b = rnd64 (a + b)"

definition fmul :: "f64 \<Rightarrow> f64 \<Rightarrow> f64" where
  "fmul a b = rnd64 (a * b)"

definition fdiv :: "f64 \<Rightarrow> f64 \<Rightarrow> f64" where
  "fdiv a b = rnd64 (a / b)"

definition fsub :: "f64 \<Rightarrow> f64 \<Rightarrow> f64" where
  "fsub a b = rnd64 (a - b)"

lemma rnd_pos_nonneg:
  assumes "0 < x"
  shows "0 \<le> rnd_pos x"
proof -
  have "rhe 0 \<le> rhe (x / pow2 (quantum x))" using assms by (intro rhe_mono) simp
  then show ?thesis by (simp add: rnd_pos_def rhe_def)
qed

lemma rnd_pos_le_pow2:
  assumes "0 < x" "x \<le> pow2 e" "quantum x \<le> e"
  shows "rnd_pos x \<le> pow2 e"
proof -
  let ?q = "pow2 (quantum x)"
  have m: "pow2 e / ?q = of_int (2 ^ nat (e - quantum x))"
    using assms(3) by (simp flip: pow2_diff add: pow2_int)
  have "rhe (x / ?q) \<le> rhe (pow2 e / ?q)"
    using assms(2) by (intro rhe_mono divide_right_mono) simp_all
  also have "\<dots> = 2 ^ nat (e - quantum x)" by (simp only: m rhe_of_int)
  finally have "(of_int (rhe (x / ?q)) :: rat) \<le> pow2 e / ?q"
    by (simp only: m of_int_le_iff)
  then show ?thesis by (simp add: rnd_pos_def pos_le_divide_eq)
qed

lemma rnd_pos_ge_pow2:
  assumes "0 < x" "pow2 e \<le> x" "quantum x \<le> e"
  shows "pow2 e \<le> rnd_pos x"
proof -
  let ?q = "pow2 (quantum x)"
  have m: "pow2 e / ?q = of_int (2 ^ nat (e - quantum x))"
    using assms(3) by (simp flip: pow2_diff add: pow2_int)
  have "2 ^ nat (e - quantum x) = rhe (pow2 e / ?q)" by (simp only: m rhe_of_int)
  also have "\<dots> \<le> rhe (x / ?q)"
    using assms(2) by (intro rhe_mono divide_right_mono) simp_all
  finally have "pow2 e / ?q \<le> (of_int (rhe (x / ?q)) :: rat)"
    by (simp only: m of_int_le_iff)
  then show ?thesis by (simp add: rnd_pos_def pos_divide_le_eq)
qed

lemma rnd_pos_mono:
  assumes "0 < x" "x \<le> y"
  shows "rnd_pos x \<le> rnd_pos y"
proof (cases "quantum x = quantum y")
  case True
  have "rhe (x / pow2 (quantum y)) \<le> rhe (y / pow2 (quantum y))"
    using assms(2) by (intro rhe_mono divide_right_mono) simp_all
  with True show ?thesis by (simp add: rnd_pos_def)
next
  case False
  have l: "ilog x \<le> ilog y" using ilog_mono assms .
  with False have q: "quantum y = ilog y - 52" and lt: "ilog x + 1 \<le> ilog y"
    by (auto simp: quantum_def max_def split: if_splits)
  have qx: "quantum x \<le> quantum y" using l by (simp add: quantum_def)
  have "x \<le> pow2 (ilog y)"
    using ilog_spec(2) [OF assms(1)] pow2_mono [OF lt] by linarith
  then have "rnd_pos x \<le> pow2 (ilog y)"
    using assms(1) qx q by (intro rnd_pos_le_pow2) simp_all
  also have "\<dots> \<le> rnd_pos y"
    using assms q ilog_spec(1) [of y] by (intro rnd_pos_ge_pow2) simp_all
  finally show ?thesis .
qed

lemma rnd64_nonneg: "0 \<le> x \<Longrightarrow> 0 \<le> rnd64 x"
  using rnd_pos_nonneg [of x] by (simp add: rnd64_def)

lemma rnd64_mono:
  assumes "x \<le> y"
  shows "rnd64 x \<le> rnd64 y"
proof -
  consider "0 < x" | "x \<le> 0" "0 \<le> y" | "y < 0" by linarith
  then show ?thesis
  proof cases
    case 1
    with assms rnd_pos_mono [of x y] show ?thesis by (simp add: rnd64_def)
  next
    case 2
    have "rnd64 x \<le> 0"
      using 2(1) rnd_pos_nonneg [of "- x"] by (simp add: rnd64_def)
    with rnd64_nonneg [OF 2(2)] show ?thesis by linarith
  next
    case 3
    with assms rnd_pos_mono [of "- y" "- x"] show ?thesis by (simp add: rnd64_def)
  qed
qed

lemma rnd64_zero [simp]: "rnd64 0 = 0"
  by (simp add: rnd64_def)

lemma rhe_below_half: "0 \<le> y \<Longrightarrow> y < 1 / 2 \<Longrightarrow> rhe y = 0"
proof -
  assume y: "0 \<le> y" "y < 1 / 2"
  then have "\<lfloor>y\<rfloor> = 0" by (simp add: floor_eq_iff)
  with y show ?thesis by (simp add: rhe_def)
qed

lemma rnd_pos_exact:
  assumes "r = of_int m * pow2 k" "quantum r \<le> k"
  shows "rnd_pos r = r"
proof -
  have "r / pow2 (quantum r) = of_int m * pow2 (k - quantum r)"
    by (simp add: pow2_diff) (simp add: assms(1))
  also have "\<dots> = of_int (m * 2 ^ nat (k - quantum r))"
    using assms(2) by (simp add: pow2_int)
  finally have e: "r / pow2 (quantum r) = of_int (m * 2 ^ nat (k - quantum r))" .
  have "rnd_pos r = (r / pow2 (quantum r)) * pow2 (quantum r)"
    by (simp only: rnd_pos_def e rhe_of_int)
  then show ?thesis by simp
qed

lemma ilog_pow2: "ilog (pow2 e) = e"
proof -
  have "pow2 (ilog (pow2 e)) < pow2 (e + 1)"
    using ilog_spec(1) [of "pow2 e"] pow2_strict_mono [of e "e + 1"] by simp
  moreover have "pow2 e < pow2 (ilog (pow2 e) + 1)" using ilog_spec(2) [of "pow2 e"] by simp
  ultimately show ?thesis by (simp add: pow2_less_iff)
qed

lemma rnd_pos_idem:
  assumes "0 < x" "0 < rnd_pos x"
  shows "rnd_pos (rnd_pos x) = rnd_pos x"
proof (cases "ilog (rnd_pos x) \<le> ilog x")
  case True
  then have "quantum (rnd_pos x) \<le> quantum x" by (simp add: quantum_def)
  then show ?thesis by (intro rnd_pos_exact) (simp_all add: rnd_pos_def)
next
  case False
  let ?e = "ilog x + 1"
  have ge: "pow2 ?e \<le> rnd_pos x"
    using False ilog_spec(1) [OF assms(2)] pow2_mono [of ?e "ilog (rnd_pos x)"] by linarith
  have qe: "quantum x \<le> ?e"
  proof (rule ccontr)
    assume "\<not> quantum x \<le> ?e"
    then have "pow2 ?e \<le> pow2 (quantum x - 1)" by (intro pow2_mono) linarith
    with ilog_spec(2) [OF assms(1)] have "x < pow2 (quantum x - 1)" by linarith
    then have "x / pow2 (quantum x) < 1 / 2"
      by (simp add: pow2_diff pow2_int divide_less_eq)
    moreover have "0 < x / pow2 (quantum x)" using assms(1) by simp
    ultimately have "rhe (x / pow2 (quantum x)) = 0"
      by (intro rhe_below_half) simp_all
    with assms(2) show False by (simp add: rnd_pos_def)
  qed
  have "x \<le> pow2 ?e" using ilog_spec(2) [OF assms(1)] by simp
  then have "rnd_pos x \<le> pow2 ?e" by (rule rnd_pos_le_pow2 [OF assms(1) _ qe])
  with ge have r: "rnd_pos x = pow2 ?e" by simp
  have "quantum (pow2 ?e) \<le> ?e" using qe by (simp add: quantum_def ilog_pow2)
  then show ?thesis unfolding r by (intro rnd_pos_exact [of _ 1]) simp_all
qed

lemma is_f64_rnd64: "is_f64 (rnd64 x)"
proof -
  have pos: "rnd64 (rnd_pos y) = rnd_pos y" if "0 < y" for y
    using rnd_pos_nonneg [OF that] rnd_pos_idem [OF that]
    by (auto simp: rnd64_def less_le)
  have neg: "rnd64 (- y) = - rnd64 y" for y
    by (simp add: rnd64_def)
  show ?thesis
    using pos [of x] pos [of "- x"] neg [of "rnd_pos (- x)"]
    by (cases "x = 0"; cases "0 < x") (simp_all add: is_f64_def rnd64_def [of x])
qed

lemma is_f64_fadd [simp]: "is_f64 (fadd a b)"
  by (simp add: fadd_def is_f64_rnd64)

lemma is_f64_fmul [simp]: "is_f64 (fmul a b)"
  by (simp add: fmul_def is_f64_rnd64)

lemma is_f64_zero [simp]: "is_f64 0"
  by (simp add: is_f64_def)

lemma fadd_ge:
  assumes "is_f64 a" "0 \<le> c"
  shows "a \<le> fadd a c"
proof -
  have "rnd64 a \<le> rnd64 (a + c)" using assms(2) by (intro rnd64_mono) simp
  with assms(1) show ?thesis by (simp add: fadd_def is_f64_def)
qed

lemma fadd_mono: "a \<le> b \<Longrightarrow> fadd a c \<le> fadd b c"
  by (simp add: fadd_def rnd64_mono)

lemma fadd_nonneg: "0 \<le> a \<Longrightarrow> 0 \<le> c \<Longrightarrow> 0 \<le> fadd a c"
  by (simp add: fadd_def rnd64_nonneg)

lemma fmul_nonneg: "0 \<le> a \<Longrightarrow> 0 \<le> c \<Longrightarrow> 0 \<le> fmul a c"
  by (simp add: fmul_def rnd64_nonneg)

end
