(* ===== verification/Errors.thy ===== *)
theory Errors
  imports Float64
begin

text \<open>
  The error values of the proxy (\<open>internal/model/error.go\<close>,
  \<open>internal/provider/errors.go\<close> and \<open>RateLimitError\<close> of
  \<open>internal/provider/provider.go\<close>): the upstream errors the router classifies, the
  errors the proxy answers with, and the HTTP answer \<open>WriteError\<close> sends.

  Go's \<open>error\<close> interface is the datatype \<open>goerror\<close>; \<open>errors.As\<close> walks its \<open>Unwrap\<close>
  chain. The functions of Go's standard library the code calls on opaque data (JSON decoding,
  HTTP dates, printing a duration, SHA-256 in hexadecimal) are the fields of the record
  \<open>golib\<close>, an argument of the definitions that use them.
\<close>

section \<open>JSON values\<close>

datatype json =
    JNull
  | JBool bool
  | JNum string
  | JStr string
  | JArr "json list"
  | JObj "(string \<times> json) list"

definition json_field :: "json \<Rightarrow> string \<Rightarrow> json option" where
  "json_field j k = (case j of JObj fs \<Rightarrow> map_of (rev fs) k | _ \<Rightarrow> None)"

record golib =
  unmarshal :: "string \<Rightarrow> json option"
  parse_time :: "string \<Rightarrow> time option"
  duration_string :: "duration \<Rightarrow> string"
  itoa :: "int \<Rightarrow> string"
  sha256_hex :: "string \<Rightarrow> string"

section \<open>Error values\<close>

datatype goerror =
    PlainError string
  | WrapError string goerror
  | RateLimitError (rl_local: bool) (rl_provider: string) (rl_retry_after: duration) (rl_body: string)
  | HTTPError (he_provider: string) (he_status: int) (he_body: string)
      (he_retry_after: duration) (he_cause: "goerror option")
  | ProxyError (pe_raw_body: string) (pe_retry_after: duration) (pe_status_code: int)
      (pe_message: string) (pe_type: string) (pe_code: string) (pe_err: "goerror option")

text \<open>The methods an error value has itself: a plain type assertion, no unwrapping.\<close>

fun http_status :: "goerror \<Rightarrow> int option" where
  "http_status (RateLimitError l p r b) = Some 429"
| "http_status (HTTPError p st b r c) = Some st"
| "http_status (ProxyError rb r st m t c e) = Some st"
| "http_status _ = None"

fun retry_delay :: "goerror \<Rightarrow> duration option" where
  "retry_delay (RateLimitError l p r b) = Some r"
| "retry_delay (HTTPError p st b r c) = Some r"
| "retry_delay (ProxyError rb r st m t c e) = Some r"
| "retry_delay _ = None"

fun unwrap :: "goerror \<Rightarrow> goerror option" where
  "unwrap (WrapError m e) = Some e"
| "unwrap (HTTPError p st b r c) = c"
| "unwrap (ProxyError rb r st m t c e) = e"
| "unwrap _ = None"

text \<open>\<open>errors.As\<close> with a target type: the first error of the chain that has it.\<close>

fun as_rate_limit :: "goerror \<Rightarrow> (bool \<times> duration) option" where
  "as_rate_limit (RateLimitError l p r b) = Some (l, r)"
| "as_rate_limit (WrapError m e) = as_rate_limit e"
| "as_rate_limit (HTTPError p st b r (Some e)) = as_rate_limit e"
| "as_rate_limit (ProxyError rb r st m t c (Some e)) = as_rate_limit e"
| "as_rate_limit _ = None"

fun as_upstream :: "goerror \<Rightarrow> goerror option" where
  "as_upstream (WrapError m e) = as_upstream e"
| "as_upstream (PlainError m) = None"
| "as_upstream e = Some e"

definition is_invalid_request :: "goerror \<Rightarrow> bool" where
  "is_invalid_request err =
     (case as_upstream err of None \<Rightarrow> False
      | Some e \<Rightarrow> http_status e = Some 400 \<or> http_status e = Some 422)"

section \<open>Errors made from an upstream answer\<close>

text \<open>
  \<open>ParseRetryAfter\<close>: integer seconds, then an HTTP date (\<open>parse_time\<close>, the standard
  library's \<open>http.ParseTime\<close>), otherwise 0. The product with \<open>time.Second\<close> is a
  64-bit product.
\<close>

definition parse_retry_after :: "golib \<Rightarrow> time \<Rightarrow> string \<Rightarrow> duration" where
  "parse_retry_after lib now header =
     (let http_date = (case parse_time lib header of
            Some t \<Rightarrow> if 0 < t - now then t - now else 0 | None \<Rightarrow> 0)
      in if header = [] then 0
         else case atoi header of
           Some secs \<Rightarrow> if 0 < secs then wrap64 (secs * second) else http_date
         | None \<Rightarrow> http_date)"

definition new_http_error ::
  "golib \<Rightarrow> time \<Rightarrow> string \<Rightarrow> int \<Rightarrow> string \<Rightarrow> string \<Rightarrow> goerror list \<Rightarrow> goerror" where
  "new_http_error lib now name status retry_header body causes =
     (let retry = parse_retry_after lib now retry_header
      in if status = 429 then RateLimitError False name retry body
         else HTTPError name status body retry (case causes of [] \<Rightarrow> None | c # _ \<Rightarrow> Some c))"

section \<open>Error texts\<close>

definition body_error_message :: "golib \<Rightarrow> string \<Rightarrow> string" where
  "body_error_message lib body =
     (case unmarshal lib body of None \<Rightarrow> []
      | Some j \<Rightarrow> (case json_field j ''error'' of
          Some e \<Rightarrow> (case json_field e ''message'' of Some (JStr m) \<Rightarrow> m | _ \<Rightarrow> []) | None \<Rightarrow> []))"

fun error_text :: "golib \<Rightarrow> goerror \<Rightarrow> string" where
  "error_text lib (PlainError m) = m"
| "error_text lib (WrapError m e) = m @ '': '' @ error_text lib e"
| "error_text lib (RateLimitError l p r b) =
     (if 0 < r then p @ '': rate limited, retry after '' @ duration_string lib r
      else p @ '': rate limited'')"
| "error_text lib (HTTPError p st b r (Some e)) = error_text lib e"
| "error_text lib (HTTPError p st b r None) =
     (let m = body_error_message lib b in
      if m \<noteq> [] then p @ '' error: '' @ m
      else p @ '' error (status '' @ itoa lib st @ ''): '' @ b)"
| "error_text lib (ProxyError rb r st m t c (Some e)) = m @ '': '' @ error_text lib e"
| "error_text lib (ProxyError rb r st m t c None) = m"

section \<open>Errors the proxy answers with\<close>

abbreviation quoted :: "string \<Rightarrow> string" where
  "quoted s \<equiv> CHR 0x27 # s @ [CHR 0x27]"

definition err_bad_request :: "string \<Rightarrow> goerror" where
  "err_bad_request m = ProxyError [] 0 400 m ''invalid_request_error'' [] None"

definition err_unauthorized :: "string \<Rightarrow> goerror" where
  "err_unauthorized m = ProxyError [] 0 401 m ''authentication_error'' ''invalid_api_key'' None"

definition err_model_not_found :: "string \<Rightarrow> goerror" where
  "err_model_not_found model = ProxyError [] 0 404 (''model '' @ quoted model @ '' not found'')
     ''invalid_request_error'' ''model_not_found'' None"

definition err_no_deployment_available :: "string \<Rightarrow> goerror" where
  "err_no_deployment_available model = ProxyError [] 0 503
     (''no healthy deployment available for model '' @ quoted model)
     ''server_error'' ''no_deployment_available'' None"

text \<open>
  \<open>ErrProviderError\<close> starts from a 502 and takes over the status, the delay and a body with
  an \<open>error\<close> member from the first error of the chain that is an upstream answer.
\<close>

definition has_error_member :: "golib \<Rightarrow> string \<Rightarrow> bool" where
  "has_error_member lib body =
     (case unmarshal lib body of
        Some (JObj fs) \<Rightarrow> map_of (rev fs) ''error'' \<noteq> None | _ \<Rightarrow> False)"

definition api_error_body :: "(goerror \<Rightarrow> string) \<Rightarrow> goerror \<Rightarrow> string" where
  "api_error_body marshal_api e =
     (case e of RateLimitError l p r b \<Rightarrow> b | HTTPError p st b r c \<Rightarrow> b
      | ProxyError rb r st m t c ce \<Rightarrow> if rb \<noteq> [] then rb else marshal_api e | _ \<Rightarrow> [])"

definition err_provider_error :: "golib \<Rightarrow> (goerror \<Rightarrow> string) \<Rightarrow> string \<Rightarrow> goerror \<Rightarrow> goerror" where
  "err_provider_error lib marshal_api provider err =
     (let msg = ''provider '' @ quoted provider @ '' error: '' @ error_text lib err in
      case as_upstream err of
        None \<Rightarrow> ProxyError [] 0 502 msg ''server_error'' ''provider_error'' (Some err)
      | Some u \<Rightarrow>
          (let status = the (http_status u);
               body = api_error_body marshal_api u;
               raw = (if has_error_member lib body then body else []);
               typ = (if status = 429 then ''rate_limit_error''
                      else if 400 \<le> status \<and> status < 500 then ''invalid_request_error''
                      else ''server_error'')
           in ProxyError raw (the (retry_delay u)) status msg typ ''provider_error'' (Some err)))"

definition err_internal_server :: "string \<Rightarrow> goerror option \<Rightarrow> goerror" where
  "err_internal_server m e = ProxyError [] 0 500 m ''server_error'' [] e"

definition err_forbidden :: "string \<Rightarrow> goerror" where
  "err_forbidden m = ProxyError [] 0 403 m ''permission_error'' ''forbidden'' None"

definition err_not_found :: "string \<Rightarrow> goerror" where
  "err_not_found m = ProxyError [] 0 404 m ''invalid_request_error'' ''not_found'' None"

definition err_internal :: "string \<Rightarrow> goerror" where
  "err_internal m = ProxyError [] 0 500 m ''server_error'' ''internal_error'' None"

definition err_service_unavailable :: "string \<Rightarrow> goerror" where
  "err_service_unavailable m = ProxyError [] 0 503 m ''server_error'' ''service_unavailable'' None"

definition err_rate_limited :: "string \<Rightarrow> goerror" where
  "err_rate_limited m = ProxyError [] 0 429 m ''rate_limit_error'' ''rate_limit_exceeded'' None"

definition err_budget_exceeded :: "string \<Rightarrow> goerror" where
  "err_budget_exceeded m = ProxyError [] 0 429 m ''budget_limit_error'' ''budget_exceeded'' None"

section \<open>The HTTP answer for an error\<close>

text \<open>
  \<open>WriteError\<close>: the \<open>Retry-After\<close> header is the delay in whole seconds, rounded up;
  \<open>Duration.Seconds\<close> is the \<open>float64\<close> sum of the whole seconds and the fraction. The body is
  the raw upstream body when there is one, else the OpenAI-compatible error object.
\<close>

datatype error_body = RawBody string | APIErrorBody string string "string option"

record error_response =
  er_status :: int
  er_retry_after :: "int option"
  er_body :: error_body

definition to_api_error :: "goerror \<Rightarrow> error_body" where
  "to_api_error e = APIErrorBody (pe_message e) (pe_type e)
     (if pe_code e \<noteq> [] then Some (pe_code e) else None)"

definition duration_seconds :: "duration \<Rightarrow> f64" where
  "duration_seconds d = fadd (rnd64 (of_int (d div second)))
     (fdiv (of_int (d mod second)) (of_int second))"

definition write_error :: "goerror \<Rightarrow> error_response" where
  "write_error e = \<lparr>
     er_status = pe_status_code e,
     er_retry_after = (if 0 < pe_retry_after e
                       then Some \<lceil>duration_seconds (pe_retry_after e)\<rceil> else None),
     er_body = (if pe_raw_body e \<noteq> [] then RawBody (pe_raw_body e) else to_api_error e)\<rparr>"

section \<open>Classification lemmas\<close>

lemma as_upstream_status: "as_upstream e = Some u \<Longrightarrow> \<exists>s r. http_status u = Some s \<and> retry_delay u = Some r"
  by (induction e rule: as_upstream.induct) auto

lemma as_upstream_None_no_rate_limit: "as_upstream e = None \<Longrightarrow> as_rate_limit e = None"
  by (induction e rule: as_upstream.induct) auto

lemma rate_limit_not_invalid:
  "\<not> is_invalid_request (RateLimitError l p r b)"
  by (simp add: is_invalid_request_def)

lemma new_http_error_429:
  "as_rate_limit (new_http_error lib now name 429 h body cs) = Some (False, parse_retry_after lib now h)"
  by (simp add: new_http_error_def)

lemma new_http_error_status:
  "http_status (new_http_error lib now name st h body cs) = Some st"
  by (simp add: new_http_error_def Let_def)

end
