(* ===== verification/Deployment.thy ===== *)
theory Deployment
  imports Errors
begin

text \<open>
  Model deployments (\<open>provider.Deployment\<close> in \<open>internal/provider/provider.go\<close>) and the
  configuration records they are built from (\<open>internal/config/config.go\<close>).

  The code passes deployments as pointers and compares pointers; \<open>dep_id\<close> is the address,
  so \<open>same_deployment\<close> is Go's \<open>==\<close> on \<open>*Deployment\<close>. \<open>deployment_key\<close> is the string
  identity that survives a reload: it names provider, model and base URL, not the API key.
\<close>

record decision_pricing =
  input_cost_per_token :: f64
  output_cost_per_token :: f64
  cache_read_input_token_cost :: "f64 option"
  cache_creation_input_token_cost :: "f64 option"
  cost_per_request :: f64

record decision_config =
  protocol :: string
  path :: string
  modalities :: "string list"
  question_types :: "string list"
  pricing :: "decision_pricing option"

record deployment =
  dep_id :: nat
  cost_policy :: string
  decision :: "decision_config option"
  model_name :: string
  provider_name :: string
  actual_model :: string
  api_key :: string
  api_base :: string
  rpm :: int
  tpm :: int

definition deployment_key :: "deployment \<Rightarrow> string" where
  "deployment_key d =
     (case decision d of
        Some dec \<Rightarrow> provider_name d @ '':'' @ actual_model d @ '':'' @ api_base d @ '':decision:''
                   @ protocol dec @ '':'' @ path dec
      | None \<Rightarrow> provider_name d @ '':'' @ actual_model d @ '':'' @ api_base d)"

definition same_deployment :: "deployment \<Rightarrow> deployment \<Rightarrow> bool" where
  "same_deployment d e \<longleftrightarrow> dep_id d = dep_id e"

text \<open>A list of distinct pointers, as every deployment list the router builds is.\<close>

abbreviation distinct_deps :: "deployment list \<Rightarrow> bool" where
  "distinct_deps ds \<equiv> distinct (map dep_id ds)"

definition remove_deployment :: "deployment list \<Rightarrow> deployment \<Rightarrow> deployment list" where
  "remove_deployment ds target = filter (\<lambda>d. \<not> same_deployment d target) ds"

fun find_deployment_by_key :: "deployment list \<Rightarrow> string \<Rightarrow> deployment option" where
  "find_deployment_by_key [] key = None"
| "find_deployment_by_key (d # ds) key =
     (if deployment_key d = key then Some d else find_deployment_by_key ds key)"

lemma same_deployment_refl [simp]: "same_deployment d d"
  by (simp add: same_deployment_def)

lemma length_remove_deployment:
  "d \<in> set ds \<Longrightarrow> length (remove_deployment ds d) < length ds"
  unfolding remove_deployment_def by (rule length_filter_remove [of d]) simp_all

lemma set_remove_deployment:
  "set (remove_deployment ds d) = {e \<in> set ds. dep_id e \<noteq> dep_id d}"
  by (auto simp: remove_deployment_def same_deployment_def)

lemma distinct_remove_deployment:
  "distinct_deps ds \<Longrightarrow> distinct_deps (remove_deployment ds d)"
  by (simp add: remove_deployment_def distinct_map_filter)

lemma remove_deployment_subset: "set (remove_deployment ds d) \<subseteq> set ds"
  by (auto simp: remove_deployment_def)

lemma find_deployment_by_key_Some:
  "find_deployment_by_key ds key = Some d \<Longrightarrow> d \<in> set ds \<and> deployment_key d = key"
  by (induction ds) (auto split: if_splits)

lemma find_deployment_by_key_None:
  "find_deployment_by_key ds key = None \<longleftrightarrow> (\<forall>d \<in> set ds. deployment_key d \<noteq> key)"
  by (induction ds) auto

section \<open>Concrete deployments, for the witnesses\<close>

definition sample_deployment :: "nat \<Rightarrow> string \<Rightarrow> string \<Rightarrow> string \<Rightarrow> deployment" where
  "sample_deployment i prov m key = \<lparr>dep_id = i, cost_policy = [], decision = None,
     model_name = ''chat'', provider_name = prov, actual_model = m, api_key = key,
     api_base = [], rpm = 0, tpm = 0\<rparr>"

definition sample_a :: deployment where
  "sample_a = sample_deployment 0 ''openai'' ''gpt'' ''key1''"

definition sample_b :: deployment where
  "sample_b = sample_deployment 1 ''anthropic'' ''claude'' ''key2''"

text \<open>The same provider, model and base URL as \<open>sample_a\<close>, with another API key.\<close>

definition sample_twin :: deployment where
  "sample_twin = sample_deployment 2 ''openai'' ''gpt'' ''key3''"

lemmas sample_defs = sample_a_def sample_b_def sample_twin_def sample_deployment_def

lemma sample_keys [simp]:
  "deployment_key sample_a = ''openai:gpt:''" "deployment_key sample_b = ''anthropic:claude:''"
  "deployment_key sample_twin = ''openai:gpt:''"
  by (simp_all add: sample_defs deployment_key_def)

lemma sample_ids [simp]: "dep_id sample_a = 0" "dep_id sample_b = 1" "dep_id sample_twin = 2"
  by (simp_all add: sample_defs)

lemma sample_neq [simp]:
  "sample_a \<noteq> sample_b" "sample_b \<noteq> sample_a" "sample_a \<noteq> sample_twin"
  "sample_twin \<noteq> sample_a" "sample_b \<noteq> sample_twin" "sample_twin \<noteq> sample_b"
  by (metis sample_ids zero_neq_one one_neq_zero numeral_eq_one_iff zero_neq_numeral
      semiring_norm(85) num.distinct(1))+

end
