(* ===== verification/Strategy.thy ===== *)
theory Strategy
  imports Deployment
begin

text \<open>
  The selection strategies of \<open>internal/router\<close>: \<open>shuffle.go\<close>, \<open>roundrobin.go\<close>,
  \<open>wrr.go\<close>, \<open>affinity.go\<close> and the interface \<open>Strategy\<close> of \<open>strategy.go\<close>.

  A strategy object is a value of the datatype \<open>strategy\<close>; \<open>Select\<close> returns the chosen
  deployment (\<open>None\<close> is Go's nil) and the strategy's next state. The number \<open>r\<close> is what
  the random source delivers for this call; \<open>rand.Intn(n)\<close> is \<open>r mod n\<close>.

  The locale \<open>strategy_contract\<close> is what the router relies on. It is interpreted on each
  strategy and on the dispatching \<open>strategy_select\<close>.
\<close>

section \<open>Shuffle\<close>

definition shuffle_select :: "nat \<Rightarrow> deployment list \<Rightarrow> deployment option" where
  "shuffle_select r ds =
     (if length ds = 0 then None
      else if length ds = 1 then Some (ds ! 0)
      else Some (ds ! (r mod length ds)))"

section \<open>Round robin\<close>

text \<open>The counter is a \<open>uint64\<close> that is incremented first and wraps around.\<close>

type_synonym u64 = "64 word"

definition round_robin_select :: "u64 \<Rightarrow> deployment list \<Rightarrow> deployment option \<times> u64" where
  "round_robin_select counter ds =
     (if length ds = 0 then (None, counter)
      else if length ds = 1 then (Some (ds ! 0), counter)
      else let counter' = counter + 1
           in (Some (ds ! (unat counter' mod length ds)), counter'))"

section \<open>Smooth weighted round robin\<close>

record wrr =
  current_weight :: "string \<rightharpoonup> int"
  weights :: "string \<rightharpoonup> int"

definition new_weighted_round_robin :: "(string \<rightharpoonup> int) \<Rightarrow> wrr" where
  "new_weighted_round_robin ws = \<lparr>current_weight = Map.empty, weights = ws\<rparr>"

definition weight_for :: "(string \<rightharpoonup> int) \<Rightarrow> string \<Rightarrow> int" where
  "weight_for ws key = mget ws key 1"

text \<open>Step 1: add every configured weight to its running weight and total the weights.\<close>

fun wrr_add :: "(string \<rightharpoonup> int) \<Rightarrow> deployment list \<Rightarrow> int \<Rightarrow> (string \<rightharpoonup> int) \<Rightarrow> int \<times> (string \<rightharpoonup> int)" where
  "wrr_add ws [] tot cur = (tot, cur)"
| "wrr_add ws (d # ds) tot cur =
     (let key = deployment_key d; cw = weight_for ws key
      in wrr_add ws ds (tot + cw) (cur(key \<mapsto> mget cur key 0 + cw)))"

text \<open>Step 2: the first deployment with the highest running weight.\<close>

fun wrr_best :: "(string \<rightharpoonup> int) \<Rightarrow> deployment list \<Rightarrow> deployment \<Rightarrow> int \<Rightarrow> deployment" where
  "wrr_best cur [] best best_weight = best"
| "wrr_best cur (d # ds) best best_weight =
     (let cw = mget cur (deployment_key d) 0
      in if best_weight < cw then wrr_best cur ds d cw else wrr_best cur ds best best_weight)"

text \<open>Step 3: subtract the total from the winner.\<close>

definition wrr_select :: "wrr \<Rightarrow> deployment list \<Rightarrow> deployment option \<times> wrr" where
  "wrr_select w ds =
     (case ds of
        [] \<Rightarrow> (None, w)
      | [d] \<Rightarrow> (Some d, w)
      | d # rest \<Rightarrow>
          (let (tot, cur) = wrr_add (weights w) ds 0 (current_weight w);
               best = wrr_best cur rest d (mget cur (deployment_key d) 0);
               key = deployment_key best
           in (Some best, w\<lparr>current_weight := cur(key \<mapsto> mget cur key 0 - tot)\<rparr>)))"

section \<open>The strategy interface\<close>

datatype strategy =
    Shuffle
  | RoundRobin u64
  | WeightedRoundRobin wrr
  | Affinity string strategy

fun strategy_name :: "strategy \<Rightarrow> string" where
  "strategy_name Shuffle = ''simple-shuffle''"
| "strategy_name (RoundRobin c) = ''round-robin''"
| "strategy_name (WeightedRoundRobin w) = ''weighted-round-robin''"
| "strategy_name (Affinity p s) = ''affinity''"

fun preferred_provider :: "strategy \<Rightarrow> string option" where
  "preferred_provider (Affinity p s) = Some p"
| "preferred_provider _ = None"

fun strategy_select :: "nat \<Rightarrow> strategy \<Rightarrow> deployment list \<Rightarrow> deployment option \<times> strategy" where
  "strategy_select r Shuffle ds = (shuffle_select r ds, Shuffle)"
| "strategy_select r (RoundRobin c) ds =
     (let (d, c') = round_robin_select c ds in (d, RoundRobin c'))"
| "strategy_select r (WeightedRoundRobin w) ds =
     (let (d, w') = wrr_select w ds in (d, WeightedRoundRobin w'))"
| "strategy_select r (Affinity p inner) ds =
     (if ds = [] then (None, Affinity p inner)
      else let pref = filter (\<lambda>d. provider_name d = p) ds;
               (d, inner') = strategy_select r inner (if pref \<noteq> [] then pref else ds)
           in (d, Affinity p inner'))"

section \<open>The contract the router relies on\<close>

locale strategy_contract =
  fixes sel :: "nat \<Rightarrow> 's \<Rightarrow> deployment list \<Rightarrow> deployment option \<times> 's"
  assumes sel_empty: "sel r s [] = (None, s)"
    and sel_in: "ds \<noteq> [] \<Longrightarrow> \<exists>d s'. sel r s ds = (Some d, s') \<and> d \<in> set ds"
begin

lemma sel_member: "sel r s ds = (Some d, s') \<Longrightarrow> d \<in> set ds"
  using sel_in [of ds r s] sel_empty [of r s] by (cases "ds = []") auto

lemma sel_None_iff: "fst (sel r s ds) = None \<longleftrightarrow> ds = []"
  using sel_in [of ds r s] sel_empty [of r s] by (cases "ds = []") auto

lemma sel_singleton: "fst (sel r s [d]) = Some d"
  using sel_in [of "[d]" r s] by auto

text \<open>Removing what was selected strictly shrinks the list: the failover loop ends.\<close>

lemma sel_remove_shrinks:
  "sel r s ds = (Some d, s') \<Longrightarrow> length (remove_deployment ds d) < length ds"
  by (rule length_remove_deployment) (rule sel_member)

end

lemma nth_mod_mem: "ds \<noteq> [] \<Longrightarrow> ds ! (k mod length ds) \<in> set ds"
  by (intro nth_mem) simp

interpretation shuffle: strategy_contract "\<lambda>r (s::unit) ds. (shuffle_select r ds, s)"
  by unfold_locales (auto simp: shuffle_select_def nth_mod_mem)

interpretation round_robin: strategy_contract "\<lambda>r c ds. round_robin_select c ds"
  by unfold_locales (auto simp: round_robin_select_def nth_mod_mem Let_def)

lemma wrr_best_mem: "wrr_best cur ds b bw \<in> insert b (set ds)"
  by (induction cur ds b bw rule: wrr_best.induct) (auto simp: Let_def)

interpretation weighted: strategy_contract "\<lambda>r w ds. wrr_select w ds"
proof
  fix r :: nat and w and ds :: "deployment list"
  show "wrr_select w [] = (None, w)" by (simp add: wrr_select_def)
  assume "ds \<noteq> []"
  then obtain d rest where ds: "ds = d # rest" by (cases ds) auto
  show "\<exists>d s'. wrr_select w ds = (Some d, s') \<and> d \<in> set ds"
  proof (cases rest)
    case Nil
    then show ?thesis by (simp add: ds wrr_select_def)
  next
    case (Cons e es)
    obtain tot cur where a: "wrr_add (weights w) ds 0 (current_weight w) = (tot, cur)"
      by (cases "wrr_add (weights w) ds 0 (current_weight w)")
    have "wrr_best cur rest d (mget cur (deployment_key d) 0) \<in> set ds"
      using wrr_best_mem [of cur rest d] by (auto simp: ds)
    with a show ?thesis by (simp add: ds Cons wrr_select_def Let_def)
  qed
qed

lemma strategy_select_empty: "strategy_select r s [] = (None, s)"
  by (cases s) (simp_all add: shuffle.sel_empty round_robin.sel_empty weighted.sel_empty
      shuffle_select_def)

lemma strategy_select_in:
  "ds \<noteq> [] \<Longrightarrow> \<exists>d s'. strategy_select r s ds = (Some d, s') \<and> d \<in> set ds"
proof (induction r s ds rule: strategy_select.induct)
  case (1 r ds)
  then show ?case using shuffle.sel_in [where ds = ds and r = r] by auto
next
  case (2 r c ds)
  then show ?case using round_robin.sel_in [where ds = ds and s = c] by auto
next
  case (3 r w ds)
  then show ?case using weighted.sel_in [where ds = ds and s = w] by auto
next
  case (4 r p inner ds)
  let ?pref = "filter (\<lambda>d. provider_name d = p) ds"
  from 4 obtain d s' where "strategy_select r inner (if ?pref \<noteq> [] then ?pref else ds) = (Some d, s')"
    and d: "d \<in> set (if ?pref \<noteq> [] then ?pref else ds)"
    by (metis (no_types, lifting))
  moreover from d have "d \<in> set ds" by (auto split: if_splits)
  ultimately show ?case using 4(2) by (simp add: Let_def)
qed

interpretation strategy: strategy_contract strategy_select
  by unfold_locales (rule strategy_select_empty, rule strategy_select_in)

section \<open>Sequences of selections\<close>

text \<open>One call of \<open>Select\<close> on the same list for each random value of the list.\<close>

fun run_selects :: "nat list \<Rightarrow> strategy \<Rightarrow> deployment list \<Rightarrow> deployment option list \<times> strategy" where
  "run_selects [] s ds = ([], s)"
| "run_selects (r # rs) s ds =
     (let (d, s1) = strategy_select r s ds; (sel, s2) = run_selects rs s1 ds in (d # sel, s2))"

lemma length_run_selects [simp]: "length (fst (run_selects rs s ds)) = length rs"
  by (induction rs s ds rule: run_selects.induct) (auto split: prod.splits)

lemma run_selects_Cons:
  "fst (run_selects (r # rs) s ds)
     = fst (strategy_select r s ds) # fst (run_selects rs (snd (strategy_select r s ds)) ds)"
  "snd (run_selects (r # rs) s ds) = snd (run_selects rs (snd (strategy_select r s ds)) ds)"
  by (simp_all split: prod.splits)

subsection \<open>Round robin\<close>

lemma unat_Suc_no_wrap: "unat (c :: u64) + 1 < 2 ^ 64 \<Longrightarrow> unat (c + 1) = unat c + 1"
  by (simp add: unat_word_ariths)

lemma round_robin_run:
  assumes "2 \<le> length ds" "unat c + length rs < 2 ^ 64"
  shows "fst (run_selects rs (RoundRobin c) ds)
    = map (\<lambda>i. Some (ds ! ((unat c + 1 + i) mod length ds))) [0..<length rs]"
  using assms(2)
proof (induction rs arbitrary: c)
  case Nil
  then show ?case by simp
next
  case (Cons r rs)
  have c: "unat (c + 1) = unat c + 1" using Cons.prems by (intro unat_Suc_no_wrap) simp
  have "ds \<noteq> []" using assms(1) by auto
  then have sel: "strategy_select r (RoundRobin c) ds
      = (Some (ds ! ((unat c + 1) mod length ds)), RoundRobin (c + 1))"
    using assms(1) by (simp add: round_robin_select_def Let_def c)
  have upt: "[0..<length (r # rs)] = 0 # map Suc [0..<length rs]"
    by (simp add: map_Suc_upt upt_conv_Cons del: upt_Suc)
  have IH: "fst (run_selects rs (RoundRobin (c + 1)) ds)
      = map (\<lambda>i. Some (ds ! ((unat c + 1 + 1 + i) mod length ds))) [0..<length rs]"
    using Cons.IH [of "c + 1"] Cons.prems c by simp
  show ?case
    by (simp only: run_selects_Cons sel fst_conv snd_conv IH upt list.map map_map)
      (simp add: o_def)
qed

lemma round_robin_single:
  "length ds = 1 \<Longrightarrow> fst (run_selects rs (RoundRobin c) ds) = replicate (length rs) (Some (ds ! 0))"
  by (induction rs) (auto simp: round_robin_select_def split: prod.splits)

lemma round_robin_rotate:
  assumes "ds \<noteq> []" "length rs = length ds" "unat c + length ds < 2 ^ 64"
  shows "fst (run_selects rs (RoundRobin c) ds) = map Some (rotate (unat c + 1) ds)"
proof (cases "length ds = 1")
  case True
  then obtain d where "ds = [d]" by (auto simp: length_Suc_conv)
  with assms(2) round_robin_single [of ds rs c] show ?thesis by simp
next
  case False
  with assms(1) have "2 \<le> length ds" by (cases ds) (auto simp: Suc_le_eq)
  then have run: "fst (run_selects rs (RoundRobin c) ds)
    = map (\<lambda>i. Some (ds ! ((unat c + 1 + i) mod length ds))) [0..<length ds]"
    using assms(2,3) by (simp only: round_robin_run)
  show ?thesis
    unfolding run by (rule nth_equalityI) (simp_all add: nth_rotate del: rotate_Suc)
qed

subsection \<open>Smooth weighted round robin\<close>

definition total_weight :: "(string \<rightharpoonup> int) \<Rightarrow> deployment list \<Rightarrow> int" where
  "total_weight ws ds = (\<Sum>d \<leftarrow> ds. weight_for ws (deployment_key d))"

abbreviation running :: "wrr \<Rightarrow> deployment \<Rightarrow> int" where
  "running w d \<equiv> mget (current_weight w) (deployment_key d) 0"

abbreviation distinct_keys :: "deployment list \<Rightarrow> bool" where
  "distinct_keys ds \<equiv> distinct (map deployment_key ds)"

lemma wrr_add_total: "fst (wrr_add ws ds t cur) = t + total_weight ws ds"
  by (induction ds arbitrary: t cur) (simp_all add: total_weight_def Let_def)

lemma wrr_add_other: "k \<notin> deployment_key ` set ds \<Longrightarrow> snd (wrr_add ws ds t cur) k = cur k"
  by (induction ds arbitrary: t cur) (auto simp: Let_def)

lemma wrr_add_running:
  assumes "distinct_keys ds" "d \<in> set ds"
  shows "mget (snd (wrr_add ws ds t cur)) (deployment_key d) 0
    = mget cur (deployment_key d) 0 + weight_for ws (deployment_key d)"
  using assms
proof (induction ds arbitrary: t cur)
  case Nil
  then show ?case by simp
next
  case (Cons e ds)
  show ?case
  proof (cases "deployment_key d = deployment_key e")
    case True
    with Cons.prems(1) have "deployment_key d \<notin> deployment_key ` set ds" by simp
    with True show ?thesis by (simp add: Let_def mget_def wrr_add_other)
  next
    case False
    with Cons show ?thesis by (auto simp: Let_def)
  qed
qed

lemma wrr_best_max:
  "mget cur (deployment_key b) 0 \<le> mget cur (deployment_key (wrr_best cur ds b (mget cur (deployment_key b) 0))) 0
   \<and> (\<forall>e \<in> set ds. mget cur (deployment_key e) 0
        \<le> mget cur (deployment_key (wrr_best cur ds b (mget cur (deployment_key b) 0))) 0)"
proof (induction ds arbitrary: b)
  case Nil
  then show ?case by simp
next
  case (Cons d ds)
  show ?case
  proof (cases "mget cur (deployment_key b) 0 < mget cur (deployment_key d) 0")
    case True
    with Cons.IH [of d] show ?thesis by (auto simp: Let_def)
  next
    case False
    with Cons.IH [of b] show ?thesis by (auto simp: Let_def)
  qed
qed

text \<open>One selection among at least two deployments with distinct keys.\<close>

lemma wrr_select_step:
  assumes "2 \<le> length ds" "distinct_keys ds"
  obtains b w' where "wrr_select w ds = (Some b, w')" "b \<in> set ds" "weights w' = weights w"
    and "\<forall>d \<in> set ds. running w' d = running w d + weight_for (weights w) (deployment_key d)
           - (if d = b then total_weight (weights w) ds else 0)"
    and "\<forall>d \<in> set ds. running w d + weight_for (weights w) (deployment_key d)
           \<le> running w b + weight_for (weights w) (deployment_key b)"
proof -
  obtain d e es where ds: "ds = d # e # es"
    using assms(1) by (cases ds; cases "tl ds") auto
  obtain tot cur where a: "wrr_add (weights w) ds 0 (current_weight w) = (tot, cur)"
    by (cases "wrr_add (weights w) ds 0 (current_weight w)")
  define b where "b = wrr_best cur (e # es) d (mget cur (deployment_key d) 0)"
  define w' where "w' = w\<lparr>current_weight := cur(deployment_key b \<mapsto> mget cur (deployment_key b) 0 - tot)\<rparr>"
  have tot: "tot = total_weight (weights w) ds"
    using wrr_add_total [of "weights w" ds 0 "current_weight w"] by (simp add: a)
  have cur: "mget cur (deployment_key x) 0 = running w x + weight_for (weights w) (deployment_key x)"
    if "x \<in> set ds" for x
    using wrr_add_running [OF assms(2) that, of "weights w" 0 "current_weight w"] by (simp add: a)
  have b_in: "b \<in> set ds" using wrr_best_mem [of cur "e # es" d] by (simp add: b_def ds)
  show ?thesis
  proof (rule that [of b w'])
    show "wrr_select w ds = (Some b, w')"
      using a by (simp add: wrr_select_def ds b_def w'_def Let_def)
    show "b \<in> set ds" by (rule b_in)
    show "weights w' = weights w" by (simp add: w'_def)
    show "\<forall>d \<in> set ds. running w' d = running w d + weight_for (weights w) (deployment_key d)
           - (if d = b then total_weight (weights w) ds else 0)"
    proof
      fix x assume x: "x \<in> set ds"
      have "deployment_key x = deployment_key b \<longleftrightarrow> x = b"
        using assms(2) x b_in by (auto simp: distinct_map inj_on_def)
      with x show "running w' x = running w x + weight_for (weights w) (deployment_key x)
             - (if x = b then total_weight (weights w) ds else 0)"
        by (auto simp: w'_def cur tot)
    qed
    show "\<forall>d \<in> set ds. running w d + weight_for (weights w) (deployment_key d)
           \<le> running w b + weight_for (weights w) (deployment_key b)"
    proof
      fix x assume x: "x \<in> set ds"
      have "mget cur (deployment_key x) 0 \<le> mget cur (deployment_key b) 0"
      unfolding b_def using wrr_best_max [of cur d "e # es"] x ds by fastforce
    then show "running w x + weight_for (weights w) (deployment_key x)
           \<le> running w b + weight_for (weights w) (deployment_key b)"
      using cur [OF x] cur [OF b_in] by simp
    qed
  qed
qed

text \<open>
  Along any run: a deployment's running weight is what it was given minus one total per time it
  was chosen, it stays above minus the total, and the running weights add up to zero.
\<close>

definition wrr_balanced :: "wrr \<Rightarrow> deployment list \<Rightarrow> bool" where
  "wrr_balanced w ds \<longleftrightarrow>
     (\<Sum>d \<leftarrow> ds. running w d) = 0
     \<and> (\<forall>d \<in> set ds. - total_weight (weights w) ds < running w d)"

definition positive_weights :: "(string \<rightharpoonup> int) \<Rightarrow> deployment list \<Rightarrow> bool" where
  "positive_weights ws ds \<longleftrightarrow> (\<forall>d \<in> set ds. 0 < weight_for ws (deployment_key d))"

lemma sum_list_indicator:
  "distinct ds \<Longrightarrow> b \<in> set ds \<Longrightarrow> (\<Sum>d \<leftarrow> ds. if d = b then W else 0) = (W :: int)"
proof (induction ds)
  case Nil
  then show ?case by simp
next
  case (Cons d ds)
  have "b \<notin> set ds \<Longrightarrow> (\<Sum>d \<leftarrow> ds. if d = b then W else 0) = 0"
    by (induction ds) auto
  with Cons show ?case by auto
qed

lemma distinct_keys_distinct: "distinct_keys ds \<Longrightarrow> distinct ds"
  by (simp add: distinct_map)

lemma wrr_step_balanced:
  assumes two: "2 \<le> length ds" and keys: "distinct_keys ds"
    and pos: "positive_weights (weights w) ds" and bal: "wrr_balanced w ds"
  obtains b w' where "wrr_select w ds = (Some b, w')" "b \<in> set ds" "weights w' = weights w"
    "wrr_balanced w' ds"
    "\<forall>d \<in> set ds. running w' d = running w d + weight_for (weights w) (deployment_key d)
           - (if d = b then total_weight (weights w) ds else 0)"
proof -
  obtain b w' where sel: "wrr_select w ds = (Some b, w')" "b \<in> set ds" "weights w' = weights w"
    and upd: "\<forall>d \<in> set ds. running w' d = running w d + weight_for (weights w) (deployment_key d)
           - (if d = b then total_weight (weights w) ds else 0)"
    and best: "\<forall>d \<in> set ds. running w d + weight_for (weights w) (deployment_key d)
           \<le> running w b + weight_for (weights w) (deployment_key b)"
    by (rule wrr_select_step [OF two keys, of w]) blast
  let ?W = "total_weight (weights w) ds" and ?wt = "\<lambda>d. weight_for (weights w) (deployment_key d)"
  have "0 < (\<Sum>d \<leftarrow> ds. ?wt d)"
    using pos two by (intro sum_list_pos_all) (auto simp: positive_weights_def)
  then have W: "0 < ?W" by (simp add: total_weight_def)
  have "(\<Sum>d \<leftarrow> ds. running w d + ?wt d) = ?W"
    using bal by (simp add: sum_list_map_add wrr_balanced_def total_weight_def)
  with W obtain x where "x \<in> set ds" "0 < running w x + ?wt x"
    using sum_list_pos_ex [where f = "\<lambda>d. running w d + ?wt d" and xs = ds] by auto
  with best have b: "0 < running w b + ?wt b" by fastforce
  have "(\<Sum>d \<leftarrow> ds. running w' d) = (\<Sum>d \<leftarrow> ds. (running w d + ?wt d) + (if d = b then - ?W else 0))"
    by (intro arg_cong [where f = sum_list] map_cong) (auto simp: upd)
  also have "\<dots> = 0"
    unfolding sum_list_map_add
    using bal sum_list_indicator [OF distinct_keys_distinct [OF keys] sel(2), of "- ?W"]
    by (simp add: wrr_balanced_def total_weight_def)
  finally have "(\<Sum>d \<leftarrow> ds. running w' d) = 0" .
  moreover have "- ?W < running w' d" if "d \<in> set ds" for d
    using upd that b pos bal
    by (cases "d = b") (fastforce simp: positive_weights_def wrr_balanced_def)+
  ultimately have "wrr_balanced w' ds" by (simp add: wrr_balanced_def sel(3))
  with that sel upd show ?thesis by blast
qed

lemma wrr_run:
  assumes "2 \<le> length ds" "distinct_keys ds" "positive_weights (weights w) ds" "wrr_balanced w ds"
  shows "\<exists>w'. snd (run_selects rs (WeightedRoundRobin w) ds) = WeightedRoundRobin w'
      \<and> weights w' = weights w \<and> wrr_balanced w' ds
      \<and> set (fst (run_selects rs (WeightedRoundRobin w) ds)) \<subseteq> Some ` set ds
      \<and> (\<forall>d \<in> set ds. running w' d = running w d
           + int (length rs) * weight_for (weights w) (deployment_key d)
           - total_weight (weights w) ds
             * int (count_list (fst (run_selects rs (WeightedRoundRobin w) ds)) (Some d)))"
  using assms(3,4)
proof (induction rs arbitrary: w)
  case Nil
  then show ?case by simp
next
  case (Cons r rs)
  obtain b w1 where sel: "wrr_select w ds = (Some b, w1)" "b \<in> set ds" "weights w1 = weights w"
    "wrr_balanced w1 ds"
    and upd: "\<forall>d \<in> set ds. running w1 d = running w d + weight_for (weights w) (deployment_key d)
           - (if d = b then total_weight (weights w) ds else 0)"
    by (rule wrr_step_balanced [OF assms(1,2) Cons.prems]) blast
  have pos: "positive_weights (weights w1) ds" using Cons.prems(1) sel(3) by simp
  let ?run = "run_selects rs (WeightedRoundRobin w1) ds"
  obtain w' where IH: "snd ?run = WeightedRoundRobin w'" "weights w' = weights w1" "wrr_balanced w' ds"
    "set (fst ?run) \<subseteq> Some ` set ds"
    "\<forall>d \<in> set ds. running w' d = running w1 d + int (length rs) * weight_for (weights w1) (deployment_key d)
           - total_weight (weights w1) ds * int (count_list (fst ?run) (Some d))"
    using Cons.IH [OF pos sel(4)] by blast
  have step: "strategy_select r (WeightedRoundRobin w) ds = (Some b, WeightedRoundRobin w1)"
    by (simp add: sel(1))
  have run: "fst (run_selects (r # rs) (WeightedRoundRobin w) ds) = Some b # fst ?run"
    "snd (run_selects (r # rs) (WeightedRoundRobin w) ds) = snd ?run"
    by (simp_all only: run_selects_Cons step fst_conv snd_conv)
  show ?case
    unfolding run using IH sel(2,3) upd
    by (intro exI [of _ w']) (auto simp: algebra_simps)
qed

lemma wrr_fresh_balanced:
  assumes "ds \<noteq> []" "positive_weights ws ds"
  shows "wrr_balanced (new_weighted_round_robin ws) ds"
proof -
  have "0 < (\<Sum>d \<leftarrow> ds. weight_for ws (deployment_key d))"
    using assms by (intro sum_list_pos_all) (auto simp: positive_weights_def)
  then show ?thesis
    by (simp add: wrr_balanced_def new_weighted_round_robin_def total_weight_def)
qed

lemma count_list_sum:
  assumes "distinct ds" "set sel \<subseteq> Some ` set ds"
  shows "(\<Sum>d \<leftarrow> ds. int (count_list sel (Some d))) = int (length sel)"
  using assms(2)
proof (induction sel)
  case Nil
  then show ?case by simp
next
  case (Cons x sel)
  then obtain b where b: "x = Some b" "b \<in> set ds" by auto
  have "(\<Sum>d \<leftarrow> ds. int (count_list (x # sel) (Some d)))
      = (\<Sum>d \<leftarrow> ds. (if d = b then 1 else 0) + int (count_list sel (Some d)))"
    by (intro arg_cong [where f = sum_list] map_cong) (auto simp: b)
  then show ?case
    using Cons sum_list_indicator [OF assms(1) b(2), of 1] by (simp add: sum_list_map_add)
qed

lemma fresh_wrr [simp]:
  "running (new_weighted_round_robin ws) d = 0" "weights (new_weighted_round_robin ws) = ws"
  by (simp_all add: new_weighted_round_robin_def)

lemma mset_rotate_list: "mset (rotate n xs) = mset xs"
proof (induction n)
  case 0
  then show ?case by simp
next
  case (Suc n)
  have "mset (rotate1 ys) = mset ys" for ys :: "'a list" by (cases ys) simp_all
  with Suc show ?case by simp
qed

lemma wrr_fresh_run:
  assumes "2 \<le> length ds" "distinct_keys ds" "positive_weights ws ds"
  obtains w' where "snd (run_selects rs (WeightedRoundRobin (new_weighted_round_robin ws)) ds) = WeightedRoundRobin w'"
    "set (fst (run_selects rs (WeightedRoundRobin (new_weighted_round_robin ws)) ds)) \<subseteq> Some ` set ds"
    "weights w' = ws" "wrr_balanced w' ds"
    "\<forall>d \<in> set ds. running w' d = int (length rs) * weight_for ws (deployment_key d)
       - total_weight ws ds
         * int (count_list (fst (run_selects rs (WeightedRoundRobin (new_weighted_round_robin ws)) ds)) (Some d))"
proof -
  have "ds \<noteq> []" using assms(1) by auto
  from wrr_run [OF assms(1,2), of "new_weighted_round_robin ws" rs, unfolded fresh_wrr,
      OF assms(3) wrr_fresh_balanced [OF this assms(3)]]
  show ?thesis using that by auto
qed

section \<open>Properties\<close>

text \<open>
  Round robin is fair: over any number of consecutive calls equal to the number of healthy
  deployments (and while the 64-bit counter does not wrap) every deployment is selected exactly
  as often as it occurs in the list, in rotation order.
\<close>
theorem round_robin_fair:
  assumes "ds \<noteq> []" "length rs = length ds" "unat c + length ds < 2 ^ 64"
  shows "fst (run_selects rs (RoundRobin c) ds) = map Some (rotate (unat c + 1) ds)
    \<and> mset (fst (run_selects rs (RoundRobin c) ds)) = mset (map Some ds)"
  using round_robin_rotate [OF assms] by (simp add: mset_rotate_list del: rotate_Suc)

theorem round_robin_fair_witness:
  "fst (run_selects [0, 0] (RoundRobin 5) [sample_a, sample_b])
      = map Some (rotate (unat (5 :: u64) + 1) [sample_a, sample_b])
   \<and> mset (fst (run_selects [0, 0] (RoundRobin 5) [sample_a, sample_b]))
      = mset (map Some [sample_a, sample_b])"
  by (rule round_robin_fair) simp_all

text \<open>
  The smooth weighted round robin never gives a deployment a whole turn more than its share:
  after any number of selections from the start, the times it was selected, scaled by the total
  weight, exceed its proportional share by less than one total weight.
\<close>
theorem wrr_never_ahead:
  assumes "2 \<le> length ds" "distinct_keys ds" "positive_weights ws ds" "d \<in> set ds"
  shows "total_weight ws ds
      * int (count_list (fst (run_selects rs (WeightedRoundRobin (new_weighted_round_robin ws)) ds)) (Some d))
    < int (length rs) * weight_for ws (deployment_key d) + total_weight ws ds"
proof -
  let ?sel = "fst (run_selects rs (WeightedRoundRobin (new_weighted_round_robin ws)) ds)"
  obtain w' where w': "weights w' = ws" "wrr_balanced w' ds"
    and run: "\<forall>d \<in> set ds. running w' d = int (length rs) * weight_for ws (deployment_key d)
       - total_weight ws ds * int (count_list ?sel (Some d))"
    by (rule wrr_fresh_run [OF assms(1-3), of rs])
  have "- total_weight ws ds < running w' d"
    using w' assms(4) by (auto simp: wrr_balanced_def)
  with run assms(4) show ?thesis by fastforce
qed

theorem wrr_never_ahead_witness:
  "total_weight [''openai:gpt:'' \<mapsto> 2] [sample_a, sample_b]
      * int (count_list (fst (run_selects [0, 0] (WeightedRoundRobin
          (new_weighted_round_robin [''openai:gpt:'' \<mapsto> 2])) [sample_a, sample_b])) (Some sample_a))
    < int (length [0::nat, 0]) * weight_for [''openai:gpt:'' \<mapsto> 2] (deployment_key sample_a)
      + total_weight [''openai:gpt:'' \<mapsto> 2] [sample_a, sample_b]"
  by (rule wrr_never_ahead) (simp_all add: positive_weights_def weight_for_def)

text \<open>
  C5. The smooth weighted round robin is exact: starting fresh, over one period (as many
  selections as the weights add up to) every deployment is selected exactly as many times as its
  weight, and afterwards every running weight is back at zero.
\<close>
theorem wrr_exact_period:
  assumes "2 \<le> length ds" "distinct_keys ds" "positive_weights ws ds"
    and "int (length rs) = total_weight ws ds"
  shows "\<exists>w'. snd (run_selects rs (WeightedRoundRobin (new_weighted_round_robin ws)) ds) = WeightedRoundRobin w'
    \<and> (\<forall>d \<in> set ds.
         int (count_list (fst (run_selects rs (WeightedRoundRobin (new_weighted_round_robin ws)) ds)) (Some d))
           = weight_for ws (deployment_key d)
         \<and> running w' d = 0)"
proof -
  let ?w0 = "new_weighted_round_robin ws" and ?W = "total_weight ws ds"
  let ?sel = "fst (run_selects rs (WeightedRoundRobin ?w0) ds)"
  have ne: "ds \<noteq> []" using assms(1) by auto
  obtain w' where w': "snd (run_selects rs (WeightedRoundRobin ?w0) ds) = WeightedRoundRobin w'"
    "set ?sel \<subseteq> Some ` set ds" "weights w' = ws" "wrr_balanced w' ds"
    and run0: "\<forall>d \<in> set ds. running w' d = int (length rs) * weight_for ws (deployment_key d)
       - ?W * int (count_list ?sel (Some d))"
    by (rule wrr_fresh_run [OF assms(1-3), of rs])
  have run: "\<forall>d \<in> set ds. running w' d = ?W * (weight_for ws (deployment_key d) - int (count_list ?sel (Some d)))"
    using run0 by (simp only: assms(4) right_diff_distrib)
  have "0 < ?W"
    unfolding total_weight_def using assms(3) ne
    by (intro sum_list_pos_all) (auto simp: positive_weights_def)
  have le: "int (count_list ?sel (Some d)) \<le> weight_for ws (deployment_key d)" if "d \<in> set ds" for d
  proof -
    have "- ?W < ?W * (weight_for ws (deployment_key d) - int (count_list ?sel (Some d)))"
      using w'(3,4) run that by (auto simp: wrr_balanced_def)
    then have "?W * (- 1) < ?W * (weight_for ws (deployment_key d) - int (count_list ?sel (Some d)))"
      by simp
    with \<open>0 < ?W\<close> show ?thesis by (simp only: mult_less_cancel_left_pos)
  qed
  have sums: "(\<Sum>d \<leftarrow> ds. int (count_list ?sel (Some d))) = (\<Sum>d \<leftarrow> ds. weight_for ws (deployment_key d))"
    using count_list_sum [OF distinct_keys_distinct [OF assms(2)] w'(2)] assms(4)
    by (simp add: total_weight_def)
  have eq: "int (count_list ?sel (Some d)) = weight_for ws (deployment_key d)" if "d \<in> set ds" for d
    by (rule sum_list_le_eq [where f = "\<lambda>d. int (count_list ?sel (Some d))"
          and g = "\<lambda>d. weight_for ws (deployment_key d)", OF le sums that])
  have "\<forall>d \<in> set ds. running w' d = 0" using run eq by simp
  with w'(1) eq show ?thesis by blast
qed

theorem wrr_exact_period_witness:
  "\<exists>w'. snd (run_selects [0, 0, 0] (WeightedRoundRobin
        (new_weighted_round_robin [''openai:gpt:'' \<mapsto> 2])) [sample_a, sample_b]) = WeightedRoundRobin w'
    \<and> (\<forall>d \<in> set [sample_a, sample_b].
         int (count_list (fst (run_selects [0, 0, 0] (WeightedRoundRobin
           (new_weighted_round_robin [''openai:gpt:'' \<mapsto> 2])) [sample_a, sample_b])) (Some d))
           = weight_for [''openai:gpt:'' \<mapsto> 2] (deployment_key d)
         \<and> running w' d = 0)"
  by (rule wrr_exact_period) (simp_all add: positive_weights_def weight_for_def total_weight_def)

text \<open>
  Two deployments with the same key share one running weight, so the later one can never have a
  strictly larger weight than the earlier one.
\<close>

lemma wrr_best_split:
  "wrr_best cur ds b (mget cur (deployment_key b) 0) = m \<Longrightarrow> m \<noteq> b \<Longrightarrow>
   \<exists>xs ys. ds = xs @ m # ys \<and> (\<forall>e \<in> insert b (set xs).
      mget cur (deployment_key e) 0 < mget cur (deployment_key m) 0)"
proof (induction ds arbitrary: b)
  case Nil
  then show ?case by simp
next
  case (Cons d ds)
  show ?case
  proof (cases "mget cur (deployment_key b) 0 < mget cur (deployment_key d) 0")
    case True
    show ?thesis
    proof (cases "m = d")
      case True
      with \<open>mget cur (deployment_key b) 0 < _\<close> show ?thesis
        by (intro exI [of _ "[]"] exI [of _ ds]) auto
    next
      case False
      obtain xs ys where "ds = xs @ m # ys"
        "\<forall>e \<in> insert d (set xs). mget cur (deployment_key e) 0 < mget cur (deployment_key m) 0"
        using Cons.IH [of d] Cons.prems(1) True False by (auto simp: Let_def)
      with True show ?thesis by (intro exI [of _ "d # xs"] exI [of _ ys]) auto
    qed
  next
    case False
    obtain xs ys where ds: "ds = xs @ m # ys"
      "\<forall>e \<in> insert b (set xs). mget cur (deployment_key e) 0 < mget cur (deployment_key m) 0"
      using Cons.IH [of b] Cons.prems False by (auto simp: Let_def)
    then have "mget cur (deployment_key d) 0 < mget cur (deployment_key m) 0" using False by auto
    with ds show ?thesis by (intro exI [of _ "d # xs"] exI [of _ ys]) auto
  qed
qed

lemma wrr_select_not_twin:
  assumes "ds = pre @ d2 # post" "d1 \<in> set pre" "deployment_key d1 = deployment_key d2"
    and "d2 \<notin> set pre" "d2 \<notin> set post"
  shows "fst (wrr_select w ds) \<noteq> Some d2"
proof
  assume sel: "fst (wrr_select w ds) = Some d2"
  from assms(2) obtain d pre' where pre: "pre = d # pre'" by (cases pre) auto
  let ?rest = "pre' @ d2 # post"
  obtain tot cur where a: "wrr_add (weights w) ds 0 (current_weight w) = (tot, cur)"
    by (cases "wrr_add (weights w) ds 0 (current_weight w)")
  have best: "wrr_best cur ?rest d (mget cur (deployment_key d) 0) = d2"
  proof -
    obtain e es where e: "?rest = e # es" by (cases ?rest) auto
    have "ds = d # e # es" using assms(1) e by (simp add: pre)
    with sel a show ?thesis by (simp add: wrr_select_def Let_def e)
  qed
  have "d2 \<noteq> d" using assms(4) by (auto simp: pre)
  then obtain xs ys where split: "?rest = xs @ d2 # ys"
    and lt: "\<forall>e \<in> insert d (set xs). mget cur (deployment_key e) 0 < mget cur (deployment_key d2) 0"
    using wrr_best_split [OF best] by auto
  have "xs = pre'"
  proof -
    have "d2 \<notin> set pre'" using assms(4) by (simp add: pre)
    with split assms(5) show ?thesis
      by (auto simp: append_eq_append_conv2 Cons_eq_append_conv append_eq_Cons_conv)
  qed
  with assms(2) lt have "mget cur (deployment_key d1) 0 < mget cur (deployment_key d2) 0"
    by (auto simp: pre)
  with assms(3) show False by simp
qed

text \<open>
  C29. A deployment listed after another one with the same deployment key (same provider, model
  and base URL, a different API key) is never selected by the weighted round robin, however many
  selections are made: its traffic all goes to the earlier twin.
\<close>
theorem wrr_twin_starves:
  assumes "ds = pre @ d2 # post" "d1 \<in> set pre" "deployment_key d1 = deployment_key d2"
    and "d2 \<notin> set pre" "d2 \<notin> set post"
  shows "Some d2 \<notin> set (fst (run_selects rs (WeightedRoundRobin w) ds))"
proof (induction rs arbitrary: w)
  case Nil
  then show ?case by simp
next
  case (Cons r rs)
  obtain b w1 where s: "wrr_select w ds = (b, w1)" by (cases "wrr_select w ds")
  then have "b \<noteq> Some d2" using wrr_select_not_twin [OF assms, of w] by simp
  with Cons.IH [of w1] s show ?case by (simp add: run_selects_Cons del: run_selects.simps)
qed

theorem wrr_twin_starves_witness:
  "Some sample_twin \<notin> set (fst (run_selects [0, 0, 0] (WeightedRoundRobin
     (new_weighted_round_robin Map.empty)) [sample_a, sample_b, sample_twin]))"
  by (rule wrr_twin_starves [of _ "[sample_a, sample_b]" sample_twin "[]" sample_a]) simp_all

end
