(* ===== verification/Health.thy ===== *)
theory Health
  imports Deployment
begin

text \<open>
  Deployment health: \<open>internal/router/backoff.go\<close> (429 answers, keyed by deployment key) and
  \<open>internal/router/cooldown.go\<close> (other failures, keyed by deployment pointer).

  Every call of \<open>time.Now()\<close> is an argument \<open>now\<close>; the number \<open>r\<close> of
  \<open>report_rate_limit\<close> is the raw value behind \<open>rand.Int63n\<close>. \<open>InCooldown\<close> takes two
  locks one after the other, so its two critical sections are also separate definitions, and
  the last section shows what can happen between them.

  The locale \<open>health_tracker\<close> is what the router needs from both managers.
\<close>

section \<open>The interface\<close>

locale health_tracker =
  fixes ident :: "'k \<Rightarrow> 'i"
    and blocked :: "'m \<Rightarrow> 'k \<Rightarrow> time \<Rightarrow> bool"
    and clear :: "'m \<Rightarrow> 'k \<Rightarrow> 'm"
    and fail :: "'m \<Rightarrow> 'k \<Rightarrow> 'e \<Rightarrow> time \<Rightarrow> 'm"
  assumes blocked_ident: "ident k = ident k' \<Longrightarrow> blocked m k t = blocked m k' t"
    and blocked_clear: "\<not> blocked (clear m k) k t"
    and clear_frame: "ident k' \<noteq> ident k \<Longrightarrow> blocked (clear m k) k' t = blocked m k' t"
    and fail_frame: "ident k' \<noteq> ident k \<Longrightarrow> blocked (fail m k e t0) k' t = blocked m k' t"
begin

lemma clear_other: "\<not> blocked m k' t \<Longrightarrow> \<not> blocked (clear m k) k' t"
  using blocked_ident [of k' k "clear m k" t] blocked_clear [of m k t] clear_frame [of k' k m t]
  by (cases "ident k' = ident k") auto

text \<open>Clearing several keys unblocks each of them, whatever the order.\<close>

lemma clear_all_unblocks: "k \<in> set ks \<or> \<not> blocked m k t \<Longrightarrow> \<not> blocked (fold (\<lambda>k m. clear m k) ks m) k t"
proof (induction ks arbitrary: m)
  case Nil
  then show ?case by simp
next
  case (Cons a ks)
  then have "k \<in> set ks \<or> \<not> blocked (clear m a) k t"
    using clear_other blocked_clear by auto
  with Cons.IH show ?case by simp
qed

lemma others_unaffected:
  "ident k \<notin> ident ` set ks \<Longrightarrow>
   blocked (fold (\<lambda>(k, e, t0) m. fail m k e t0) (zip ks es) m) k t = blocked m k t"
proof (induction ks arbitrary: es m)
  case Nil
  then show ?case by simp
next
  case (Cons a ks)
  then show ?case by (cases es) (auto simp: fail_frame split: prod.splits)
qed

end

section \<open>Rate-limit backoff\<close>

record backoff_state =
  attempts :: nat
  next_retry_at :: time

type_synonym backoff_manager = "string \<rightharpoonup> backoff_state"

definition backoff_base_delay :: duration where
  "backoff_base_delay = 1 * second"

definition backoff_max_delay :: duration where
  "backoff_max_delay = 60 * second"

definition new_backoff_manager :: backoff_manager where
  "new_backoff_manager = Map.empty"

definition in_backoff :: "backoff_manager \<Rightarrow> string \<Rightarrow> time \<Rightarrow> bool" where
  "in_backoff b key now = (case b key of None \<Rightarrow> False | Some s \<Rightarrow> now < next_retry_at s)"

text \<open>
  \<open>cap := backoffBaseDelay * (1 << attempts)\<close> in 64-bit arithmetic, replaced by the maximum
  when it is too large or has overflowed to a value that is not positive.
\<close>

definition backoff_cap :: "nat \<Rightarrow> duration" where
  "backoff_cap n =
     (let cap = wrap64 (backoff_base_delay * wrap64 (2 ^ n))
      in if backoff_max_delay < cap \<or> cap \<le> 0 then backoff_max_delay else cap)"

definition backoff_delay :: "nat \<Rightarrow> duration \<Rightarrow> nat \<Rightarrow> duration" where
  "backoff_delay n retry_after r =
     (if 0 < retry_after then retry_after else int r mod backoff_cap n)"

definition report_rate_limit ::
  "backoff_manager \<Rightarrow> string \<Rightarrow> duration \<Rightarrow> nat \<Rightarrow> time \<Rightarrow> backoff_manager" where
  "report_rate_limit b key retry_after r now =
     (let n = Suc (case b key of None \<Rightarrow> 0 | Some s \<Rightarrow> attempts s)
      in b(key \<mapsto> \<lparr>attempts = n, next_retry_at = now + backoff_delay n retry_after r\<rparr>))"

definition backoff_reset :: "backoff_manager \<Rightarrow> string \<Rightarrow> backoff_manager" where
  "backoff_reset b key = b(key := None)"

definition backoff_get_state :: "backoff_manager \<Rightarrow> string \<Rightarrow> backoff_state" where
  "backoff_get_state b key =
     (case b key of Some s \<Rightarrow> s | None \<Rightarrow> \<lparr>attempts = 0, next_retry_at = 0\<rparr>)"

definition backoff_retry_after :: "backoff_manager \<Rightarrow> string \<Rightarrow> time \<Rightarrow> duration" where
  "backoff_retry_after b key now =
     (case b key of
        Some s \<Rightarrow> (let wait = next_retry_at s - now in if 0 < wait then wait else 0)
      | None \<Rightarrow> 0)"

interpretation backoff: health_tracker "\<lambda>k. k" in_backoff backoff_reset
    "\<lambda>b k (e :: duration \<times> nat) now. report_rate_limit b k (fst e) (snd e) now"
  by unfold_locales (auto simp: in_backoff_def backoff_reset_def report_rate_limit_def Let_def)

lemma backoff_retry_after_pos: "0 < backoff_retry_after b key now \<longleftrightarrow> in_backoff b key now"
  by (simp add: backoff_retry_after_def in_backoff_def Let_def split: option.splits)

lemma backoff_retry_after_nonneg [simp]: "0 \<le> backoff_retry_after b key now"
  by (simp add: backoff_retry_after_def Let_def split: option.splits)

subsection \<open>The exponential cap does not overflow\<close>

lemma dvd_wrap64: "k dvd (2::int) ^ 64 \<Longrightarrow> k dvd 2 ^ 63 \<Longrightarrow> k dvd i \<Longrightarrow> k dvd wrap64 i"
  by (simp add: wrap64_def dvd_mod dvd_diff)

lemma wrap64_mult_wrap64: "wrap64 (a * wrap64 b) = wrap64 (a * b)"
proof -
  have "\<exists>q. wrap64 b = b + q * 2 ^ 64"
    by (rule exI [of _ "- ((b + 2 ^ 63) div 2 ^ 64)"])
      (simp add: wrap64_def minus_div_mult_eq_mod [symmetric])
  then obtain q where "wrap64 b = b + q * 2 ^ 64" ..
  then have "a * wrap64 b + 2 ^ 63 = (a * b + 2 ^ 63) + (a * q) * 2 ^ 64"
    by (simp add: algebra_simps)
  then show ?thesis by (simp only: wrap64_def mod_mult_self1)
qed

lemma backoff_cap_large:
  assumes "34 \<le> n"
  shows "backoff_cap n = backoff_max_delay"
proof -
  let ?c = "wrap64 (backoff_base_delay * 2 ^ n)"
  have "(2::int) ^ 34 dvd 2 ^ n" using assms by (rule le_imp_power_dvd)
  moreover have "(2::int) ^ 9 dvd backoff_base_delay"
    by (simp add: backoff_base_delay_def second_def)
  ultimately have "(2::int) ^ 9 * 2 ^ 34 dvd backoff_base_delay * 2 ^ n" by (intro mult_dvd_mono)
  then have "(2::int) ^ 43 dvd ?c" by (intro dvd_wrap64) simp_all
  then have "?c \<le> 0 \<or> 2 ^ 43 \<le> ?c" using zdvd_imp_le by fastforce
  then show ?thesis
    by (auto simp: backoff_cap_def Let_def wrap64_mult_wrap64 backoff_max_delay_def second_def)
qed

lemma backoff_cap_small:
  assumes "n < 34"
  shows "backoff_cap n = min backoff_max_delay (backoff_base_delay * 2 ^ n)"
proof -
  have "(2::int) ^ n \<le> 2 ^ 33" using assms by (intro power_increasing) simp_all
  moreover have "(1::int) \<le> 2 ^ n" by simp
  ultimately have "wrap64 (backoff_base_delay * 2 ^ n) = backoff_base_delay * 2 ^ n"
    by (intro wrap64_small) (simp_all add: backoff_base_delay_def second_def)
  then show ?thesis
    by (simp add: backoff_cap_def Let_def wrap64_mult_wrap64 min_def backoff_base_delay_def second_def)
qed

lemma backoff_cap_eq: "backoff_cap n = min backoff_max_delay (backoff_base_delay * 2 ^ n)"
proof (cases "n < 34")
  case True
  then show ?thesis by (rule backoff_cap_small)
next
  case False
  then have "34 \<le> n" by simp
  then have "(2::int) ^ 34 \<le> 2 ^ n" by (intro power_increasing) simp_all
  then have "backoff_max_delay \<le> backoff_base_delay * 2 ^ n"
    by (simp add: backoff_max_delay_def backoff_base_delay_def second_def)
  with backoff_cap_large [OF \<open>34 \<le> n\<close>] show ?thesis by (simp add: min_def)
qed

lemma backoff_cap_bounds: "0 < backoff_cap n" "backoff_cap n \<le> backoff_max_delay"
  by (simp_all add: backoff_cap_eq backoff_base_delay_def backoff_max_delay_def)

lemma backoff_delay_bounds:
  "retry_after \<le> 0 \<Longrightarrow> 0 \<le> backoff_delay n retry_after r"
  "retry_after \<le> 0 \<Longrightarrow> backoff_delay n retry_after r < backoff_cap n"
  using backoff_cap_bounds(1) [of n] by (simp_all add: backoff_delay_def)

lemma backoff_cap_no_overflow': "backoff_cap n = min (60 * second) (second * 2 ^ n)"
  by (simp add: backoff_cap_eq backoff_base_delay_def backoff_max_delay_def)

subsection \<open>Properties of the backoff\<close>

text \<open>
  The backoff cap is the smaller of 60 seconds and one second doubled per attempt, for every
  number of attempts: the 64-bit product \<open>base * (1 << attempts)\<close> may overflow from the 34th
  attempt on, and never to a value that escapes the clamp.
\<close>
theorem backoff_cap_no_overflow:
  "backoff_cap n = min (60 * second) (second * 2 ^ n)
   \<and> 0 < backoff_cap n \<and> backoff_cap n \<le> 60 * second"
  using backoff_cap_bounds [of n]
  by (simp add: backoff_cap_eq backoff_base_delay_def backoff_max_delay_def)


section \<open>Cooldown\<close>

text \<open>The maps are keyed by the deployment's address.\<close>

record cooldown_manager =
  failures :: "nat \<rightharpoonup> int"
  cooldowns :: "nat \<rightharpoonup> time"
  cooldown_time :: duration
  allowed_fails :: int

definition new_cooldown_manager :: "duration \<Rightarrow> int \<Rightarrow> cooldown_manager" where
  "new_cooldown_manager ct af =
     \<lparr>failures = Map.empty, cooldowns = Map.empty, cooldown_time = ct, allowed_fails = af\<rparr>"

text \<open>
  \<open>InCooldown\<close>: the first critical section (read lock) reads the entry; if the entry has
  expired, a second one (write lock) removes it and resets the failure count.
\<close>

datatype cooldown_read = NoEntry | Expired | Cooling

definition in_cooldown_read :: "cooldown_manager \<Rightarrow> deployment \<Rightarrow> time \<Rightarrow> cooldown_read" where
  "in_cooldown_read c d now =
     (case cooldowns c (dep_id d) of
        None \<Rightarrow> NoEntry
      | Some until \<Rightarrow> if until < now then Expired else Cooling)"

definition in_cooldown_expire :: "cooldown_manager \<Rightarrow> deployment \<Rightarrow> cooldown_manager" where
  "in_cooldown_expire c d =
     c\<lparr>cooldowns := (cooldowns c)(dep_id d := None), failures := (failures c)(dep_id d \<mapsto> 0)\<rparr>"

definition in_cooldown :: "cooldown_manager \<Rightarrow> deployment \<Rightarrow> time \<Rightarrow> bool \<times> cooldown_manager" where
  "in_cooldown c d now =
     (case in_cooldown_read c d now of
        NoEntry \<Rightarrow> (False, c)
      | Expired \<Rightarrow> (False, in_cooldown_expire c d)
      | Cooling \<Rightarrow> (True, c))"

definition cooldown_success :: "cooldown_manager \<Rightarrow> deployment \<Rightarrow> cooldown_manager" where
  "cooldown_success c d =
     c\<lparr>failures := (failures c)(dep_id d \<mapsto> 0), cooldowns := (cooldowns c)(dep_id d := None)\<rparr>"

definition cooldown_failure :: "cooldown_manager \<Rightarrow> deployment \<Rightarrow> time \<Rightarrow> cooldown_manager" where
  "cooldown_failure c d now =
     (let n = mget (failures c) (dep_id d) 0 + 1;
          c1 = c\<lparr>failures := (failures c)(dep_id d \<mapsto> n)\<rparr>
      in if allowed_fails c \<le> n
         then c1\<lparr>cooldowns := (cooldowns c)(dep_id d \<mapsto> now + cooldown_time c)\<rparr> else c1)"

record deployment_status =
  failure_count :: int
  status_in_cooldown :: bool
  cooldown_until :: time

definition cooldown_status :: "cooldown_manager \<Rightarrow> deployment \<Rightarrow> time \<Rightarrow> deployment_status" where
  "cooldown_status c d now =
     \<lparr>failure_count = mget (failures c) (dep_id d) 0,
      status_in_cooldown = (case cooldowns c (dep_id d) of None \<Rightarrow> False | Some until \<Rightarrow> now < until),
      cooldown_until = mget (cooldowns c) (dep_id d) 0\<rparr>"

definition cooling :: "cooldown_manager \<Rightarrow> nat \<Rightarrow> time \<Rightarrow> bool" where
  "cooling c i now = (case cooldowns c i of None \<Rightarrow> False | Some until \<Rightarrow> now \<le> until)"

lemma in_cooldown_iff: "fst (in_cooldown c d now) = cooling c (dep_id d) now"
  by (auto simp: in_cooldown_def in_cooldown_read_def cooling_def split: option.splits)

lemma in_cooldown_monitor:
  "cooling (snd (in_cooldown c d now)) i t = cooling c i t" if "now \<le> t"
  using that
  by (auto simp: in_cooldown_def in_cooldown_read_def in_cooldown_expire_def cooling_def split: option.splits)

interpretation cooldown: health_tracker dep_id "\<lambda>c d t. cooling c (dep_id d) t" cooldown_success
    "\<lambda>c d (e :: unit) now. cooldown_failure c d now"
  by unfold_locales (auto simp: cooling_def cooldown_success_def cooldown_failure_def Let_def)

subsection \<open>Properties of the cooldown\<close>

fun report_failures :: "cooldown_manager \<Rightarrow> deployment \<Rightarrow> time list \<Rightarrow> cooldown_manager" where
  "report_failures c d [] = c"
| "report_failures c d (t # ts) = report_failures (cooldown_failure c d t) d ts"

lemma report_failures_snoc:
  "report_failures c d (ts @ [t]) = cooldown_failure (report_failures c d ts) d t"
  by (induction ts arbitrary: c) simp_all

lemma report_failures_config:
  "allowed_fails (report_failures c d ts) = allowed_fails c"
  "cooldown_time (report_failures c d ts) = cooldown_time c"
  by (induction ts arbitrary: c) (simp_all add: cooldown_failure_def Let_def)

lemma report_failures_count:
  "mget (failures (report_failures c d ts)) (dep_id d) 0 = mget (failures c) (dep_id d) 0 + int (length ts)"
  by (induction ts arbitrary: c) (simp_all add: cooldown_failure_def Let_def)

text \<open>
  C24. A deployment enters cooldown exactly when the failures reported since its last success have
  reached \<open>allowed_fails\<close>, and stays in it until \<open>cooldown_time\<close> after the latest of them. No
  failure, or fewer than allowed, means no cooldown.
\<close>
theorem cooldown_exactly_after_allowed_fails:
  "fst (in_cooldown (report_failures (cooldown_success c d) d ts) d now)
   \<longleftrightarrow> ts \<noteq> [] \<and> allowed_fails c \<le> int (length ts) \<and> now \<le> last ts + cooldown_time c"
proof (induction ts rule: rev_induct)
  case Nil
  then show ?case by (simp add: in_cooldown_iff cooling_def cooldown_success_def)
next
  case (snoc t ts)
  let ?s = "cooldown_success c d" and ?c = "report_failures (cooldown_success c d) d ts"
  have base: "mget (failures ?s) (dep_id d) 0 = 0" "allowed_fails ?s = allowed_fails c"
    "cooldown_time ?s = cooldown_time c"
    by (simp_all add: cooldown_success_def)
  have n: "mget (failures ?c) (dep_id d) 0 + 1 = int (length (ts @ [t]))"
    by (simp add: report_failures_count base)
  show ?case
  proof (cases "allowed_fails c \<le> int (length (ts @ [t]))")
    case True
    then show ?thesis
      using n by (simp add: report_failures_snoc in_cooldown_iff cooling_def cooldown_failure_def Let_def
          report_failures_config base)
  next
    case False
    then have "\<not> cooling ?c (dep_id d) now"
      using snoc.IH by (simp add: in_cooldown_iff)
    with False n show ?thesis
      by (simp add: report_failures_snoc in_cooldown_iff cooling_def cooldown_failure_def Let_def
          report_failures_config base)
  qed
qed

text \<open>
  The health endpoint's \<open>GetStatus\<close> and the router's \<open>InCooldown\<close> agree on whether a
  deployment cools down, except at the very instant the cooldown ends, when the router still
  skips the deployment and the endpoint already reports it healthy.
\<close>
theorem cooldown_status_agrees:
  "status_in_cooldown (cooldown_status c d now)
   \<longleftrightarrow> fst (in_cooldown c d now) \<and> cooldowns c (dep_id d) \<noteq> Some now"
  by (auto simp: cooldown_status_def in_cooldown_iff cooling_def split: option.splits)

text \<open>
  \<open>InCooldown\<close> reads the expired entry under one lock and deletes it under another: a failure
  reported in between starts a new cooldown that the deletion then erases, together with the
  failure count. Run one after the other, in this order, the same two calls leave the deployment
  in cooldown until the new deadline.
\<close>
theorem cooldown_expiry_race:
  assumes "in_cooldown_read c d now = Expired"
    and "allowed_fails c \<le> mget (failures c) (dep_id d) 0 + 1"
    and "now \<le> t + cooldown_time c"
  shows "(\<forall>u. \<not> fst (in_cooldown (in_cooldown_expire (cooldown_failure c d t) d) d u))
    \<and> failure_count (cooldown_status (in_cooldown_expire (cooldown_failure c d t) d) d t) = 0
    \<and> fst (in_cooldown (snd (in_cooldown (cooldown_failure c d t) d now)) d (t + cooldown_time c))"
proof (intro conjI allI)
  fix u
  show "\<not> fst (in_cooldown (in_cooldown_expire (cooldown_failure c d t) d) d u)"
    by (simp add: in_cooldown_iff cooling_def in_cooldown_expire_def)
next
  show "failure_count (cooldown_status (in_cooldown_expire (cooldown_failure c d t) d) d t) = 0"
    by (simp add: cooldown_status_def in_cooldown_expire_def)
next
  have "cooldowns (cooldown_failure c d t) (dep_id d) = Some (t + cooldown_time c)"
    using assms(2) by (simp add: cooldown_failure_def Let_def)
  with assms(3) show "fst (in_cooldown (snd (in_cooldown (cooldown_failure c d t) d now)) d (t + cooldown_time c))"
    by (simp add: in_cooldown_def in_cooldown_read_def)
qed

theorem cooldown_expiry_race_witness:
  "let c = \<lparr>failures = [0 \<mapsto> 1], cooldowns = [0 \<mapsto> 5], cooldown_time = 30, allowed_fails = 1\<rparr>
   in in_cooldown_read c sample_a 6 = Expired
      \<and> (\<forall>u. \<not> fst (in_cooldown (in_cooldown_expire (cooldown_failure c sample_a 7) sample_a) sample_a u))
      \<and> failure_count (cooldown_status (in_cooldown_expire (cooldown_failure c sample_a 7) sample_a) sample_a 7) = 0
      \<and> fst (in_cooldown (snd (in_cooldown (cooldown_failure c sample_a 7) sample_a 6)) sample_a (7 + cooldown_time c))"
  unfolding Let_def
proof (rule conjI)
  let ?c = "\<lparr>failures = [0 \<mapsto> 1], cooldowns = [0 \<mapsto> 5], cooldown_time = 30, allowed_fails = 1\<rparr>"
  show e: "in_cooldown_read ?c sample_a 6 = Expired" by (simp add: in_cooldown_read_def)
  show "(\<forall>u. \<not> fst (in_cooldown (in_cooldown_expire (cooldown_failure ?c sample_a 7) sample_a) sample_a u))
      \<and> failure_count (cooldown_status (in_cooldown_expire (cooldown_failure ?c sample_a 7) sample_a) sample_a 7) = 0
      \<and> fst (in_cooldown (snd (in_cooldown (cooldown_failure ?c sample_a 7) sample_a 6)) sample_a (7 + cooldown_time ?c))"
    by (rule cooldown_expiry_race [OF e]) simp_all
qed

end
