(* ===== verification/Capacity.thy ===== *)
theory Capacity
  imports Deployment
begin

text \<open>
  Requests-per-minute and tokens-per-minute admission of a deployment
  (\<open>internal/router/capacity.go\<close>) and the estimate it admits on
  (\<open>internal/model/estimate.go\<close>).

  Token counts are 64-bit integers; the two additions that can meet a client-chosen
  \<open>max_tokens\<close> are written with \<open>wrap64\<close>. A reservation is a record with the \<open>sync.Once\<close>
  of the code as the flag \<open>res_done\<close>.
\<close>

section \<open>Usage and estimates\<close>

record usage =
  prompt_tokens :: int
  completion_tokens :: int
  total_tokens :: int
  cache_read_tokens :: int
  cache_write_tokens :: int
  original_usage :: "json option"

definition empty_usage :: usage where
  "empty_usage = \<lparr>prompt_tokens = 0, completion_tokens = 0, total_tokens = 0,
     cache_read_tokens = 0, cache_write_tokens = 0, original_usage = None\<rparr>"

text \<open>
  \<open>EstimatedTokens\<close> of a chat request: \<open>data_len\<close> is the length of the JSON of its messages
  and tools, the two options are \<open>max_completion_tokens\<close> and \<open>max_tokens\<close>.
\<close>

definition chat_estimated_tokens :: "int \<Rightarrow> int option \<Rightarrow> int option \<Rightarrow> int" where
  "chat_estimated_tokens data_len max_completion max_tokens =
     (let out = (case max_completion of Some m \<Rightarrow> m
                 | None \<Rightarrow> (case max_tokens of Some m \<Rightarrow> m | None \<Rightarrow> 4096));
          out' = (if out < 0 then 0 else out)
      in wrap64 (data_len + out'))"

definition embeddings_estimated_tokens :: "int \<Rightarrow> int" where
  "embeddings_estimated_tokens data_len = data_len"

section \<open>The limiter\<close>

record capacity_window =
  win_start :: time
  win_requests :: int
  win_tokens :: int

type_synonym capacity_limiter = "string \<rightharpoonup> capacity_window"

record capacity_reservation =
  res_key :: string
  res_start :: time
  res_tokens :: int
  res_done :: bool

definition capacity_key :: "golib \<Rightarrow> deployment \<Rightarrow> string" where
  "capacity_key lib d = deployment_key d @ '':'' @ sha256_hex lib (api_key d)"

definition current_window :: "capacity_limiter \<Rightarrow> string \<Rightarrow> time \<Rightarrow> capacity_window" where
  "current_window l key now =
     (case l key of
        None \<Rightarrow> \<lparr>win_start = now, win_requests = 0, win_tokens = 0\<rparr>
      | Some w \<Rightarrow> if minute \<le> now - win_start w
                  then \<lparr>win_start = now, win_requests = 0, win_tokens = 0\<rparr> else w)"

definition reserve ::
  "golib \<Rightarrow> capacity_limiter \<Rightarrow> deployment \<Rightarrow> int \<Rightarrow> time
   \<Rightarrow> (goerror + capacity_reservation option) \<times> capacity_limiter" where
  "reserve lib l d tokens now =
     (if rpm d \<le> 0 \<and> tpm d \<le> 0 then (Inr None, l)
      else
        let tokens = (if tokens < 1 then 1 else tokens);
            key = capacity_key lib d;
            w = current_window l key now
        in if (0 < rpm d \<and> rpm d \<le> win_requests w)
              \<or> (0 < tpm d \<and> tpm d < wrap64 (win_tokens w + tokens))
           then (Inl (RateLimitError True (provider_name d) (minute - (now - win_start w)) []),
                 l(key \<mapsto> w))
           else
             let w' = w\<lparr>win_requests := win_requests w + 1,
                        win_tokens := (if 0 < tpm d then wrap64 (win_tokens w + tokens) else win_tokens w)\<rparr>
             in (Inr (Some \<lparr>res_key = key, res_start = win_start w,
                            res_tokens = (if 0 < tpm d then tokens else 0), res_done = False\<rparr>),
                 l(key \<mapsto> w')))"

definition actual_tokens :: "usage \<Rightarrow> int" where
  "actual_tokens u =
     (if total_tokens u = 0 then wrap64 (prompt_tokens u + completion_tokens u) else total_tokens u)"

text \<open>\<open>finish\<close> on a nil reservation does nothing; on the same reservation it acts once.\<close>

definition finish ::
  "capacity_limiter \<Rightarrow> capacity_reservation option \<Rightarrow> usage option
   \<Rightarrow> capacity_reservation option \<times> capacity_limiter" where
  "finish l res u =
     (case res of
        None \<Rightarrow> (None, l)
      | Some r \<Rightarrow>
          if res_done r then (Some r, l)
          else
            let r' = r\<lparr>res_done := True\<rparr>
            in case u of
                 None \<Rightarrow> (Some r', l)
               | Some us \<Rightarrow>
                   if res_tokens r = 0 then (Some r', l)
                   else (case l (res_key r) of
                      None \<Rightarrow> (Some r', l)
                    | Some w \<Rightarrow>
                        if win_start w = res_start r
                        then (Some r', l(res_key r \<mapsto>
                                w\<lparr>win_tokens := wrap64 (win_tokens w + (actual_tokens us - res_tokens r))\<rparr>))
                        else (Some r', l)))"

section \<open>Streams that reconcile at their end\<close>

text \<open>
  A provider stream is the list of the results its \<open>Recv\<close> calls will give: a chunk (its choices, its
  usage when it carries one, and the rest as \<open>chunk_data\<close>) and an error, which is \<open>EOF\<close> at the end. Reading past the list is
  \<open>EOF\<close> again.
\<close>

datatype recv_error = EOF | RecvError goerror

record tool_call =
  tc_index :: "int option"
  tc_id :: string
  tc_name :: string
  tc_args :: string

record stream_delta =
  sd_content :: string
  sd_tools :: "tool_call list"

record stream_choice =
  sc_index :: int
  sc_finish :: string
  sc_stop :: "string option"
  sc_delta :: "stream_delta option"

record stream_chunk =
  chunk_data :: string
  chunk_choices :: "stream_choice list"
  chunk_usage :: "usage option"

type_synonym recv_result = "stream_chunk option \<times> recv_error option"
type_synonym provider_stream = "recv_result list"

fun stream_recv :: "provider_stream \<Rightarrow> recv_result \<times> provider_stream" where
  "stream_recv [] = ((None, Some EOF), [])"
| "stream_recv (x # xs) = (x, xs)"

record capacity_stream =
  cs_stream :: provider_stream
  cs_reservation :: "capacity_reservation option"
  cs_usage :: "usage option"

definition capacity_stream_recv ::
  "capacity_limiter \<Rightarrow> capacity_stream \<Rightarrow> recv_result \<times> capacity_stream \<times> capacity_limiter" where
  "capacity_stream_recv l s =
     (let ((chunk, err), rest) = stream_recv (cs_stream s);
          u = (case chunk of None \<Rightarrow> cs_usage s
               | Some c \<Rightarrow> (case chunk_usage c of None \<Rightarrow> cs_usage s | Some us \<Rightarrow> Some us));
          s' = s\<lparr>cs_stream := rest, cs_usage := u\<rparr>
      in if err = Some EOF
         then (let (r, l') = finish l (cs_reservation s) u
               in ((chunk, err), s'\<lparr>cs_reservation := r\<rparr>, l'))
         else ((chunk, err), s', l))"

definition capacity_stream_close :: "capacity_limiter \<Rightarrow> capacity_stream \<Rightarrow> capacity_stream \<times> capacity_limiter" where
  "capacity_stream_close l s =
     (let (r, l') = finish l (cs_reservation s) (cs_usage s)
      in (s\<lparr>cs_reservation := r\<rparr>, l'))"

section \<open>Lemmas\<close>

lemma current_window_fresh:
  "win_requests (current_window l key now) = 0 \<or> l key = Some (current_window l key now)"
  by (simp add: current_window_def split: option.splits)

lemma current_window_age:
  "(\<And>w. l key = Some w \<Longrightarrow> win_start w \<le> now) \<Longrightarrow>
   0 \<le> now - win_start (current_window l key now)
   \<and> now - win_start (current_window l key now) < minute"
  by (auto simp: current_window_def split: option.splits)

lemma finish_done:
  "finish l res u = (res', l') \<Longrightarrow> finish l' res' v = (res', l')"
  by (auto simp: finish_def Let_def split: option.splits if_splits)

lemma finish_other: "finish l (Some r) u = (res', l') \<Longrightarrow> k \<noteq> res_key r \<Longrightarrow> l' k = l k"
  by (auto simp: finish_def Let_def split: option.splits if_splits)

lemma finish_requests:
  "finish l res u = (res', l') \<Longrightarrow> map_option win_requests (l' k) = map_option win_requests (l k)"
  by (auto simp: finish_def Let_def split: option.splits if_splits)

lemma reserve_admitted:
  assumes "reserve lib l d tokens now = (Inr (Some r), l')"
    and "w = current_window l (capacity_key lib d) now" and "t = max 1 tokens"
  shows "r = \<lparr>res_key = capacity_key lib d, res_start = win_start w,
            res_tokens = (if 0 < tpm d then t else 0), res_done = False\<rparr>"
    and "l' = l(capacity_key lib d \<mapsto> w\<lparr>win_requests := win_requests w + 1,
            win_tokens := (if 0 < tpm d then wrap64 (win_tokens w + t) else win_tokens w)\<rparr>)"
    and "rpm d \<le> 0 \<or> win_requests w < rpm d"
    and "tpm d \<le> 0 \<or> wrap64 (win_tokens w + t) \<le> tpm d"
proof -
  have t: "(if tokens < 1 then 1 else tokens) = t" by (simp add: assms(3) max_def)
  from assms(1) show "r = \<lparr>res_key = capacity_key lib d, res_start = win_start w,
            res_tokens = (if 0 < tpm d then t else 0), res_done = False\<rparr>"
    and "l' = l(capacity_key lib d \<mapsto> w\<lparr>win_requests := win_requests w + 1,
            win_tokens := (if 0 < tpm d then wrap64 (win_tokens w + t) else win_tokens w)\<rparr>)"
    and "rpm d \<le> 0 \<or> win_requests w < rpm d"
    and "tpm d \<le> 0 \<or> wrap64 (win_tokens w + t) \<le> tpm d"
    unfolding reserve_def t assms(2) [symmetric] Let_def
    by (auto split: if_splits)
qed

section \<open>Sequences of admissions\<close>

fun reserve_run ::
  "golib \<Rightarrow> capacity_limiter \<Rightarrow> deployment \<Rightarrow> (int \<times> time) list \<Rightarrow> bool list \<times> capacity_limiter" where
  "reserve_run lib l d [] = ([], l)"
| "reserve_run lib l d ((tokens, now) # calls) =
     (let (x, l1) = reserve lib l d tokens now;
          (oks, l2) = reserve_run lib l1 d calls
      in ((case x of Inl _ \<Rightarrow> False | Inr _ \<Rightarrow> True) # oks, l2))"

lemma reserve_run_Cons:
  "fst (reserve_run lib l d ((n, t) # calls))
     = (case fst (reserve lib l d n t) of Inl _ \<Rightarrow> False | Inr _ \<Rightarrow> True)
       # fst (reserve_run lib (snd (reserve lib l d n t)) d calls)"
  by (simp split: prod.splits)

text \<open>A requests-only deployment inside one window: admitted while the count is below the limit.\<close>

lemma reserve_rpm_step:
  assumes "0 < rpm d" "tpm d \<le> 0"
    and "l (capacity_key lib d) = Some w" "now - win_start w < minute"
  shows "reserve lib l d tokens now
    = (if rpm d \<le> win_requests w
       then (Inl (RateLimitError True (provider_name d) (minute - (now - win_start w)) []), l)
       else (Inr (Some \<lparr>res_key = capacity_key lib d, res_start = win_start w, res_tokens = 0, res_done = False\<rparr>),
             l(capacity_key lib d \<mapsto> w\<lparr>win_requests := win_requests w + 1\<rparr>)))"
proof -
  have w: "current_window l (capacity_key lib d) now = w"
    using assms(3,4) by (simp add: current_window_def)
  have "l(capacity_key lib d \<mapsto> w) = l" using assms(3) by (rule fun_upd_idem)
  with assms(1,2) w show ?thesis by (simp add: reserve_def Let_def)
qed

lemma reserve_run_rpm:
  assumes "0 < rpm d" "tpm d \<le> 0"
    and "l (capacity_key lib d) = Some w"
    and "\<forall>(tokens, now) \<in> set calls. now - win_start w < minute"
  shows "fst (reserve_run lib l d calls) = map (\<lambda>i. win_requests w + int i < rpm d) [0..<length calls]"
  using assms(3,4)
proof (induction calls arbitrary: l w)
  case Nil
  then show ?case by simp
next
  case (Cons c calls)
  obtain tokens now where c: "c = (tokens, now)" by (cases c)
  have upt: "[0..<length (c # calls)] = 0 # map Suc [0..<length calls]"
    by (simp add: map_Suc_upt upt_conv_Cons del: upt_Suc)
  have win: "now - win_start w < minute"
    "\<forall>(tokens, now) \<in> set calls. now - win_start w < minute"
    using Cons.prems(2) by (auto simp: c)
  note step = reserve_rpm_step [where l = l and lib = lib and tokens = tokens, OF assms(1,2) Cons.prems(1) win(1)]
  show ?case
  proof (cases "rpm d \<le> win_requests w")
    case True
    with Cons.IH [where l = l and w = w, OF Cons.prems(1) win(2)] step show ?thesis
      unfolding upt by (simp add: c reserve_run_Cons o_def del: reserve_run.simps)
  next
    case False
    let ?w1 = "w\<lparr>win_requests := win_requests w + 1\<rparr>"
    have "fst (reserve_run lib (l(capacity_key lib d \<mapsto> ?w1)) d calls)
        = map (\<lambda>i. win_requests ?w1 + int i < rpm d) [0..<length calls]"
      using win(2) by (intro Cons.IH) simp_all
    with False step show ?thesis
      unfolding upt by (simp add: c reserve_run_Cons o_def algebra_simps del: reserve_run.simps)
  qed
qed

lemma reserve_fresh_rpm:
  assumes "0 < rpm d" "tpm d \<le> 0" "l (capacity_key lib d) = None"
  shows "reserve lib l d tokens now
    = (Inr (Some \<lparr>res_key = capacity_key lib d, res_start = now, res_tokens = 0, res_done = False\<rparr>),
       l(capacity_key lib d \<mapsto> \<lparr>win_start = now, win_requests = 1, win_tokens = 0\<rparr>))"
  using assms by (simp add: reserve_def current_window_def Let_def)

section \<open>Properties\<close>

text \<open>
  A deployment limited to \<open>rpm\<close> requests admits exactly the first \<open>rpm\<close> calls of a
  minute window and rejects every later one, whatever the token estimates: the \<open>i\<close>-th call of
  the window is admitted iff \<open>i < rpm\<close>.
\<close>
theorem rpm_limit_exact:
  assumes "0 < rpm d" "tpm d \<le> 0"
    and "l (capacity_key lib d) = None"
    and "\<forall>(tokens, now) \<in> set calls. now - t0 < minute"
  shows "fst (reserve_run lib l d ((n0, t0) # calls))
    = map (\<lambda>i. int i < rpm d) [0..<Suc (length calls)]"
proof -
  let ?w = "\<lparr>win_start = t0, win_requests = 1, win_tokens = 0\<rparr>"
  have "fst (reserve_run lib (l(capacity_key lib d \<mapsto> ?w)) d calls)
      = map (\<lambda>i. win_requests ?w + int i < rpm d) [0..<length calls]"
    using assms by (intro reserve_run_rpm) simp_all
  moreover have "[0..<Suc (length calls)] = 0 # map Suc [0..<length calls]"
    by (simp add: map_Suc_upt upt_conv_Cons del: upt_Suc)
  ultimately show ?thesis
    using assms(1) by (simp add: reserve_fresh_rpm [where l = l and lib = lib, OF assms(1-3)] o_def reserve_run_Cons
        del: upt_Suc reserve_run.simps)
qed

definition sample_limited :: deployment where
  "sample_limited = sample_a\<lparr>rpm := 1\<rparr>"

definition sample_token_limited :: deployment where
  "sample_token_limited = sample_a\<lparr>tpm := 1000\<rparr>"

definition sample_lib :: golib where
  "sample_lib = \<lparr>unmarshal = (\<lambda>_. None), parse_time = (\<lambda>_. None), duration_string = (\<lambda>_. []),
     itoa = (\<lambda>_. []), sha256_hex = (\<lambda>s. s)\<rparr>"

theorem rpm_limit_exact_witness:
  "fst (reserve_run sample_lib Map.empty sample_limited ((1, 0) # [(1, 5), (1, 7)]))
    = map (\<lambda>i. int i < rpm sample_limited) [0..<Suc (length [(1::int, 5::time), (1, 7)])]"
  by (rule rpm_limit_exact) (simp_all add: sample_limited_def sample_defs minute_def)

text \<open>
  C21. An admitted request never takes its window past either limit of the deployment: afterwards
  the window holds at most \<open>rpm\<close> requests and at most \<open>tpm\<close> tokens, the estimate included,
  as long as the token sum stays in the 64-bit range.
\<close>
theorem reserve_within_limits:
  assumes "reserve lib l d tokens now = (Inr (Some r), l')"
    and "is_int64 (win_tokens (current_window l (capacity_key lib d) now) + max 1 tokens)"
  shows "\<exists>w. l' (capacity_key lib d) = Some w
    \<and> win_start w = res_start r
    \<and> win_requests w = win_requests (current_window l (capacity_key lib d) now) + 1
    \<and> (rpm d \<le> 0 \<or> win_requests w \<le> rpm d)
    \<and> (tpm d \<le> 0 \<or> (win_tokens w \<le> tpm d
         \<and> win_tokens w = win_tokens (current_window l (capacity_key lib d) now) + max 1 tokens))"
  using reserve_admitted [OF assms(1) refl refl] by (auto simp: wrap64_id [OF assms(2)])

theorem reserve_within_limits_witness:
  "\<exists>w. (Map.empty(capacity_key sample_lib sample_token_limited \<mapsto>
        \<lparr>win_start = 0, win_requests = 1, win_tokens = 900\<rparr>)) (capacity_key sample_lib sample_token_limited) = Some w
    \<and> win_start w = 0
    \<and> win_requests w = win_requests (current_window Map.empty (capacity_key sample_lib sample_token_limited) 0) + 1
    \<and> (rpm sample_token_limited \<le> 0 \<or> win_requests w \<le> rpm sample_token_limited)
    \<and> (tpm sample_token_limited \<le> 0 \<or> (win_tokens w \<le> tpm sample_token_limited
         \<and> win_tokens w = win_tokens (current_window Map.empty (capacity_key sample_lib sample_token_limited) 0) + max 1 900))"
proof -
  let ?d = "sample_token_limited"
  have "reserve sample_lib Map.empty ?d 900 0
      = (Inr (Some \<lparr>res_key = capacity_key sample_lib ?d, res_start = 0, res_tokens = 900, res_done = False\<rparr>),
         Map.empty(capacity_key sample_lib ?d \<mapsto> \<lparr>win_start = 0, win_requests = 1, win_tokens = 900\<rparr>))"
    by (simp add: reserve_def current_window_def Let_def sample_token_limited_def sample_defs wrap64_small)
  from reserve_within_limits [OF this] show ?thesis
    by (simp add: current_window_def int64_defs)
qed

text \<open>
  C22. Reconciliation happens once and replaces the estimate: the first \<open>finish\<close> of an admitted
  reservation, in its own window, leaves the tokens the window had before plus the tokens the
  upstream reported, and every later \<open>finish\<close> (a stream's end of file, then its close) changes
  nothing.
\<close>
theorem finish_reconciles_once:
  assumes "reserve lib l d tokens now = (Inr (Some r), l')" "0 < tpm d"
    and "w0 = current_window l (capacity_key lib d) now"
    and "is_int64 (win_tokens w0 + max 1 tokens)" "is_int64 (win_tokens w0 + actual_tokens u)"
  shows "\<exists>r' l'' w. finish l' (Some r) (Some u) = (r', l'')
    \<and> l'' (capacity_key lib d) = Some w
    \<and> win_tokens w = win_tokens w0 + actual_tokens u
    \<and> win_requests w = win_requests w0 + 1
    \<and> finish l'' r' v = (r', l'')"
proof -
  let ?k = "capacity_key lib d"
  note adm = reserve_admitted [OF assms(1) assms(3) refl]
  have r: "r = \<lparr>res_key = ?k, res_start = win_start w0, res_tokens = max 1 tokens, res_done = False\<rparr>"
    using adm(1) assms(2) by simp
  have l': "l' ?k = Some (w0\<lparr>win_requests := win_requests w0 + 1, win_tokens := win_tokens w0 + max 1 tokens\<rparr>)"
    using adm(2) assms(2) by (simp add: wrap64_id [OF assms(4)])
  let ?w = "w0\<lparr>win_requests := win_requests w0 + 1, win_tokens := win_tokens w0 + actual_tokens u\<rparr>"
  have sum: "win_tokens w0 + max 1 tokens + (actual_tokens u - max 1 tokens) = win_tokens w0 + actual_tokens u"
    by simp
  have pos: "max 1 tokens \<noteq> 0" by simp
  have fin: "finish l' (Some r) (Some u) = (Some (r\<lparr>res_done := True\<rparr>), l'(?k \<mapsto> ?w))"
    using l' pos by (simp add: finish_def r Let_def sum wrap64_id [OF assms(5)])
  from fin finish_done [OF fin, of v] show ?thesis by auto
qed

theorem finish_reconciles_once_witness:
  "\<exists>r' l'' w. finish (Map.empty(capacity_key sample_lib sample_token_limited \<mapsto>
        \<lparr>win_start = 0, win_requests = 1, win_tokens = 900\<rparr>))
      (Some \<lparr>res_key = capacity_key sample_lib sample_token_limited, res_start = 0, res_tokens = 900, res_done = False\<rparr>)
      (Some (empty_usage\<lparr>total_tokens := 40\<rparr>)) = (r', l'')
    \<and> l'' (capacity_key sample_lib sample_token_limited) = Some w
    \<and> win_tokens w = 0 + actual_tokens (empty_usage\<lparr>total_tokens := 40\<rparr>)
    \<and> win_requests w = 0 + 1
    \<and> finish l'' r' None = (r', l'')"
proof -
  let ?d = "sample_token_limited"
  have w: "\<lparr>win_start = 0, win_requests = 0, win_tokens = 0\<rparr> = current_window Map.empty (capacity_key sample_lib ?d) 0"
    by (simp add: current_window_def)
  have "reserve sample_lib Map.empty ?d 900 0
      = (Inr (Some \<lparr>res_key = capacity_key sample_lib ?d, res_start = 0, res_tokens = 900, res_done = False\<rparr>),
         Map.empty(capacity_key sample_lib ?d \<mapsto> \<lparr>win_start = 0, win_requests = 1, win_tokens = 900\<rparr>))"
    by (simp add: reserve_def current_window_def Let_def sample_token_limited_def sample_defs wrap64_small)
  from finish_reconciles_once [OF this _ w, of "empty_usage\<lparr>total_tokens := 40\<rparr>" None]
  show ?thesis by (simp add: sample_token_limited_def int64_defs actual_tokens_def)
qed

text \<open>
  A client that asks for \<open>max_tokens\<close> of \<open>2^63 - 1\<close> escapes token admission: adding the
  request's own length overflows to a negative estimate, which the limiter rounds up to one
  token, so a fresh window admits the request and charges it a single token however small the
  deployment's \<open>tpm\<close> is.
\<close>
theorem estimate_overflow_bypasses_tpm:
  assumes "0 < data_len" "data_len \<le> max_int64" "0 < tpm d" "l (capacity_key lib d) = None"
  shows "chat_estimated_tokens data_len None (Some max_int64) < 0
    \<and> (\<exists>r l'. reserve lib l d (chat_estimated_tokens data_len None (Some max_int64)) now = (Inr (Some r), l')
         \<and> res_tokens r = 1)"
proof -
  have "wrap64 (data_len + max_int64) = data_len - 1 - 2 ^ 63"
  proof -
    have "data_len + max_int64 + 2 ^ 63 = (data_len - 1) + 2 ^ 64" by (simp add: max_int64_def)
    then have "(data_len + max_int64 + 2 ^ 63) mod 2 ^ 64 = (data_len - 1) mod 2 ^ 64"
      by (simp only: mod_add_self2)
    also have "\<dots> = data_len - 1"
      using assms(1,2) by (intro mod_pos_pos_trivial) (simp_all add: max_int64_def)
    finally show ?thesis by (simp only: wrap64_def)
  qed
  then have neg: "chat_estimated_tokens data_len None (Some max_int64) < 0"
    using assms(2) by (simp add: chat_estimated_tokens_def int64_defs)
  then show ?thesis
    using assms(3,4) by (auto simp: reserve_def current_window_def Let_def wrap64_small)
qed

theorem estimate_overflow_bypasses_tpm_witness:
  "chat_estimated_tokens 50 None (Some max_int64) < 0
    \<and> (\<exists>r l'. reserve sample_lib Map.empty sample_token_limited
         (chat_estimated_tokens 50 None (Some max_int64)) 0 = (Inr (Some r), l') \<and> res_tokens r = 1)"
  by (rule estimate_overflow_bypasses_tpm)
    (simp_all add: int64_defs sample_token_limited_def)

end
