(* ===== verification/Ledger.thy ===== *)
theory Ledger
  imports Float64
begin

text \<open>
  The contract shared by the two spend counters of the proxy, the daily pool budgets
  (\<open>internal/router/budget.go\<close>) and the key budgets (\<open>internal/keystore/spend.go\<close>): a credit
  adds to one account, in floating point, and to no other. The lemmas are the consequences both
  components need: what an account holds after any number of credits, and that an exhausted
  account stays exhausted.
\<close>

definition credits_of :: "'k \<Rightarrow> ('k \<times> f64) list \<Rightarrow> f64 list" where
  "credits_of k cs = map snd (filter (\<lambda>(k', c). k' = k) cs)"

lemma credits_of_simps [simp]:
  "credits_of k [] = []"
  "credits_of k ((k', c) # cs) = (if k' = k then c # credits_of k cs else credits_of k cs)"
  by (simp_all add: credits_of_def)

definition fsum :: "f64 \<Rightarrow> f64 list \<Rightarrow> f64" where
  "fsum a cs = foldl fadd a cs"

lemma fsum_simps [simp]: "fsum a [] = a" "fsum a (c # cs) = fsum (fadd a c) cs"
  by (simp_all add: fsum_def)

lemma is_f64_fsum: "is_f64 a \<Longrightarrow> is_f64 (fsum a cs)"
  by (induction cs arbitrary: a) (simp_all add: is_f64_fadd)

lemma fsum_ge: "is_f64 a \<Longrightarrow> \<forall>c \<in> set cs. 0 \<le> c \<Longrightarrow> a \<le> fsum a cs"
proof (induction cs arbitrary: a)
  case Nil
  then show ?case by simp
next
  case (Cons c cs)
  have "a \<le> fadd a c" using Cons.prems by (simp add: fadd_ge)
  also have "fadd a c \<le> fsum (fadd a c) cs" using Cons by (simp add: is_f64_fadd)
  finally show ?case by simp
qed

locale spend_ledger =
  fixes credit :: "'l \<Rightarrow> 'k \<Rightarrow> f64 \<Rightarrow> 'l"
    and spent :: "'l \<Rightarrow> 'k \<Rightarrow> f64"
  assumes spent_credit: "spent (credit l k c) k = fadd (spent l k) c"
    and spent_credit_other: "k' \<noteq> k \<Longrightarrow> spent (credit l k c) k' = spent l k'"
begin

lemma spent_after:
  "spent (foldl (\<lambda>l (k, c). credit l k c) l cs) k = fsum (spent l k) (credits_of k cs)"
proof (induction cs arbitrary: l)
  case Nil
  then show ?case by simp
next
  case (Cons x cs)
  obtain k' c where x: "x = (k', c)" by (cases x)
  show ?case using Cons spent_credit spent_credit_other [of k k'] by (simp add: x)
qed

lemma stays_exhausted:
  assumes "is_f64 (spent l k)" "\<forall>c \<in> set (credits_of k cs). 0 \<le> c" "cap \<le> spent l k"
  shows "cap \<le> spent (foldl (\<lambda>l (k, c). credit l k c) l cs) k"
  using fsum_ge [OF assms(1, 2)] assms(3) by (simp add: spent_after)

end

end
