(* ===== verification/Config.thy ===== *)
theory Config
  imports Deployment
begin

text \<open>
  The configuration (\<open>internal/config\<close>): its records and defaults (\<open>config.go\<close>), the reader
  of the YAML tree (\<open>loader.go\<close>), the checks of a decision block (\<open>decisions.go\<close>) and the
  expansion of wildcard models (\<open>expand.go\<close>).

  The YAML library turns bytes into a tree of untyped values; \<open>yaml\<close> is that tree, with one
  constructor per Go type a type assertion of the loader can meet. What the loader calls outside
  the repository or in the standard library is the record \<open>config_lib\<close>.
\<close>

section \<open>Untyped YAML values\<close>

datatype yaml =
    YNull
  | YBool bool
  | YInt int
  | YFloat f64
  | YStr string
  | YList "yaml list"
  | YMap "(string \<times> yaml) list"

record url =
  url_scheme :: string
  url_host :: string
  url_raw_query :: string
  url_fragment :: string
  url_has_user :: bool

record config_lib =
  yaml_unmarshal :: "string \<Rightarrow> (string \<times> yaml) list option"
  decode_decision :: "yaml \<Rightarrow> string + decision_config"
  parse_duration :: "string \<Rightarrow> duration option"
  getenv :: "string \<Rightarrow> string"
  url_parse :: "string \<Rightarrow> url option"

text \<open>Type assertions \<open>m[k].(T)\<close> with the comma-ok form.\<close>

definition get_str :: "(string \<times> yaml) list \<Rightarrow> string \<Rightarrow> string option" where
  "get_str m k = (case map_of m k of Some (YStr s) \<Rightarrow> Some s | _ \<Rightarrow> None)"

definition get_int :: "(string \<times> yaml) list \<Rightarrow> string \<Rightarrow> int option" where
  "get_int m k = (case map_of m k of Some (YInt i) \<Rightarrow> Some i | _ \<Rightarrow> None)"

definition get_float :: "(string \<times> yaml) list \<Rightarrow> string \<Rightarrow> f64 option" where
  "get_float m k = (case map_of m k of Some (YFloat f) \<Rightarrow> Some f | _ \<Rightarrow> None)"

definition get_bool :: "(string \<times> yaml) list \<Rightarrow> string \<Rightarrow> bool option" where
  "get_bool m k = (case map_of m k of Some (YBool b) \<Rightarrow> Some b | _ \<Rightarrow> None)"

definition get_map :: "(string \<times> yaml) list \<Rightarrow> string \<Rightarrow> (string \<times> yaml) list option" where
  "get_map m k = (case map_of m k of Some (YMap x) \<Rightarrow> Some x | _ \<Rightarrow> None)"

definition get_list :: "(string \<times> yaml) list \<Rightarrow> string \<Rightarrow> yaml list option" where
  "get_list m k = (case map_of m k of Some (YList x) \<Rightarrow> Some x | _ \<Rightarrow> None)"

lemmas yaml_get_defs = get_str_def get_int_def get_float_def get_bool_def get_map_def get_list_def

text \<open>\<open>if v, ok := m[k].(T); ok { field = v }\<close>\<close>

definition opt_or :: "'a option \<Rightarrow> 'a \<Rightarrow> 'a" where
  "opt_or x z = (case x of Some v \<Rightarrow> v | None \<Rightarrow> z)"

lemma opt_or_simps [simp]: "opt_or (Some v) z = v" "opt_or None z = z"
  by (simp_all add: opt_or_def)

section \<open>Configuration records\<close>

record otel_exporter =
  ox_protocol :: string
  ox_endpoint :: string
  ox_insecure :: bool
  ox_headers :: "(string \<times> string) list"

record otel_settings =
  ot_enabled :: bool
  ot_service_name :: string
  ot_exporter :: otel_exporter
  ot_sampling_ratio :: f64

record oidc_settings =
  oidc_issuer_url :: string
  oidc_client_id :: string
  oidc_client_secret :: string
  oidc_redirect_url :: string
  oidc_admin_group :: string
  oidc_dev_mode :: bool

record log_settings =
  log_level :: string
  log_format :: string
  log_file_path :: string
  log_max_size_mb :: int
  log_max_backups :: int
  log_max_age_days :: int
  log_compress :: bool

record litellm_params =
  lp_model :: string
  lp_api_key :: string
  lp_api_base :: string
  lp_extra_headers :: "(string \<times> string) list"
  lp_extra_params :: "(string \<times> yaml) list option"

record model_config =
  mc_cost_policy :: string
  mc_decision :: "decision_config option"
  mc_model_name :: string
  mc_params :: litellm_params
  mc_rpm :: int
  mc_tpm :: int

record router_settings =
  routing_strategy :: string
  num_retries :: int
  rs_allowed_fails :: int
  rs_cooldown_time :: duration

record general_settings =
  master_key :: string
  database_url :: string
  port :: int
  body_snippet_limit :: int
  log_retention_days :: int
  frontend_dir :: string

record pool_member =
  pm_model_name :: string
  pm_weight :: int

record provider_pool =
  pp_name :: string
  pp_enabled :: "bool option"
  pp_strategy :: string
  pp_budget_cap_daily :: f64
  pp_members :: "pool_member list"

record webhook_config =
  wc_url :: string
  wc_events :: "string list"
  wc_secret :: string
  wc_enabled :: bool

record config =
  model_list :: "model_config list"
  cfg_router :: router_settings
  cfg_general :: general_settings
  cfg_log :: log_settings
  cfg_oidc :: oidc_settings
  cfg_otel :: otel_settings
  provider_pools :: "provider_pool list"
  webhooks :: "webhook_config list"

definition config_defaults :: config where
  "config_defaults = \<lparr>
     model_list = [],
     cfg_router = \<lparr>routing_strategy = ''simple-shuffle'', num_retries = 2, rs_allowed_fails = 3,
                   rs_cooldown_time = 30 * second\<rparr>,
     cfg_general = \<lparr>master_key = [], database_url = ''./proxy.db'', port = 8080,
                    body_snippet_limit = 500, log_retention_days = 30, frontend_dir = []\<rparr>,
     cfg_log = \<lparr>log_level = ''info'', log_format = ''console'', log_file_path = [],
                log_max_size_mb = 100, log_max_backups = 3, log_max_age_days = 28, log_compress = False\<rparr>,
     cfg_oidc = \<lparr>oidc_issuer_url = [], oidc_client_id = [], oidc_client_secret = [],
                 oidc_redirect_url = [], oidc_admin_group = ''admin'', oidc_dev_mode = False\<rparr>,
     cfg_otel = \<lparr>ot_enabled = False, ot_service_name = ''simple-llm-proxy'',
                 ot_exporter = \<lparr>ox_protocol = ''http'', ox_endpoint = [], ox_insecure = False, ox_headers = []\<rparr>,
                 ot_sampling_ratio = 1\<rparr>,
     provider_pools = [],
     webhooks = []\<rparr>"

section \<open>Model strings and environment variables\<close>

text \<open>
  \<open>strings.SplitN(s, "/", 2)\<close>: the part before the first slash and everything after it.
\<close>

definition split_first :: "char \<Rightarrow> string \<Rightarrow> (string \<times> string) option" where
  "split_first c s = (if c \<in> set s then Some (takeWhile (\<lambda>x. x \<noteq> c) s, tl (dropWhile (\<lambda>x. x \<noteq> c) s)) else None)"

definition parse_model_string :: "string \<Rightarrow> string \<times> string" where
  "parse_model_string s = (case split_first CHR ''/'' s of Some (p, m) \<Rightarrow> (p, m) | None \<Rightarrow> (''openai'', s))"

definition is_word_char :: "char \<Rightarrow> bool" where
  "is_word_char c = (let n = of_char c :: nat in
     (48 \<le> n \<and> n \<le> 57) \<or> (65 \<le> n \<and> n \<le> 90) \<or> n = 95 \<or> (97 \<le> n \<and> n \<le> 122))"

text \<open>The pattern \<open>^os\.environ/(\w+)$\<close>.\<close>

definition env_prefix :: string where
  "env_prefix = ''os.environ/''"

definition env_var_name :: "string \<Rightarrow> string option" where
  "env_var_name s =
     (if take (length env_prefix) s = env_prefix
         \<and> drop (length env_prefix) s \<noteq> []
         \<and> list_all is_word_char (drop (length env_prefix) s)
      then Some (drop (length env_prefix) s) else None)"

definition expand_env_var :: "config_lib \<Rightarrow> string \<Rightarrow> string" where
  "expand_env_var lib s = (case env_var_name s of Some v \<Rightarrow> getenv lib v | None \<Rightarrow> s)"

section \<open>Decision blocks\<close>

definition valid_decision_path :: "config_lib \<Rightarrow> string \<Rightarrow> bool" where
  "valid_decision_path lib p =
     (p = [] \<or> (case url_parse lib p of None \<Rightarrow> False
        | Some u \<Rightarrow> url_scheme u = [] \<and> url_host u = [] \<and> url_raw_query u = [] \<and> url_fragment u = []
                    \<and> hd p = CHR ''/''))"

definition pricing_rates :: "decision_pricing \<Rightarrow> f64 list" where
  "pricing_rates p =
     [input_cost_per_token p, output_cost_per_token p, cost_per_request p]
     @ (case cache_read_input_token_cost p of Some v \<Rightarrow> [v] | None \<Rightarrow> [])
     @ (case cache_creation_input_token_cost p of Some v \<Rightarrow> [v] | None \<Rightarrow> [])"

definition normalize_decision ::
  "config_lib \<Rightarrow> decision_config option \<Rightarrow> string + decision_config option" where
  "normalize_decision lib dopt =
     (case dopt of None \<Rightarrow> Inr None
      | Some d \<Rightarrow>
        if protocol d \<notin> {''decisions'', ''systemone'', ''cloudflare''}
        then Inl ''decision.protocol must be decisions, systemone, or cloudflare''
        else if \<not> valid_decision_path lib (path d)
        then Inl ''decision.path must be an absolute path without a host, query, or fragment''
        else
          let ms = (if modalities d = [] then [''text''] else modalities d);
              qs = (if question_types d = [] then [''predicate'', ''choice'', ''score''] else question_types d)
          in if \<exists>m \<in> set ms. m \<notin> {''text'', ''image'', ''audio'', ''video''}
             then Inl ''unknown decision modality''
             else if \<exists>q \<in> set qs. q \<notin> {''predicate'', ''choice'', ''score'', ''box''}
             then Inl ''unknown decision question type (use predicate for noul)''
             else case pricing d of
               None \<Rightarrow> Inl ''decision.pricing is required; use {} for free/self-hosted inference''
             | Some p \<Rightarrow>
                 if \<exists>r \<in> set (pricing_rates p). r < 0
                 then Inl ''decision prices must be finite non-negative USD amounts''
                 else Inr (Some (d\<lparr>modalities := ms, question_types := qs\<rparr>)))"

section \<open>Reading the tree (\<open>loader.go\<close>)\<close>

text \<open>
  Errors of the loader: a message, or an error inside the \<open>i\<close>-th item of a list
  (\<open>fmt.Errorf("parsing model_list[%d]: %w", i, err)\<close>). \<open>parse_items\<close> is the loop that reads
  such a list and stops at the first item that does not read.
\<close>

datatype config_error = ConfigError string | InItem string nat config_error

fun parse_items :: "string \<Rightarrow> (yaml \<Rightarrow> config_error + 'a) \<Rightarrow> nat \<Rightarrow> yaml list \<Rightarrow> config_error + 'a list" where
  "parse_items what f i [] = Inr []"
| "parse_items what f i (y # ys) =
     (case f y of Inl e \<Rightarrow> Inl (InItem what i e)
      | Inr v \<Rightarrow> (case parse_items what f (Suc i) ys of Inl e \<Rightarrow> Inl e | Inr vs \<Rightarrow> Inr (v # vs)))"

text \<open>The string entries of a map, expanded; entries of another type are left out.\<close>

fun string_entries :: "config_lib \<Rightarrow> (string \<times> yaml) list \<Rightarrow> (string \<times> string) list" where
  "string_entries lib [] = []"
| "string_entries lib ((k, YStr s) # xs) = (k, expand_env_var lib s) # string_entries lib xs"
| "string_entries lib ((k, y) # xs) = string_entries lib xs"

definition parse_cost_policy :: "(string \<times> yaml) list \<Rightarrow> config_error + string" where
  "parse_cost_policy m =
     (case map_of m ''cost_policy'' of
        None \<Rightarrow> Inr []
      | Some (YStr p) \<Rightarrow>
          if p \<in> {''prefer_upstream'', ''estimate_only'', ''require_upstream''} then Inr p
          else Inl (ConfigError ''cost_policy must be prefer_upstream, estimate_only, or require_upstream'')
      | Some _ \<Rightarrow> Inl (ConfigError ''cost_policy must be prefer_upstream, estimate_only, or require_upstream''))"

definition parse_decision ::
  "config_lib \<Rightarrow> (string \<times> yaml) list \<Rightarrow> config_error + decision_config option" where
  "parse_decision lib m =
     (case map_of m ''decision'' of
        None \<Rightarrow> Inr None
      | Some (YMap x) \<Rightarrow>
          (case decode_decision lib (YMap x) of
             Inl e \<Rightarrow> Inl (ConfigError (''decision: '' @ e))
           | Inr d \<Rightarrow> (case normalize_decision lib (Some d) of
               Inl e \<Rightarrow> Inl (ConfigError e) | Inr nd \<Rightarrow> Inr nd))
      | Some _ \<Rightarrow> Inl (ConfigError ''decision must be a map''))"

definition no_params :: litellm_params where
  "no_params = \<lparr>lp_model = [], lp_api_key = [], lp_api_base = [], lp_extra_headers = [], lp_extra_params = None\<rparr>"

definition parse_litellm_params :: "config_lib \<Rightarrow> (string \<times> yaml) list \<Rightarrow> litellm_params" where
  "parse_litellm_params lib m =
     (case get_map m ''litellm_params'' of
        None \<Rightarrow> no_params
      | Some ps \<Rightarrow> \<lparr>
          lp_model = opt_or (get_str ps ''model'') [],
          lp_api_key = opt_or (map_option (expand_env_var lib) (get_str ps ''api_key'')) [],
          lp_api_base = opt_or (map_option (expand_env_var lib) (get_str ps ''api_base'')) [],
          lp_extra_headers = (case get_map ps ''extra_headers'' of
             Some eh \<Rightarrow> string_entries lib eh | None \<Rightarrow> []),
          lp_extra_params = get_map ps ''extra_params''\<rparr>)"

definition parse_model_config :: "config_lib \<Rightarrow> yaml \<Rightarrow> config_error + model_config" where
  "parse_model_config lib item =
     (case item of
        YMap m \<Rightarrow>
          (case parse_cost_policy m of Inl e \<Rightarrow> Inl e
           | Inr policy \<Rightarrow>
          (case parse_decision lib m of Inl e \<Rightarrow> Inl e
           | Inr dec \<Rightarrow>
          (case get_str m ''model_name'' of
             None \<Rightarrow> Inl (ConfigError ''model_name is required'')
           | Some name \<Rightarrow> Inr \<lparr>
               mc_cost_policy = policy, mc_decision = dec, mc_model_name = name,
               mc_params = parse_litellm_params lib m,
               mc_rpm = opt_or (get_int m ''rpm'') 0,
               mc_tpm = opt_or (get_int m ''tpm'') 0\<rparr>)))
      | _ \<Rightarrow> Inl (ConfigError ''expected map''))"

definition parse_pool_member :: "yaml \<Rightarrow> config_error + pool_member" where
  "parse_pool_member item =
     (case item of
        YMap mm \<Rightarrow>
          (case get_str mm ''model_name'' of
             None \<Rightarrow> Inl (ConfigError ''model_name is required'')
           | Some name \<Rightarrow> Inr \<lparr>pm_model_name = name, pm_weight = opt_or (get_int mm ''weight'') 1\<rparr>)
      | _ \<Rightarrow> Inl (ConfigError ''expected map''))"

definition parse_enabled :: "(string \<times> yaml) list \<Rightarrow> config_error + bool option" where
  "parse_enabled m =
     (case map_of m ''enabled'' of
        None \<Rightarrow> Inr None
      | Some (YBool b) \<Rightarrow> Inr (Some b)
      | Some _ \<Rightarrow> Inl (ConfigError ''enabled must be a boolean''))"

definition parse_provider_pool :: "yaml \<Rightarrow> config_error + provider_pool" where
  "parse_provider_pool item =
     (case item of
        YMap m \<Rightarrow>
          (case parse_enabled m of Inl e \<Rightarrow> Inl e
           | Inr enabled \<Rightarrow>
          (case get_str m ''name'' of
             None \<Rightarrow> Inl (ConfigError ''name is required'')
           | Some name \<Rightarrow>
          (let pool = \<lparr>pp_name = name, pp_enabled = enabled,
                       pp_strategy = opt_or (get_str m ''strategy'') [],
                       pp_budget_cap_daily = opt_or (get_float m ''budget_cap_daily'') 0,
                       pp_members = []\<rparr>
           in case get_list m ''members'' of
                None \<Rightarrow> Inr pool
              | Some ms \<Rightarrow> (case parse_items ''members'' parse_pool_member 0 ms of
                  Inl e \<Rightarrow> Inl e | Inr members \<Rightarrow> Inr (pool\<lparr>pp_members := members\<rparr>)))))
      | _ \<Rightarrow> Inl (ConfigError ''expected map''))"

fun strings_of :: "yaml list \<Rightarrow> string list" where
  "strings_of [] = []"
| "strings_of (YStr s # ys) = s # strings_of ys"
| "strings_of (y # ys) = strings_of ys"

definition parse_webhook_config :: "config_lib \<Rightarrow> yaml \<Rightarrow> config_error + webhook_config" where
  "parse_webhook_config lib item =
     (case item of
        YMap m \<Rightarrow> Inr \<lparr>
          wc_url = opt_or (get_str m ''url'') [],
          wc_events = (case get_list m ''events'' of Some es \<Rightarrow> strings_of es | None \<Rightarrow> []),
          wc_secret = opt_or (map_option (expand_env_var lib) (get_str m ''secret'')) [],
          wc_enabled = opt_or (get_bool m ''enabled'') False\<rparr>
      | _ \<Rightarrow> Inl (ConfigError ''expected map''))"

text \<open>The sections of the file. A section that is not a map leaves the defaults.\<close>

definition parse_router_settings ::
  "config_lib \<Rightarrow> (string \<times> yaml) list \<Rightarrow> router_settings \<Rightarrow> config_error + router_settings" where
  "parse_router_settings lib m z =
     (case get_map m ''router_settings'' of
        None \<Rightarrow> Inr z
      | Some rs \<Rightarrow>
          (let z' = z\<lparr>routing_strategy := opt_or (get_str rs ''routing_strategy'') (routing_strategy z),
                      num_retries := opt_or (get_int rs ''num_retries'') (num_retries z),
                      rs_allowed_fails := opt_or (get_int rs ''allowed_fails'') (rs_allowed_fails z)\<rparr>
           in case get_str rs ''cooldown_time'' of
                None \<Rightarrow> Inr z'
              | Some v \<Rightarrow> (case parse_duration lib v of
                  None \<Rightarrow> Inl (ConfigError ''parsing cooldown_time'')
                | Some d \<Rightarrow> Inr (z'\<lparr>rs_cooldown_time := d\<rparr>))))"

definition parse_general_settings ::
  "config_lib \<Rightarrow> (string \<times> yaml) list \<Rightarrow> general_settings \<Rightarrow> general_settings" where
  "parse_general_settings lib m z =
     (case get_map m ''general_settings'' of
        None \<Rightarrow> z
      | Some gs \<Rightarrow> \<lparr>
          master_key = opt_or (map_option (expand_env_var lib) (get_str gs ''master_key'')) (master_key z),
          database_url = opt_or (map_option (expand_env_var lib) (get_str gs ''database_url'')) (database_url z),
          port = opt_or (get_int gs ''port'') (port z),
          body_snippet_limit = opt_or (get_int gs ''body_snippet_limit'') (body_snippet_limit z),
          log_retention_days = opt_or (get_int gs ''log_retention_days'') (log_retention_days z),
          frontend_dir = opt_or (map_option (expand_env_var lib) (get_str gs ''frontend_dir'')) (frontend_dir z)\<rparr>)"

definition parse_log_settings ::
  "config_lib \<Rightarrow> (string \<times> yaml) list \<Rightarrow> log_settings \<Rightarrow> log_settings" where
  "parse_log_settings lib m z =
     (case get_map m ''log_settings'' of
        None \<Rightarrow> z
      | Some ls \<Rightarrow> \<lparr>
          log_level = opt_or (get_str ls ''level'') (log_level z),
          log_format = opt_or (get_str ls ''format'') (log_format z),
          log_file_path = opt_or (map_option (expand_env_var lib) (get_str ls ''file_path'')) (log_file_path z),
          log_max_size_mb = opt_or (get_int ls ''max_size_mb'') (log_max_size_mb z),
          log_max_backups = opt_or (get_int ls ''max_backups'') (log_max_backups z),
          log_max_age_days = opt_or (get_int ls ''max_age_days'') (log_max_age_days z),
          log_compress = opt_or (get_bool ls ''compress'') (log_compress z)\<rparr>)"

definition parse_oidc_settings ::
  "config_lib \<Rightarrow> (string \<times> yaml) list \<Rightarrow> oidc_settings \<Rightarrow> oidc_settings" where
  "parse_oidc_settings lib m z =
     (case get_map m ''oidc_settings'' of
        None \<Rightarrow> z
      | Some s \<Rightarrow> \<lparr>
          oidc_issuer_url = opt_or (map_option (expand_env_var lib) (get_str s ''issuer_url'')) (oidc_issuer_url z),
          oidc_client_id = opt_or (map_option (expand_env_var lib) (get_str s ''client_id'')) (oidc_client_id z),
          oidc_client_secret = opt_or (map_option (expand_env_var lib) (get_str s ''client_secret'')) (oidc_client_secret z),
          oidc_redirect_url = opt_or (map_option (expand_env_var lib) (get_str s ''redirect_url'')) (oidc_redirect_url z),
          oidc_admin_group = opt_or (get_str s ''admin_group'') (oidc_admin_group z),
          oidc_dev_mode = opt_or (get_bool s ''dev_mode'') (oidc_dev_mode z)\<rparr>)"

fun parse_otel_headers :: "config_lib \<Rightarrow> (string \<times> yaml) list \<Rightarrow> config_error + (string \<times> string) list" where
  "parse_otel_headers lib [] = Inr []"
| "parse_otel_headers lib ((k, v) # xs) =
     (case v of
        YStr s \<Rightarrow> (case parse_otel_headers lib xs of Inl e \<Rightarrow> Inl e
          | Inr hs \<Rightarrow> Inr ((k, expand_env_var lib s) # hs))
      | _ \<Rightarrow> Inl (ConfigError (''otel_settings.exporter.headers.'' @ k @ '' must be a string'')))"

definition parse_otel_exporter ::
  "config_lib \<Rightarrow> (string \<times> yaml) list \<Rightarrow> otel_exporter \<Rightarrow> config_error + otel_exporter" where
  "parse_otel_exporter lib m z =
     (case get_map m ''exporter'' of
        None \<Rightarrow> Inr z
      | Some e \<Rightarrow>
          (let z' = z\<lparr>ox_protocol := opt_or (get_str e ''protocol'') (ox_protocol z),
                      ox_endpoint := opt_or (map_option (expand_env_var lib) (get_str e ''endpoint'')) (ox_endpoint z),
                      ox_insecure := opt_or (get_bool e ''insecure'') (ox_insecure z)\<rparr>
           in case get_map e ''headers'' of
                None \<Rightarrow> Inr z'
              | Some hs \<Rightarrow> (case parse_otel_headers lib hs of
                  Inl er \<Rightarrow> Inl er | Inr h \<Rightarrow> Inr (z'\<lparr>ox_headers := h\<rparr>))))"

definition parse_sampling_ratio :: "(string \<times> yaml) list \<Rightarrow> f64 \<Rightarrow> config_error + f64" where
  "parse_sampling_ratio m z =
     (case map_of m ''sampling_ratio'' of
        None \<Rightarrow> Inr z
      | Some (YFloat n) \<Rightarrow> Inr n
      | Some (YInt n) \<Rightarrow> Inr (rnd64 (of_int n))
      | Some _ \<Rightarrow> Inl (ConfigError ''otel_settings.sampling_ratio must be a number''))"

definition parse_otel_settings ::
  "config_lib \<Rightarrow> (string \<times> yaml) list \<Rightarrow> otel_settings \<Rightarrow> config_error + otel_settings" where
  "parse_otel_settings lib m z =
     (case get_map m ''otel_settings'' of
        None \<Rightarrow> Inr z
      | Some s \<Rightarrow>
          (case parse_sampling_ratio s (ot_sampling_ratio z) of Inl e \<Rightarrow> Inl e
           | Inr ratio \<Rightarrow>
          (case parse_otel_exporter lib s (ot_exporter z) of Inl e \<Rightarrow> Inl e
           | Inr ex \<Rightarrow> Inr \<lparr>
               ot_enabled = opt_or (get_bool s ''enabled'') (ot_enabled z),
               ot_service_name = opt_or (get_str s ''service_name'') (ot_service_name z),
               ot_exporter = ex, ot_sampling_ratio = ratio\<rparr>)))"

definition parse_list_of ::
  "string \<Rightarrow> (yaml \<Rightarrow> config_error + 'a) \<Rightarrow> string \<Rightarrow> (string \<times> yaml) list \<Rightarrow> config_error + 'a list" where
  "parse_list_of what f k m =
     (case get_list m k of None \<Rightarrow> Inr [] | Some ys \<Rightarrow> parse_items what f 0 ys)"

definition parse_config :: "config_lib \<Rightarrow> string \<Rightarrow> config_error + config" where
  "parse_config lib data =
     (let cfg = config_defaults in
      case yaml_unmarshal lib data of
        None \<Rightarrow> Inl (ConfigError ''parsing yaml'')
      | Some m \<Rightarrow>
          (case parse_list_of ''parsing model_list'' (parse_model_config lib) ''model_list'' m of Inl e \<Rightarrow> Inl e
           | Inr models \<Rightarrow>
          (case parse_router_settings lib m (cfg_router cfg) of Inl e \<Rightarrow> Inl e
           | Inr rs \<Rightarrow>
          (case parse_otel_settings lib m (cfg_otel cfg) of Inl e \<Rightarrow> Inl e
           | Inr ot \<Rightarrow>
          (case parse_list_of ''parsing provider_pools'' parse_provider_pool ''provider_pools'' m of Inl e \<Rightarrow> Inl e
           | Inr pools \<Rightarrow>
          (case parse_list_of ''parsing webhooks'' (parse_webhook_config lib) ''webhooks'' m of Inl e \<Rightarrow> Inl e
           | Inr whs \<Rightarrow> Inr \<lparr>
               model_list = models, cfg_router = rs,
               cfg_general = parse_general_settings lib m (cfg_general cfg),
               cfg_log = parse_log_settings lib m (cfg_log cfg),
               cfg_oidc = parse_oidc_settings lib m (cfg_oidc cfg),
               cfg_otel = ot, provider_pools = pools, webhooks = whs\<rparr>))))))"

section \<open>Wildcard models (\<open>expand.go\<close>) and the reloader (\<open>reloader.go\<close>)\<close>

text \<open>
  A discovery provider is the test \<open>dp_is_wildcard\<close> and the call \<open>dp_discover\<close> to its service,
  a function of the key, the base URL and the template. \<open>None\<close> of the inner loop: no provider matched.
\<close>

record discovery_provider =
  dp_prefix :: string
  dp_is_wildcard :: "model_config \<Rightarrow> bool"
  dp_discover :: "string \<Rightarrow> string \<Rightarrow> model_config \<Rightarrow> string + model_config list"

fun discover_model :: "discovery_provider list \<Rightarrow> model_config \<Rightarrow> string + model_config list" where
  "discover_model [] mc = Inr [mc]"
| "discover_model (dp # dps) mc =
     (if dp_is_wildcard dp mc
      then (case dp_discover dp (lp_api_key (mc_params mc)) (lp_api_base (mc_params mc)) mc of
              Inl e \<Rightarrow> Inl (''expanding wildcard for '' @ dp_prefix dp @ '': '' @ e)
            | Inr ms \<Rightarrow> Inr ms)
      else discover_model dps mc)"

fun expand_models :: "discovery_provider list \<Rightarrow> model_config list \<Rightarrow> string + model_config list" where
  "expand_models dps [] = Inr []"
| "expand_models dps (mc # mcs) =
     (case discover_model dps mc of Inl e \<Rightarrow> Inl e
      | Inr ms \<Rightarrow> (case expand_models dps mcs of Inl e \<Rightarrow> Inl e | Inr r \<Rightarrow> Inr (ms @ r)))"

definition expand_wildcards :: "config \<Rightarrow> discovery_provider list \<Rightarrow> string + config" where
  "expand_wildcards cfg dps =
     (if dps = [] then Inr cfg
      else case expand_models dps (model_list cfg) of
        Inl e \<Rightarrow> Inl e | Inr ms \<Rightarrow> Inr (cfg\<lparr>model_list := ms\<rparr>))"

text \<open>
  The reloader keeps the configuration in force and the registered providers; \<open>data\<close> is the
  file's content, \<open>None\<close> when it cannot be read. A reload that fails changes nothing.
\<close>

record reloader =
  current_config :: config
  discovery_providers :: "discovery_provider list"

definition reload_config ::
  "config_lib \<Rightarrow> reloader \<Rightarrow> string option \<Rightarrow> (config_error + config) \<times> reloader" where
  "reload_config lib r data =
     (case data of
        None \<Rightarrow> (Inl (ConfigError ''reading config file''), r)
      | Some bytes \<Rightarrow>
          (case parse_config lib bytes of
             Inl e \<Rightarrow> (Inl e, r)
           | Inr cfg \<Rightarrow>
               (case expand_wildcards cfg (discovery_providers r) of
                  Inl e \<Rightarrow> (Inl (ConfigError e), r)
                | Inr cfg' \<Rightarrow> (Inr cfg', r\<lparr>current_config := cfg'\<rparr>))))"

definition set_discovery_providers :: "reloader \<Rightarrow> discovery_provider list \<Rightarrow> reloader" where
  "set_discovery_providers r dps = r\<lparr>discovery_providers := dps\<rparr>"

text \<open>\<open>ExpandWildcardsOnConfig\<close>, the expansion at startup.\<close>

definition expand_wildcards_on_config :: "reloader \<Rightarrow> string option \<times> reloader" where
  "expand_wildcards_on_config r =
     (case expand_wildcards (current_config r) (discovery_providers r) of
        Inl e \<Rightarrow> (Some e, r)
      | Inr cfg \<Rightarrow> (None, r\<lparr>current_config := cfg\<rparr>))"

section \<open>What a parsed configuration satisfies\<close>

definition valid_decision :: "config_lib \<Rightarrow> decision_config \<Rightarrow> bool" where
  "valid_decision lib d \<longleftrightarrow>
     protocol d \<in> {''decisions'', ''systemone'', ''cloudflare''} \<and> valid_decision_path lib (path d)
     \<and> modalities d \<noteq> [] \<and> set (modalities d) \<subseteq> {''text'', ''image'', ''audio'', ''video''}
     \<and> question_types d \<noteq> [] \<and> set (question_types d) \<subseteq> {''predicate'', ''choice'', ''score'', ''box''}
     \<and> (case pricing d of None \<Rightarrow> False | Some p \<Rightarrow> list_all (\<lambda>r. 0 \<le> r) (pricing_rates p))"

definition valid_model_config :: "config_lib \<Rightarrow> model_config \<Rightarrow> bool" where
  "valid_model_config lib mc \<longleftrightarrow>
     mc_cost_policy mc \<in> {[], ''prefer_upstream'', ''estimate_only'', ''require_upstream''}
     \<and> (case mc_decision mc of None \<Rightarrow> True | Some d \<Rightarrow> valid_decision lib d)"

lemma normalize_decision_valid:
  assumes "normalize_decision lib (Some d) = Inr (Some d')"
  shows "valid_decision lib d'"
  using assms
  by (fastforce simp: normalize_decision_def valid_decision_def Let_def list_all_iff not_less
      split: if_splits option.splits)

lemma normalize_decision_Some:
  "normalize_decision lib (Some d) \<noteq> Inr None"
  by (simp add: normalize_decision_def Let_def split: option.splits)

lemma normalize_valid_decision:
  assumes "valid_decision lib d"
  shows "normalize_decision lib (Some d) = Inr (Some d)"
proof -
  obtain p where p: "pricing d = Some p" "list_all (\<lambda>r. 0 \<le> r) (pricing_rates p)"
    using assms by (auto simp: valid_decision_def split: option.splits)
  have rates: "\<not> (\<exists>r \<in> set (pricing_rates p). r < 0)"
    using p(2) by (auto simp: list_all_iff)
  have ms: "\<not> (\<exists>m \<in> set (modalities d). m \<notin> {''text'', ''image'', ''audio'', ''video''})"
    and qs: "\<not> (\<exists>q \<in> set (question_types d). q \<notin> {''predicate'', ''choice'', ''score'', ''box''})"
    and pr: "protocol d \<in> {''decisions'', ''systemone'', ''cloudflare''}"
    and ne: "modalities d \<noteq> []" "question_types d \<noteq> []" "valid_decision_path lib (path d)"
    using assms unfolding valid_decision_def by blast+
  show ?thesis
    using rates ms qs pr ne
    by (simp only: normalize_decision_def Let_def p(1) option.case if_False if_True simp_thms) simp
qed

lemma parse_items_all:
  assumes "parse_items what f i ys = Inr vs" and "\<And>y v. f y = Inr v \<Longrightarrow> P v"
  shows "\<forall>v \<in> set vs. P v"
  using assms(1)
proof (induction ys arbitrary: i vs)
  case Nil
  then show ?case by simp
next
  case (Cons y ys)
  from Cons.prems obtain v ws where "f y = Inr v" "parse_items what f (Suc i) ys = Inr ws" "vs = v # ws"
    by (auto split: sum.splits)
  then show ?case using Cons.IH assms(2) by auto
qed

lemma parse_list_of_all:
  assumes "parse_list_of what f k m = Inr vs" and "\<And>y v. f y = Inr v \<Longrightarrow> P v"
  shows "\<forall>v \<in> set vs. P v"
  using assms(1) parse_items_all [where P = P, OF _ assms(2)]
  by (cases "get_list m k") (auto simp: parse_list_of_def)

lemma parse_decision_valid:
  assumes "parse_decision lib m = Inr (Some d)"
  shows "valid_decision lib d"
  using assms normalize_decision_valid
  by (auto simp: parse_decision_def split: option.splits yaml.splits sum.splits)

lemma parse_cost_policy_valid:
  assumes "parse_cost_policy m = Inr p"
  shows "p \<in> {[], ''prefer_upstream'', ''estimate_only'', ''require_upstream''}"
  using assms by (simp add: parse_cost_policy_def split: option.splits yaml.splits if_splits)

lemma parse_model_config_valid:
  assumes "parse_model_config lib y = Inr mc"
  shows "valid_model_config lib mc"
proof -
  obtain m policy dec where "parse_cost_policy m = Inr policy" "parse_decision lib m = Inr dec"
    "mc_cost_policy mc = policy" "mc_decision mc = dec"
    using assms by (auto simp: parse_model_config_def split: yaml.splits sum.splits option.splits)
  then show ?thesis
    using parse_cost_policy_valid parse_decision_valid
    by (auto simp: valid_model_config_def split: option.splits)
qed

lemma parse_config_models:
  assumes "parse_config lib data = Inr cfg"
  shows "\<exists>m. yaml_unmarshal lib data = Some m
    \<and> parse_list_of ''parsing model_list'' (parse_model_config lib) ''model_list'' m = Inr (model_list cfg)
    \<and> parse_list_of ''parsing provider_pools'' parse_provider_pool ''provider_pools'' m = Inr (provider_pools cfg)"
  using assms by (auto simp: parse_config_def Let_def split: option.splits sum.splits)

lemma discover_model_plain:
  "list_all (\<lambda>dp. \<not> dp_is_wildcard dp mc) dps \<Longrightarrow> discover_model dps mc = Inr [mc]"
  by (induction dps) simp_all

lemma reload_config_cases:
  "reload_config lib r data = (res, r') \<Longrightarrow>
     (\<exists>e. res = Inl e \<and> r' = r) \<or> (\<exists>cfg. res = Inr cfg \<and> r' = r\<lparr>current_config := cfg\<rparr>)"
  by (simp add: reload_config_def split: option.splits sum.splits) metis+

lemma integer_cap_reads_zero:
  assumes "parse_provider_pool (YMap m) = Inr p" "get_float m ''budget_cap_daily'' = None"
  shows "pp_budget_cap_daily p = 0"
  using assms
  by (auto simp: parse_provider_pool_def Let_def split: sum.splits option.splits)

lemma split_first_append:
  "c \<notin> set p \<Longrightarrow> split_first c (p @ c # m) = Some (p, m)"
  by (induction p) (auto simp: split_first_def)

lemma split_first_Some:
  "split_first c s = Some (p, m) \<Longrightarrow> s = p @ c # m \<and> c \<notin> set p"
proof -
  assume a: "split_first c s = Some (p, m)"
  then have c: "c \<in> set s" by (simp add: split_first_def split: if_splits)
  then obtain ys zs where s: "s = ys @ c # zs" "c \<notin> set ys" by (meson split_list_first)
  then have "split_first c s = Some (ys, zs)" by (simp add: split_first_append)
  with a s show ?thesis by simp
qed

section \<open>Concrete input, for the witnesses\<close>

definition sample_tree :: "(string \<times> yaml) list" where
  "sample_tree = [(''model_list'', YList [YMap [(''model_name'', YStr ''judge''),
      (''cost_policy'', YStr ''estimate_only''), (''decision'', YMap [(''protocol'', YStr ''decisions'')])]])]"

definition sample_decision :: decision_config where
  "sample_decision = \<lparr>protocol = ''decisions'', path = [], modalities = [], question_types = [],
     pricing = Some \<lparr>input_cost_per_token = 0, output_cost_per_token = 0,
       cache_read_input_token_cost = None, cache_creation_input_token_cost = None, cost_per_request = 0\<rparr>\<rparr>"

definition sample_config_lib :: config_lib where
  "sample_config_lib = \<lparr>yaml_unmarshal = (\<lambda>_. Some sample_tree),
     decode_decision = (\<lambda>_. Inr sample_decision), parse_duration = (\<lambda>_. None),
     getenv = (\<lambda>_. []), url_parse = (\<lambda>_. None)\<rparr>"

lemmas sample_config_defs = sample_tree_def sample_decision_def sample_config_lib_def

section \<open>Properties\<close>



text \<open>
  \<open>ParseModelString\<close> inverts the \<open>provider/model\<close> form at the first slash, whatever slashes the
  model name itself holds (as OpenRouter names do), and reads a string without a slash as a
  model of \<open>openai\<close>.
\<close>

theorem parse_model_string_inverts:
  "case parse_model_string s of (p, m) \<Rightarrow>
     if CHR ''/'' \<in> set s then s = p @ CHR ''/'' # m \<and> CHR ''/'' \<notin> set p
     else p = ''openai'' \<and> m = s"
proof (cases "split_first CHR ''/'' s")
  case None
  then have "CHR ''/'' \<notin> set s" by (simp add: split_first_def split: if_splits)
  then show ?thesis by (simp only: parse_model_string_def None option.case prod.case if_False simp_thms)
next
  case (Some pm)
  obtain p m where pm: "pm = (p, m)" by (cases pm)
  have s: "s = p @ CHR ''/'' # m" "CHR ''/'' \<notin> set p"
    using split_first_Some [of "CHR ''/''" s p m] Some pm by simp_all
  have "parse_model_string s = (p, m)" by (simp only: parse_model_string_def Some pm option.case prod.case)
  then show ?thesis using s by (simp only: prod.case) simp
qed


end
