(* ===== verification/Budget.thy ===== *)
theory Budget
  imports Ledger Config
begin

text \<open>
  Daily pool budgets (\<open>internal/router/budget.go\<close>) and the table they are kept in
  (\<open>internal/storage/sqlstore/budget.go\<close>).

  \<open>today\<close> is \<open>time.Now().UTC().Format("2006-01-02")\<close>, an argument of each operation. The
  \<open>sync.Map\<close> of totals is an association list: its order is the order \<open>Range\<close> visits. A
  database statement fails for the pools of \<open>fails\<close>.
\<close>

record pool_spend =
  ps_total :: f64
  ps_reset_date :: string

record budget_manager =
  bm_totals :: "(string \<times> pool_spend) list"
  bm_caps :: "string \<rightharpoonup> f64"

definition new_pool_budget_manager :: budget_manager where
  "new_pool_budget_manager = \<lparr>bm_totals = [], bm_caps = Map.empty\<rparr>"

definition set_caps :: "budget_manager \<Rightarrow> provider_pool list \<Rightarrow> budget_manager" where
  "set_caps m pools = m\<lparr>bm_caps := foldl (\<lambda>cs p. cs(pp_name p \<mapsto> pp_budget_cap_daily p)) (bm_caps m) pools\<rparr>"

definition get_cap :: "budget_manager \<Rightarrow> string \<Rightarrow> f64 \<times> bool" where
  "get_cap m pool = (case bm_caps m pool of None \<Rightarrow> (0, False) | Some c \<Rightarrow> (c, True))"

definition has_budget :: "budget_manager \<Rightarrow> string \<Rightarrow> string \<Rightarrow> bool \<times> budget_manager" where
  "has_budget m pool today =
     (case bm_caps m pool of None \<Rightarrow> (True, m)
      | Some cap \<Rightarrow>
        if cap \<le> 0 then (True, m)
        else case map_of (bm_totals m) pool of None \<Rightarrow> (True, m)
        | Some ps \<Rightarrow>
          (let ps' = (if ps_reset_date ps \<noteq> today then \<lparr>ps_total = 0, ps_reset_date = today\<rparr> else ps)
           in (ps_total ps' < cap, m\<lparr>bm_totals := alist_put pool ps' (bm_totals m)\<rparr>)))"

definition budget_credit :: "budget_manager \<Rightarrow> string \<Rightarrow> f64 \<Rightarrow> string \<Rightarrow> budget_manager" where
  "budget_credit m pool cost today =
     (let ps = (case map_of (bm_totals m) pool of Some ps \<Rightarrow> ps
                | None \<Rightarrow> \<lparr>ps_total = 0, ps_reset_date = today\<rparr>);
          ps' = (if ps_reset_date ps \<noteq> today then \<lparr>ps_total = 0, ps_reset_date = today\<rparr> else ps)
      in m\<lparr>bm_totals := alist_put pool (ps'\<lparr>ps_total := fadd (ps_total ps') cost\<rparr>) (bm_totals m)\<rparr>)"

definition current_spend :: "budget_manager \<Rightarrow> string \<Rightarrow> f64" where
  "current_spend m pool = (case map_of (bm_totals m) pool of None \<Rightarrow> 0 | Some ps \<Rightarrow> ps_total ps)"

text \<open>
  The table \<open>pool_budget_state\<close>: its rows by pool name, the primary key. \<open>None\<close> of the first
  argument of \<open>budget_init\<close> is a failed query.
\<close>

type_synonym budget_table = "(string \<times> f64 \<times> string) list"

definition upsert_pool_budget_state :: "budget_table \<Rightarrow> string \<Rightarrow> f64 \<Rightarrow> string \<Rightarrow> budget_table" where
  "upsert_pool_budget_state tbl pool spend date = alist_put pool (spend, date) tbl"

definition budget_init :: "budget_table option \<Rightarrow> budget_manager \<Rightarrow> string \<Rightarrow> bool \<times> budget_manager" where
  "budget_init rows m today =
     (case rows of None \<Rightarrow> (False, m)
      | Some tbl \<Rightarrow>
         (True, m\<lparr>bm_totals := foldl (\<lambda>ts (pool, spend, date).
                if date \<noteq> today then ts
                else alist_put pool \<lparr>ps_total = spend, ps_reset_date = date\<rparr> ts) (bm_totals m) tbl\<rparr>))"

text \<open>The flush keeps the first error and goes on; the result is the pool that failed first.\<close>

fun flush_totals ::
  "(string \<Rightarrow> bool) \<Rightarrow> (string \<times> pool_spend) list \<Rightarrow> budget_table \<Rightarrow> string option \<Rightarrow> string option \<times> budget_table" where
  "flush_totals fails [] tbl err = (err, tbl)"
| "flush_totals fails ((pool, ps) # ts) tbl err =
     (if ps_total ps \<le> 0 then flush_totals fails ts tbl err
      else if fails pool
      then flush_totals fails ts tbl (case err of None \<Rightarrow> Some pool | Some e \<Rightarrow> Some e)
      else flush_totals fails ts (upsert_pool_budget_state tbl pool (ps_total ps) (ps_reset_date ps)) err)"

definition budget_flush ::
  "(string \<Rightarrow> bool) \<Rightarrow> budget_manager \<Rightarrow> budget_table \<Rightarrow> string option \<times> budget_table" where
  "budget_flush fails m tbl = flush_totals fails (bm_totals m) tbl None"

section \<open>The spend of a day\<close>

text \<open>What a pool has spent on the day \<open>today\<close>: a total of another day counts as nothing.\<close>

definition spent_on :: "string \<Rightarrow> budget_manager \<Rightarrow> string \<Rightarrow> f64" where
  "spent_on today m pool =
     (case map_of (bm_totals m) pool of None \<Rightarrow> 0
      | Some ps \<Rightarrow> if ps_reset_date ps = today then ps_total ps else 0)"

definition cap_of :: "budget_manager \<Rightarrow> string \<Rightarrow> f64" where
  "cap_of m pool = (case bm_caps m pool of None \<Rightarrow> 0 | Some c \<Rightarrow> c)"

abbreviation credits_on :: "string \<Rightarrow> budget_manager \<Rightarrow> (string \<times> f64) list \<Rightarrow> budget_manager" where
  "credits_on today m cs \<equiv> foldl (\<lambda>m (pool, c). budget_credit m pool c today) m cs"

interpretation pool_day: spend_ledger "\<lambda>m pool c. budget_credit m pool c today" "spent_on today" for today
  by unfold_locales (auto simp: budget_credit_def spent_on_def Let_def split: option.splits)

lemma has_budget_spent: "spent_on today (snd (has_budget m pool today)) p = spent_on today m p"
  by (auto simp: has_budget_def spent_on_def Let_def split: option.splits)

lemma has_budget_caps [simp]: "bm_caps (snd (has_budget m pool today)) = bm_caps m"
  by (simp add: has_budget_def Let_def split: option.splits)

lemma budget_credit_caps [simp]: "bm_caps (budget_credit m pool c today) = bm_caps m"
  by (simp add: budget_credit_def Let_def)

lemma credits_on_caps [simp]: "bm_caps (credits_on today m cs) = bm_caps m"
  by (induction cs arbitrary: m) auto

lemma has_budget_iff: "fst (has_budget m pool today) \<longleftrightarrow> cap_of m pool \<le> 0 \<or> spent_on today m pool < cap_of m pool"
  by (auto simp: has_budget_def cap_of_def spent_on_def Let_def split: option.splits)

lemma cap_of_credits [simp]: "cap_of (credits_on today m cs) pool = cap_of m pool"
  by (simp add: cap_of_def)

lemma cap_of_has_budget [simp]: "cap_of (snd (has_budget m q today)) pool = cap_of m pool"
  by (simp add: cap_of_def)

lemma spent_on_new [simp]: "spent_on today (set_caps new_pool_budget_manager pools) pool = 0"
  by (simp add: spent_on_def set_caps_def new_pool_budget_manager_def)

lemma set_caps_last:
  "distinct (map pp_name pools) \<Longrightarrow> p \<in> set pools \<Longrightarrow> cap_of (set_caps m pools) (pp_name p) = pp_budget_cap_daily p"
proof (induction pools rule: rev_induct)
  case Nil
  then show ?case by simp
next
  case (snoc q qs)
  then show ?case by (auto simp: set_caps_def cap_of_def image_iff)
qed

section \<open>Flush and restart\<close>

lemma flush_totals_other:
  "pool \<notin> fst ` set ts \<Longrightarrow> map_of (snd (flush_totals fails ts tbl err)) pool = map_of tbl pool"
  by (induction fails ts tbl err rule: flush_totals.induct) (auto simp: upsert_pool_budget_state_def)

lemma flush_totals_entry:
  assumes "distinct (map fst ts)" "(pool, ps) \<in> set ts" "\<not> fails pool" "0 < ps_total ps"
  shows "map_of (snd (flush_totals fails ts tbl err)) pool = Some (ps_total ps, ps_reset_date ps)"
  using assms
proof (induction fails ts tbl err rule: flush_totals.induct)
  case (1 fails tbl err)
  then show ?case by simp
next
  case (2 fails pool' ps' ts tbl err)
  show ?case
  proof (cases "pool' = pool")
    case True
    then have ps: "ps' = ps" "pool \<notin> fst ` set ts" using 2(4,5) by (auto intro: rev_image_eqI)
    then show ?thesis using 2(6,7) True by (simp add: flush_totals_other upsert_pool_budget_state_def)
  next
    case False
    then show ?thesis using 2 by auto
  qed
qed

lemma flush_totals_zero:
  assumes "distinct (map fst ts)" "(pool, ps) \<in> set ts" "ps_total ps \<le> 0"
  shows "map_of (snd (flush_totals fails ts tbl err)) pool = map_of tbl pool"
  using assms
proof (induction fails ts tbl err rule: flush_totals.induct)
  case (1 fails tbl err)
  then show ?case by simp
next
  case (2 fails pool' ps' ts tbl err)
  show ?case
  proof (cases "pool' = pool")
    case True
    then have ps: "ps' = ps" "pool \<notin> fst ` set ts" using 2(4,5) by (auto intro: rev_image_eqI)
    then show ?thesis using 2(6) True by (simp add: flush_totals_other)
  next
    case False
    then show ?thesis using 2 by (auto simp: upsert_pool_budget_state_def)
  qed
qed

lemma flush_totals_keys:
  "distinct (map fst tbl) \<Longrightarrow> distinct (map fst (snd (flush_totals fails ts tbl err)))"
  by (induction fails ts tbl err rule: flush_totals.induct)
    (auto simp: upsert_pool_budget_state_def distinct_alist_put)

abbreviation init_step where
  "init_step today \<equiv> \<lambda>ts (pool, spend, date). if date \<noteq> today then ts
      else alist_put pool \<lparr>ps_total = spend, ps_reset_date = date\<rparr> ts"

lemma budget_init_lookup:
  assumes "distinct (map fst tbl)"
  shows "map_of (foldl (init_step today) ts tbl) pool =
    (case map_of tbl pool of
       Some (spend, date) \<Rightarrow> if date = today then Some \<lparr>ps_total = spend, ps_reset_date = date\<rparr> else map_of ts pool
     | None \<Rightarrow> map_of ts pool)"
  using assms
proof (induction tbl arbitrary: ts)
  case Nil
  then show ?case by simp
next
  case (Cons r tbl)
  obtain p s d where r: "r = (p, s, d)" by (metis prod_cases3)
  have notin: "map_of tbl p = None" using Cons.prems by (simp add: r map_of_eq_None_iff)
  show ?case using Cons notin by (simp add: r split: option.splits)
qed

lemma spent_on_pos_date:
  assumes "0 < spent_on today m pool"
  obtains ps where "map_of (bm_totals m) pool = Some ps" "ps_reset_date ps = today"
  using assms by (auto simp: spent_on_def split: option.splits if_splits)

lemma credit_keeps_other_days:
  assumes "spent_on d' m pool = 0" "d' \<noteq> d"
  shows "spent_on d' (budget_credit m q c d) pool = 0"
  using assms by (auto simp: spent_on_def budget_credit_def Let_def split: option.splits if_splits)

lemma credits_keep_other_days:
  "spent_on d' m pool = 0 \<Longrightarrow> d' \<noteq> d \<Longrightarrow> spent_on d' (credits_on d m cs) pool = 0"
  by (induction cs arbitrary: m) (auto simp: credit_keeps_other_days)

section \<open>Properties\<close>


text \<open>
  An exhausted pool stays exhausted for the rest of the day under any further non-negative
  credits, and has budget again on any other day: the reset happens in the check itself.
\<close>

theorem exhausted_until_date_change:
  assumes "\<not> fst (has_budget m pool today)" "is_f64 (spent_on today m pool)"
    and "\<forall>c \<in> set (credits_of pool cs). 0 \<le> c"
  shows "\<forall>day'. fst (has_budget (credits_on today m cs) pool day') = (day' \<noteq> today)"
proof
  fix day'
  have cap: "0 < cap_of m pool" "cap_of m pool \<le> spent_on today m pool"
    using assms(1) by (simp_all add: has_budget_iff not_less)
  obtain ps where ps: "map_of (bm_totals m) pool = Some ps" "ps_reset_date ps = today"
    using cap by (meson less_le_trans spent_on_pos_date)
  show "fst (has_budget (credits_on today m cs) pool day') = (day' \<noteq> today)"
  proof (cases "day' = today")
    case True
    have "cap_of m pool \<le> spent_on today (credits_on today m cs) pool"
      using assms(2,3) cap(2) by (rule pool_day.stays_exhausted)
    then show ?thesis using True cap(1) by (simp add: has_budget_iff not_le not_less)
  next
    case False
    then have "spent_on day' m pool = 0" using ps by (simp add: spent_on_def)
    then have "spent_on day' (credits_on today m cs) pool = 0"
      using False by (rule credits_keep_other_days)
    then show ?thesis using False cap(1) by (simp add: has_budget_iff)
  qed
qed

definition sample_budget :: budget_manager where
  "sample_budget = \<lparr>bm_totals = [(''main'', \<lparr>ps_total = 2, ps_reset_date = ''d1''\<rparr>)],
     bm_caps = [''main'' \<mapsto> 2]\<rparr>"

lemma is_f64_two: "is_f64 2"
  by code_simp

theorem exhausted_until_date_change_witness:
  "\<forall>day'. fst (has_budget (credits_on ''d1'' sample_budget [(''main'', 1)]) ''main'' day') = (day' \<noteq> ''d1'')"
  by (rule exhausted_until_date_change)
    (simp_all add: has_budget_def sample_budget_def spent_on_def is_f64_two)

text \<open>
  C26. Restarting on the same day loses no spend. When every flushed row reaches the table and the table's
  rows of today are of pools the manager holds for today with a positive total, a new manager that
  loads the table reports for every pool the same spend of the day, so it answers every
  budget check as before.
\<close>

theorem flush_then_init_keeps_spend:
  assumes "distinct (map fst (bm_totals m))" "distinct (map fst tbl)"
    and "\<forall>(p, ps) \<in> set (bm_totals m). 0 \<le> ps_total ps"
    and "\<forall>(p, s, d) \<in> set tbl. d = today \<longrightarrow>
           (\<exists>ps. map_of (bm_totals m) p = Some ps \<and> ps_reset_date ps = today \<and> 0 < ps_total ps)"
  shows "spent_on today (snd (budget_init (Some (snd (budget_flush (\<lambda>_. False) m tbl))) new_pool_budget_manager today)) pool
    = spent_on today m pool"
proof -
  let ?tbl = "snd (budget_flush (\<lambda>_. False) m tbl)"
  have d: "distinct (map fst ?tbl)"
    using assms(2) by (simp add: budget_flush_def flush_totals_keys)
  have init: "map_of (bm_totals (snd (budget_init (Some ?tbl) new_pool_budget_manager today))) pool
      = (case map_of ?tbl pool of Some (s, dt) \<Rightarrow> if dt = today
           then Some \<lparr>ps_total = s, ps_reset_date = dt\<rparr> else None | None \<Rightarrow> None)"
    using budget_init_lookup [OF d] by (simp add: budget_init_def new_pool_budget_manager_def split: option.splits)
  have old: "dt \<noteq> today" if "map_of tbl pool = Some (s, dt)" "\<nexists>ps. map_of (bm_totals m) pool = Some ps
      \<and> ps_reset_date ps = today \<and> 0 < ps_total ps" for s dt
    using assms(4) map_of_SomeD [OF that(1)] that(2) by fastforce
  show ?thesis
  proof (cases "map_of (bm_totals m) pool")
    case None
    then have "map_of ?tbl pool = map_of tbl pool"
      by (simp add: budget_flush_def flush_totals_other map_of_eq_None_iff)
    then show ?thesis using init None old by (auto simp: spent_on_def split: option.splits)
  next
    case (Some ps)
    have mem: "(pool, ps) \<in> set (bm_totals m)" using Some by (rule map_of_SomeD)
    show ?thesis
    proof (cases "0 < ps_total ps")
      case True
      then have "map_of ?tbl pool = Some (ps_total ps, ps_reset_date ps)"
        unfolding budget_flush_def by (intro flush_totals_entry assms(1) mem) simp_all
      then show ?thesis using init Some by (simp add: spent_on_def)
    next
      case False
      then have z: "ps_total ps = 0" using assms(3) mem by fastforce
      have "map_of ?tbl pool = map_of tbl pool"
        unfolding budget_flush_def by (rule flush_totals_zero [OF assms(1) mem]) (simp add: z)
      then show ?thesis using init Some old z by (auto simp: spent_on_def split: option.splits)
    qed
  qed
qed

theorem flush_then_init_keeps_spend_witness:
  "spent_on ''d1'' (snd (budget_init (Some (snd (budget_flush (\<lambda>_. False) sample_budget [])))
     new_pool_budget_manager ''d1'')) ''main'' = spent_on ''d1'' sample_budget ''main''"
  by (rule flush_then_init_keeps_spend) (simp_all add: sample_budget_def)

text \<open>
  A budget cap written as a whole number is not enforced. \<open>parseProviderPool\<close> only accepts a
  \<open>float64\<close>, and the YAML library reads \<open>budget_cap_daily: 10\<close> as an \<open>int\<close>: the pool then has cap 0,
  which means unlimited, and passes the budget check whatever it has spent.
\<close>

theorem integer_budget_cap_unlimited:
  assumes "parse_provider_pool (YMap m) = Inr p" "map_of m ''budget_cap_daily'' = Some (YInt n)"
  shows "fst (has_budget (credits_on today (set_caps bm [p]) cs) (pp_name p) today)"
proof -
  have "get_float m ''budget_cap_daily'' = None" using assms(2) by (simp add: get_float_def)
  then have "pp_budget_cap_daily p = 0" using assms(1) by (intro integer_cap_reads_zero)
  then show ?thesis by (simp add: has_budget_iff cap_of_def set_caps_def)
qed

theorem integer_budget_cap_unlimited_witness:
  "\<exists>p. parse_provider_pool (YMap [(''name'', YStr ''main''), (''budget_cap_daily'', YInt 1)]) = Inr p
     \<and> fst (has_budget (credits_on ''d1'' (set_caps new_pool_budget_manager [p]) [(''main'', 1000)]) (pp_name p) ''d1'')"
proof -
  obtain p where p: "parse_provider_pool (YMap [(''name'', YStr ''main''), (''budget_cap_daily'', YInt 1)]) = Inr p"
    by (simp add: parse_provider_pool_def parse_enabled_def yaml_get_defs)
  have "fst (has_budget (credits_on ''d1'' (set_caps new_pool_budget_manager [p]) [(''main'', 1000)]) (pp_name p) ''d1'')"
    by (rule integer_budget_cap_unlimited [OF p, where n = 1]) simp
  with p show ?thesis by blast
qed

text \<open>
  The two reads of the date race at midnight. \<open>Credit\<close> reads the date before it takes the lock, so
  a credit that read yesterday's date can be applied after credits of the new day: it then moves the
  account back to yesterday, and the spend of the new day is lost.
\<close>

theorem credit_midnight_race:
  "spent_on d' (budget_credit (budget_credit m pool c1 d') pool c2 d) pool
     = (if d = d' then fadd (fadd (spent_on d' m pool) c1) c2 else 0)"
  by (simp add: pool_day.spent_credit) (simp add: spent_on_def budget_credit_def Let_def)

end
