(* ===== verification/Sticky.thy ===== *)
theory Sticky
  imports Prelude
begin

text \<open>
  Sticky sessions (\<open>internal/router/sticky.go\<close>) and the table they are flushed to
  (\<open>internal/storage/sqlstore/sticky.go\<close>).

  The Go map of sessions is an association list with distinct keys, in the order an iteration
  visits it. Each operation takes the clock readings it makes; \<open>sticky_get\<close> makes two.
  The table has one row per session key, its primary key.
\<close>

definition sticky_ttl :: duration where
  "sticky_ttl = hour"

record sticky_entry =
  se_deployment_key :: string
  se_last_used :: time
  se_dirty :: bool

record sticky_manager =
  sm_sessions :: "(string \<times> sticky_entry) list"
  sm_has_store :: bool

record sticky_row =
  sr_session_key :: string
  sr_pool :: string
  sr_deployment_key :: string
  sr_last_used :: time

definition new_sticky_session_manager :: "bool \<Rightarrow> sticky_manager" where
  "new_sticky_session_manager has_store = \<lparr>sm_sessions = [], sm_has_store = has_store\<rparr>"

definition cache_key :: "string \<Rightarrow> string \<Rightarrow> string" where
  "cache_key session_key pool = session_key @ '':'' @ pool"

definition drop_session :: "string \<Rightarrow> sticky_manager \<Rightarrow> sticky_manager" where
  "drop_session ck sm = sm\<lparr>sm_sessions := filter (\<lambda>(k, e). k \<noteq> ck) (sm_sessions sm)\<rparr>"

definition sticky_get ::
  "sticky_manager \<Rightarrow> string \<Rightarrow> string \<Rightarrow> time \<Rightarrow> time \<Rightarrow> string \<times> sticky_manager" where
  "sticky_get sm session_key pool now1 now2 =
     (let ck = cache_key session_key pool in
      case map_of (sm_sessions sm) ck of
        None \<Rightarrow> ([], sm)
      | Some e \<Rightarrow>
          if sticky_ttl < now1 - se_last_used e then ([], drop_session ck sm)
          else (se_deployment_key e,
                sm\<lparr>sm_sessions := alist_put ck (e\<lparr>se_last_used := now2, se_dirty := True\<rparr>) (sm_sessions sm)\<rparr>))"

definition sticky_set ::
  "sticky_manager \<Rightarrow> string \<Rightarrow> string \<Rightarrow> string \<Rightarrow> time \<Rightarrow> sticky_manager" where
  "sticky_set sm session_key pool deployment_key now =
     sm\<lparr>sm_sessions := alist_put (cache_key session_key pool)
         \<lparr>se_deployment_key = deployment_key, se_last_used = now, se_dirty = True\<rparr> (sm_sessions sm)\<rparr>"

text \<open>\<open>splitCacheKey\<close> scans from the right for the last colon.\<close>

definition split_cache_key :: "string \<Rightarrow> string \<times> string" where
  "split_cache_key ck =
     (if CHR '':'' \<in> set ck
      then (rev (tl (dropWhile (\<lambda>c. c \<noteq> CHR '':'') (rev ck))), rev (takeWhile (\<lambda>c. c \<noteq> CHR '':'') (rev ck)))
      else (ck, []))"

definition sticky_row_of :: "string \<Rightarrow> sticky_entry \<Rightarrow> sticky_row" where
  "sticky_row_of ck e = (let (session_key, pool) = split_cache_key ck in
     \<lparr>sr_session_key = session_key, sr_pool = pool, sr_deployment_key = se_deployment_key e,
      sr_last_used = se_last_used e\<rparr>)"

text \<open>
  \<open>flush\<close> and \<open>cleanup\<close>: the batch for the table, respectively the cutoff for its rows, with the new
  in-memory state. The entries are marked clean before the table is written.
\<close>

definition sticky_flush :: "sticky_manager \<Rightarrow> sticky_row list \<times> sticky_manager" where
  "sticky_flush sm =
     (if \<not> sm_has_store sm then ([], sm)
      else (map (\<lambda>(ck, e). sticky_row_of ck e) (filter (\<lambda>(ck, e). se_dirty e) (sm_sessions sm)),
            sm\<lparr>sm_sessions := map (\<lambda>(ck, e). (ck, e\<lparr>se_dirty := False\<rparr>)) (sm_sessions sm)\<rparr>))"

definition sticky_cleanup :: "sticky_manager \<Rightarrow> time \<Rightarrow> time option \<times> sticky_manager" where
  "sticky_cleanup sm now =
     (let cutoff = now - sticky_ttl
      in (if sm_has_store sm then Some cutoff else None,
          sm\<lparr>sm_sessions := filter (\<lambda>(ck, e). \<not> se_last_used e < cutoff) (sm_sessions sm)\<rparr>))"

section \<open>The table\<close>

type_synonym sticky_table = "(string \<times> sticky_row) list"

definition bulk_upsert_sticky_sessions :: "bool \<Rightarrow> sticky_table \<Rightarrow> sticky_row list \<Rightarrow> sticky_table" where
  "bulk_upsert_sticky_sessions committed tbl batch =
     (if committed then foldl (\<lambda>t r. alist_put (sr_session_key r) r t) tbl batch else tbl)"

definition upsert_sticky_session ::
  "sticky_table \<Rightarrow> string \<Rightarrow> string \<Rightarrow> string \<Rightarrow> time \<Rightarrow> sticky_table" where
  "upsert_sticky_session tbl session_key pool deployment_key now =
     alist_put session_key \<lparr>sr_session_key = session_key, sr_pool = pool,
       sr_deployment_key = deployment_key, sr_last_used = now\<rparr> tbl"

definition get_sticky_session :: "sticky_table \<Rightarrow> string \<Rightarrow> string \<Rightarrow> time \<Rightarrow> string" where
  "get_sticky_session tbl session_key pool now =
     (case map_of tbl session_key of
        Some r \<Rightarrow> if sr_pool r = pool \<and> now - hour < sr_last_used r then sr_deployment_key r else []
      | None \<Rightarrow> [])"

definition delete_expired_sticky_sessions :: "sticky_table \<Rightarrow> time \<Rightarrow> int \<times> sticky_table" where
  "delete_expired_sticky_sessions tbl cutoff =
     (int (length (filter (\<lambda>(k, r). sr_last_used r < cutoff) tbl)),
      filter (\<lambda>(k, r). \<not> sr_last_used r < cutoff) tbl)"

section \<open>Lemmas\<close>

lemma map_of_filter_key:
  "map_of (filter (\<lambda>(k', e). k' \<noteq> k) xs) k2 = (if k2 = k then None else map_of xs k2)"
  by (induction xs) auto

lemma sticky_get_set:
  "sticky_get (sticky_set sm s p k t) s p now1 now2 =
     (if sticky_ttl < now1 - t then ([], drop_session (cache_key s p) (sticky_set sm s p k t))
      else (k, sticky_set (sticky_set sm s p k t) s p k now2))"
  by (simp add: sticky_get_def sticky_set_def Let_def)

lemma alist_put_twice [simp]: "alist_put k v (alist_put k w xs) = alist_put k v xs"
  by (induction xs) auto

lemma sticky_set_twice [simp]:
  "sticky_set (sticky_set sm s p k t) s p k2 t2 = sticky_set sm s p k2 t2"
  by (simp add: sticky_set_def)

lemma sticky_get_absent:
  "map_of (sm_sessions sm) (cache_key s p) = None \<Longrightarrow> sticky_get sm s p now1 now2 = ([], sm)"
  by (simp add: sticky_get_def)

lemma drop_session_absent: "map_of (sm_sessions (drop_session ck sm)) ck = None"
  by (simp add: drop_session_def map_of_filter_key)

lemma split_cache_key_no_colon:
  "CHR '':'' \<notin> set p \<Longrightarrow> split_cache_key (cache_key s p) = (s, p)"
proof -
  assume "CHR '':'' \<notin> set p"
  then have a: "\<forall>c \<in> set (rev p). c \<noteq> CHR '':''" by auto
  have "takeWhile (\<lambda>c. c \<noteq> CHR '':'') (rev p @ CHR '':'' # rev s) = rev p"
    "dropWhile (\<lambda>c. c \<noteq> CHR '':'') (rev p @ CHR '':'' # rev s) = CHR '':'' # rev s"
    using takeWhile_append2 [of "rev p" "\<lambda>c. c \<noteq> CHR '':''" "CHR '':'' # rev s"]
      dropWhile_append2 [of "rev p" "\<lambda>c. c \<noteq> CHR '':''" "CHR '':'' # rev s"] a by auto
  then show ?thesis by (simp add: split_cache_key_def cache_key_def)
qed

lemma split_cache_key_pool: "CHR '':'' \<notin> set (snd (split_cache_key ck))"
  by (auto simp: split_cache_key_def dest: set_takeWhileD)

text \<open>A run of reads of one session, each with the two clock readings it makes.\<close>

fun sticky_gets ::
  "sticky_manager \<Rightarrow> string \<Rightarrow> string \<Rightarrow> (time \<times> time) list \<Rightarrow> string list" where
  "sticky_gets sm s p [] = []"
| "sticky_gets sm s p ((now1, now2) # ts) =
     (case sticky_get sm s p now1 now2 of (k, sm') \<Rightarrow> k # sticky_gets sm' s p ts)"

text \<open>What they promise: the deployment as long as no gap exceeds the TTL, and nothing from then on.\<close>

fun sticky_spec :: "string \<Rightarrow> time \<Rightarrow> (time \<times> time) list \<Rightarrow> string list" where
  "sticky_spec k t [] = []"
| "sticky_spec k t ((now1, now2) # ts) =
     (if hour < now1 - t then replicate (Suc (length ts)) [] else k # sticky_spec k now2 ts)"

lemma sticky_gets_absent:
  "map_of (sm_sessions sm) (cache_key s p) = None \<Longrightarrow> sticky_gets sm s p ts = replicate (length ts) []"
  by (induction ts) (auto simp: sticky_get_absent)

section \<open>Properties\<close>

text \<open>
  A sticky session slides: after a mapping is set, every read returns its deployment while no two
  consecutive uses are more than an hour apart; the first read after a longer gap returns nothing and
  removes the mapping, and so does every later one.
\<close>

theorem sticky_session_slides:
  "sticky_gets (sticky_set sm s p k t) s p ts = sticky_spec k t ts"
proof (induction ts arbitrary: t)
  case Nil
  then show ?case by simp
next
  case (Cons x ts)
  obtain now1 now2 where x: "x = (now1, now2)" by (cases x)
  show ?case
    using Cons.IH [of now2]
    by (simp add: x sticky_get_set sticky_ttl_def sticky_gets_absent drop_session_absent)
qed

text \<open>
  \<open>splitCacheKey\<close> recovers session and pool from the cache key exactly when the pool name has
  no colon; the session key may hold any number of them. The loader does not reject a pool
  name with a colon: such a pool is flushed under another session and another pool name.
\<close>

theorem split_cache_key_inverts_iff:
  "(split_cache_key (cache_key session_key pool) = (session_key, pool)) = (CHR '':'' \<notin> set pool)"
  using split_cache_key_no_colon [of pool session_key]
    split_cache_key_pool [of "cache_key session_key pool"] by auto

text \<open>
  The table keeps one pool per session. A session that has been routed in two pools is flushed as
  two rows with the same primary key: the later one replaces the earlier, whose mapping is lost
  although it is still live in memory.
\<close>

theorem sticky_flush_one_pool_per_session:
  assumes "p1 \<noteq> p2" "CHR '':'' \<notin> set p1" "CHR '':'' \<notin> set p2"
  shows "let sm = sticky_set (sticky_set (new_sticky_session_manager True) s p1 k1 t1) s p2 k2 t2;
             tbl' = bulk_upsert_sticky_sessions True tbl (fst (sticky_flush sm))
         in fst (sticky_get sm s p1 t1 t1) = k1 \<and> get_sticky_session tbl' s p1 now = []"
proof -
  have ck: "cache_key s p1 \<noteq> cache_key s p2" using assms(1) by (simp add: cache_key_def)
  show ?thesis
    using assms ck
    by (simp add: Let_def sticky_set_def new_sticky_session_manager_def sticky_flush_def
        bulk_upsert_sticky_sessions_def sticky_row_of_def split_cache_key_no_colon
        get_sticky_session_def sticky_get_def sticky_ttl_def hour_def)
qed

theorem sticky_flush_one_pool_per_session_witness:
  "let sm = sticky_set (sticky_set (new_sticky_session_manager True) ''ab'' ''fast'' ''d1'' 0) ''ab'' ''slow'' ''d2'' 5;
       tbl' = bulk_upsert_sticky_sessions True [] (fst (sticky_flush sm))
   in fst (sticky_get sm ''ab'' ''fast'' 0 0) = ''d1'' \<and> get_sticky_session tbl' ''ab'' ''fast'' 9 = []"
  by (rule sticky_flush_one_pool_per_session) simp_all

end
