(* ===== verification/Routing.thy ===== *)
theory Routing
  imports Strategy Health Capacity Budget Sticky "HOL-Library.Sublist"
begin

text \<open>
  The request path of the router: \<open>internal/router/route.go\<close>, \<open>invoke\<close> of
  \<open>capacity.go\<close>, \<open>headers.go\<close>, \<open>decisions.go\<close>, \<open>pool.go\<close> and the operations of \<open>router.go\<close>
  that Route calls.

  \<^item> \<open>router\<close> is the struct \<open>Router\<close>. A pool is shared between the maps \<open>pools\<close> and
    \<open>modelToPool\<close>; \<open>pool_id\<close> is its address. Strategy objects are shared between pools, so
    they live in the store \<open>rt_strategies\<close> and a pool holds a reference.
  \<^item> Values that come from outside during a run (clock, date, random numbers, the context's error,
    the callback's answer, the usage snapshot) are the functions of \<open>route_env\<close> from a
    position; \<open>rw_pos\<close> counts the positions already used. Every reading may differ.
  \<^item> \<open>rw_events\<close> is the sequence of calls that leave the router: the hooks of the options and the
    callback.
  \<^item> Go's iteration over the map \<open>pools\<close> visits it in any order; the association list \<open>rt_pools\<close>
    is in the order of this run.
\<close>

section \<open>State\<close>

record pool =
  pool_id :: nat
  pool_name :: string
  pool_strategy :: nat
  pool_members :: "deployment list"
  pool_weights :: "string \<rightharpoonup> int"
  pool_model_name :: string

record router =
  rt_deployments :: "(string \<times> deployment list) list"
  rt_strategy :: nat
  rt_strategies :: "nat \<Rightarrow> strategy"
  rt_cooldown :: cooldown_manager
  rt_backoff :: backoff_manager
  rt_settings :: router_settings
  rt_pools :: "(string \<times> pool) list"
  rt_model_to_pool :: "string \<rightharpoonup> pool"
  rt_sticky :: sticky_manager
  rt_capacity :: capacity_limiter
  rt_budget :: budget_manager

record chat_response =
  resp_content :: string
  resp_usage :: "usage option"

datatype route_stream = PlainStream provider_stream | LimitedStream capacity_stream

type_synonym callback_result = "chat_response option \<times> provider_stream option \<times> goerror option"

datatype route_event =
    BeforeAttempt deployment string
  | UpstreamCall deployment
  | AfterAttempt "chat_response option" "goerror option"
  | DeferReconcile "capacity_reservation option"

record route_world = router +
  rw_pos :: nat
  rw_events :: "route_event list"

record route_env =
  env_now :: "nat \<Rightarrow> time"
  env_today :: "nat \<Rightarrow> string"
  env_rand :: "nat \<Rightarrow> nat"
  env_ctx :: "nat \<Rightarrow> goerror option"
  env_call :: "nat \<Rightarrow> deployment \<Rightarrow> callback_result"
  env_usage :: "nat \<Rightarrow> usage option"

text \<open>The options; the flags say whether the hook of that name is set.\<close>

record route_options =
  opt_usage_snapshot :: bool
  opt_defer_reconcile :: bool
  opt_estimated_tokens :: int
  opt_before_attempt :: bool
  opt_after_attempt :: bool
  opt_eligible :: "(deployment \<Rightarrow> bool) option"

datatype failover_reason =
    FailoverRateLimited | FailoverCooldown | FailoverBackoff | FailoverError | FailoverBudgetExhausted

fun failover_reason_text :: "failover_reason \<Rightarrow> string" where
  "failover_reason_text FailoverRateLimited = ''rate_limited''"
| "failover_reason_text FailoverCooldown = ''cooldown''"
| "failover_reason_text FailoverBackoff = ''backoff''"
| "failover_reason_text FailoverError = ''error''"
| "failover_reason_text FailoverBudgetExhausted = ''budget_exhausted''"

record route_result =
  rr_response :: "chat_response option"
  rr_stream :: "route_stream option"
  rr_used :: "deployment option"
  rr_tried :: "deployment list"
  rr_reasons :: "failover_reason list"
  rr_error :: "goerror option"
  rr_pool :: string

definition empty_result :: route_result where
  "empty_result = \<lparr>rr_response = None, rr_stream = None, rr_used = None, rr_tried = [],
     rr_reasons = [], rr_error = None, rr_pool = []\<rparr>"

definition tick :: "route_world \<Rightarrow> route_world" where
  "tick w = w\<lparr>rw_pos := Suc (rw_pos w)\<rparr>"

definition emit :: "route_event \<Rightarrow> route_world \<Rightarrow> route_world" where
  "emit e w = w\<lparr>rw_events := rw_events w @ [e]\<rparr>"

abbreviation clock :: "route_env \<Rightarrow> route_world \<Rightarrow> time" where
  "clock env w \<equiv> env_now env (rw_pos w)"

definition eligible_deployment :: "route_options option \<Rightarrow> deployment \<Rightarrow> bool" where
  "eligible_deployment opts d =
     (case opts of
        Some o' \<Rightarrow> (case opt_eligible o' of Some f \<Rightarrow> f d | None \<Rightarrow> decision d = None)
      | None \<Rightarrow> decision d = None)"

definition pool_has_eligible_deployment :: "pool \<Rightarrow> route_options option \<Rightarrow> bool" where
  "pool_has_eligible_deployment p opts = list_ex (eligible_deployment opts) (pool_members p)"

section \<open>Health reports\<close>

definition report_success :: "router \<Rightarrow> deployment \<Rightarrow> router" where
  "report_success r d = r\<lparr>rt_cooldown := cooldown_success (rt_cooldown r) d,
     rt_backoff := backoff_reset (rt_backoff r) (deployment_key d)\<rparr>"

definition report_failure :: "route_env \<Rightarrow> route_world \<Rightarrow> deployment \<Rightarrow> route_world" where
  "report_failure env w d = tick (w\<lparr>rt_cooldown := cooldown_failure (rt_cooldown w) d (clock env w)\<rparr>)"

definition report_429 :: "route_env \<Rightarrow> route_world \<Rightarrow> deployment \<Rightarrow> duration \<Rightarrow> route_world" where
  "report_429 env w d retry_after =
     tick (w\<lparr>rt_backoff := report_rate_limit (rt_backoff w) (deployment_key d) retry_after
              (env_rand env (rw_pos w)) (clock env w)\<rparr>)"

text \<open>What Route does with a failed attempt that another deployment may take over.\<close>

definition report_attempt_error ::
  "route_env \<Rightarrow> route_world \<Rightarrow> deployment \<Rightarrow> goerror \<Rightarrow> failover_reason \<times> route_world" where
  "report_attempt_error env w d err =
     (case as_rate_limit err of
        Some (is_local, retry_after) \<Rightarrow>
          (FailoverRateLimited, if is_local then w else report_429 env w d retry_after)
      | None \<Rightarrow> (FailoverError, report_failure env w d))"

section \<open>One upstream attempt\<close>

definition invoke_estimate :: "route_options option \<Rightarrow> int" where
  "invoke_estimate opts = (case opts of None \<Rightarrow> 1 | Some o' \<Rightarrow> opt_estimated_tokens o')"

abbreviation has_opt :: "(route_options \<Rightarrow> bool) \<Rightarrow> route_options option \<Rightarrow> bool" where
  "has_opt f opts \<equiv> (case opts of None \<Rightarrow> False | Some o' \<Rightarrow> f o')"

text \<open>The usage snapshot of this moment, when the options have one.\<close>

definition usage_snapshot ::
  "route_env \<Rightarrow> route_world \<Rightarrow> route_options option \<Rightarrow> usage option \<times> route_world" where
  "usage_snapshot env w opts =
     (if has_opt opt_usage_snapshot opts then (env_usage env (rw_pos w), tick w) else (None, w))"

definition finish_in :: "route_world \<Rightarrow> capacity_reservation option \<Rightarrow> usage option \<Rightarrow> route_world" where
  "finish_in w res u = w\<lparr>rt_capacity := snd (finish (rt_capacity w) res u)\<rparr>"

definition invoke ::
  "golib \<Rightarrow> route_env \<Rightarrow> route_options option \<Rightarrow> route_world \<Rightarrow> deployment \<Rightarrow> string
   \<Rightarrow> (chat_response option \<times> route_stream option \<times> goerror option) \<times> route_world" where
  "invoke lib env opts w d pname =
     (case reserve lib (rt_capacity w) d (invoke_estimate opts) (clock env w) of
        (Inl err, l) \<Rightarrow> ((None, None, Some err), tick (w\<lparr>rt_capacity := l\<rparr>))
      | (Inr res, l) \<Rightarrow>
        (let w1 = tick (w\<lparr>rt_capacity := l\<rparr>);
             w2 = (if has_opt opt_before_attempt opts then emit (BeforeAttempt d pname) w1 else w1);
             (resp, stream, err) = env_call env (rw_pos w2) d;
             w3 = tick (emit (UpstreamCall d) w2);
             w4 = (if has_opt opt_after_attempt opts then emit (AfterAttempt resp err) w3 else w3)
         in case err of
              Some e \<Rightarrow>
                (let u = (if http_status e \<noteq> None then Some empty_usage else None);
                     (reported, w5) = usage_snapshot env w4 opts;
                     u' = (case reported of Some us \<Rightarrow> Some us | None \<Rightarrow> u)
                 in ((None, None, Some e), finish_in w5 res u'))
            | None \<Rightarrow>
                if has_opt opt_defer_reconcile opts
                then ((resp, map_option PlainStream stream, None), emit (DeferReconcile res) w4)
                else
                (let (reported, w5) = usage_snapshot env w4 opts
                 in case reported of
                      Some us \<Rightarrow> ((resp, map_option PlainStream stream, None), finish_in w5 res (Some us))
                    | None \<Rightarrow>
                      (case (stream, res) of
                         (Some st, Some r) \<Rightarrow>
                           ((resp, Some (LimitedStream \<lparr>cs_stream = st, cs_reservation = Some r, cs_usage = None\<rparr>), None), w5)
                       | _ \<Rightarrow>
                           ((resp, map_option PlainStream stream, None),
                            finish_in w5 res (case resp of Some rs \<Rightarrow> resp_usage rs | None \<Rightarrow> None))))))"

text \<open>
  The body shared by the three attempt sites of Route: record the deployment as tried, stop if the
  context is done, call it, and on an error either stop (an invalid request) or report it.
\<close>

datatype attempt = Succeeded | Stopped | Failover goerror

definition try_deployment ::
  "golib \<Rightarrow> route_env \<Rightarrow> route_options option \<Rightarrow> string \<Rightarrow> route_result \<Rightarrow> route_world \<Rightarrow> deployment
   \<Rightarrow> attempt \<times> route_result \<times> route_world" where
  "try_deployment lib env opts pname res w d =
     (let res1 = res\<lparr>rr_tried := rr_tried res @ [d]\<rparr> in
      case env_ctx env (rw_pos w) of
        Some e \<Rightarrow> (Stopped, res1\<lparr>rr_error := Some e\<rparr>, tick w)
      | None \<Rightarrow>
        (let ((resp, stream, err), w1) = invoke lib env opts (tick w) d pname in
         case err of
           None \<Rightarrow> (Succeeded, res1\<lparr>rr_response := resp, rr_stream := stream, rr_used := Some d\<rparr>, w1)
         | Some e \<Rightarrow>
             if is_invalid_request e then (Stopped, res1\<lparr>rr_error := Some e\<rparr>, w1)
             else (let (reason, w2) = report_attempt_error env w1 d e
                   in (Failover e, res1\<lparr>rr_reasons := rr_reasons res1 @ [reason]\<rparr>, w2))))"

section \<open>Routing through a pool\<close>

definition member_healthy ::
  "route_env \<Rightarrow> route_options option \<Rightarrow> route_world \<Rightarrow> deployment \<Rightarrow> bool \<times> route_world" where
  "member_healthy env opts w d =
     (if \<not> eligible_deployment opts d then (False, w)
      else
        let (cool, c) = in_cooldown (rt_cooldown w) d (clock env w);
            w1 = tick (w\<lparr>rt_cooldown := c\<rparr>)
        in if cool then (False, w1)
           else (\<not> in_backoff (rt_backoff w1) (deployment_key d) (clock env w1), tick w1))"

fun healthy_members ::
  "route_env \<Rightarrow> route_options option \<Rightarrow> route_world \<Rightarrow> deployment list \<Rightarrow> deployment list \<times> route_world" where
  "healthy_members env opts w [] = ([], w)"
| "healthy_members env opts w (d # ds) =
     (let (ok, w1) = member_healthy env opts w d;
          (hs, w2) = healthy_members env opts w1 ds
      in (if ok then d # hs else hs, w2))"

text \<open>
  \<open>unavailable\<close>: the smallest positive backoff wait of the deployments as a 429, or a 503 that names
  the first deployment's model. Each wait reads the clock.
\<close>

fun min_wait :: "route_env \<Rightarrow> backoff_manager \<Rightarrow> nat \<Rightarrow> deployment list \<Rightarrow> duration \<Rightarrow> duration" where
  "min_wait env b pos [] retry = retry"
| "min_wait env b pos (d # ds) retry =
     (let wait = backoff_retry_after b (deployment_key d) (env_now env pos)
      in min_wait env b (Suc pos) ds (if 0 < wait \<and> (retry = 0 \<or> wait < retry) then wait else retry))"

definition unavailable :: "route_env \<Rightarrow> route_world \<Rightarrow> deployment list \<Rightarrow> goerror" where
  "unavailable env w ds =
     (let retry = min_wait env (rt_backoff w) (rw_pos w) ds 0
      in if 0 < retry then RateLimitError False ''all deployments'' retry []
         else err_no_deployment_available (case ds of [] \<Rightarrow> ''configured model'' | d # _ \<Rightarrow> model_name d))"

definition select_from :: "route_env \<Rightarrow> route_world \<Rightarrow> nat \<Rightarrow> deployment list \<Rightarrow> deployment option \<times> route_world" where
  "select_from env w ref ds =
     (let (d, s) = strategy_select (env_rand env (rw_pos w)) (rt_strategies w ref) ds
      in (d, tick (w\<lparr>rt_strategies := (rt_strategies w)(ref := s)\<rparr>)))"

lemma select_from_shrinks:
  "select_from env w ref ds = (Some d, w') \<Longrightarrow> length (remove_deployment ds d) < length ds"
  by (auto simp: select_from_def split: prod.splits intro: strategy.sel_remove_shrinks)

text \<open>The strategy loop: \<open>last_err\<close> is the error of the latest attempt.\<close>

function route_members ::
  "golib \<Rightarrow> route_env \<Rightarrow> route_options option \<Rightarrow> pool \<Rightarrow> string \<Rightarrow> deployment list \<Rightarrow> goerror option
   \<Rightarrow> route_result \<Rightarrow> route_world \<Rightarrow> route_result \<times> route_world" where
  "route_members lib env opts p sticky_key healthy last_err res w =
     (let exhausted = (\<lambda>w. (res\<lparr>rr_error := Some (case last_err of Some e \<Rightarrow> e
             | None \<Rightarrow> unavailable env w (pool_members p))\<rparr>, w))
      in if healthy = [] then exhausted w
         else case select_from env w (pool_strategy p) healthy of
           (None, w1) \<Rightarrow> exhausted w1
         | (Some d, w1) \<Rightarrow>
             (case try_deployment lib env opts (pool_name p) res w1 d of
                (Succeeded, res2, w2) \<Rightarrow>
                  (res2, if sticky_key \<noteq> []
                         then tick (w2\<lparr>rt_sticky := sticky_set (rt_sticky w2) sticky_key (pool_name p)
                                (deployment_key d) (clock env w2)\<rparr>) else w2)
              | (Stopped, res2, w2) \<Rightarrow> (res2, w2)
              | (Failover e, res2, w2) \<Rightarrow>
                  route_members lib env opts p sticky_key (remove_deployment healthy d) (Some e) res2 w2))"
  by pat_completeness auto
termination
  by (relation "measure (\<lambda>(lib, env, opts, p, sk, healthy, le, res, w). length healthy)")
    (auto dest!: select_from_shrinks [OF sym])

declare route_members.simps [simp del]

text \<open>The read of the sticky mapping takes two clock readings.\<close>

definition sticky_lookup ::
  "route_env \<Rightarrow> route_world \<Rightarrow> string \<Rightarrow> string \<Rightarrow> string \<times> route_world" where
  "sticky_lookup env w sticky_key pname =
     (let (k, sm) = sticky_get (rt_sticky w) sticky_key pname (clock env w) (clock env (tick w))
      in (k, tick (tick (w\<lparr>rt_sticky := sm\<rparr>))))"

definition pool_has_budget :: "route_env \<Rightarrow> route_world \<Rightarrow> string \<Rightarrow> bool \<times> route_world" where
  "pool_has_budget env w pname =
     (let (ok, b) = has_budget (rt_budget w) pname (env_today env (rw_pos w))
      in (ok, tick (w\<lparr>rt_budget := b\<rparr>)))"

definition route_pool ::
  "golib \<Rightarrow> route_env \<Rightarrow> route_options option \<Rightarrow> pool \<Rightarrow> string \<Rightarrow> route_result \<Rightarrow> route_world
   \<Rightarrow> route_result \<times> route_world" where
  "route_pool lib env opts p sticky_key res0 w =
     (let res = res0\<lparr>rr_pool := pool_name p\<rparr>;
          (ok, w1) = pool_has_budget env w (pool_name p)
      in if \<not> ok then
           (res\<lparr>rr_reasons := rr_reasons res @ [FailoverBudgetExhausted],
                rr_error := Some (PlainError (''pool '' @ dquoted (pool_name p) @ '' daily budget exhausted''))\<rparr>, w1)
         else
           let (healthy, w2) = healthy_members env opts w1 (pool_members p)
           in if sticky_key = [] then route_members lib env opts p sticky_key healthy None res w2
              else
                let (cached, w3) = sticky_lookup env w2 sticky_key (pool_name p)
                in case (if cached = [] then None else find_deployment_by_key healthy cached) of
                     None \<Rightarrow> route_members lib env opts p sticky_key healthy None res w3
                   | Some d \<Rightarrow>
                       (case try_deployment lib env opts (pool_name p) res w3 d of
                          (Succeeded, res2, w4) \<Rightarrow> (res2, w4)
                        | (Stopped, res2, w4) \<Rightarrow> (res2, w4)
                        | (Failover e, res2, w4) \<Rightarrow>
                            route_members lib env opts p sticky_key (remove_deployment healthy d) (Some e) res2 w4))"

section \<open>Models outside every pool\<close>

definition untried_healthy ::
  "route_env \<Rightarrow> route_world \<Rightarrow> nat set \<Rightarrow> deployment \<Rightarrow> bool \<times> route_world" where
  "untried_healthy env w tried d =
     (let (cool, c) = in_cooldown (rt_cooldown w) d (clock env w);
          w1 = tick (w\<lparr>rt_cooldown := c\<rparr>)
      in if cool then (False, w1)
         else (\<not> in_backoff (rt_backoff w1) (deployment_key d) (clock env w1) \<and> dep_id d \<notin> tried, tick w1))"

fun untried_members ::
  "route_env \<Rightarrow> route_world \<Rightarrow> nat set \<Rightarrow> deployment list \<Rightarrow> deployment list \<times> route_world" where
  "untried_members env w tried [] = ([], w)"
| "untried_members env w tried (d # ds) =
     (let (ok, w1) = untried_healthy env w tried d;
          (hs, w2) = untried_members env w1 tried ds
      in (if ok then d # hs else hs, w2))"

abbreviation deployments_of :: "('a) router_scheme \<Rightarrow> string \<Rightarrow> deployment list option" where
  "deployments_of r m \<equiv> map_of (rt_deployments r) m"

definition get_deployment_with_retry ::
  "route_env \<Rightarrow> route_world \<Rightarrow> string \<Rightarrow> nat set \<Rightarrow> (string + deployment option) \<times> route_world" where
  "get_deployment_with_retry env w m tried =
     (case deployments_of w m of
        None \<Rightarrow> (Inl (''model not found: '' @ m), w)
      | Some ds \<Rightarrow>
          if ds = [] then (Inl (''model not found: '' @ m), w)
          else
            let (healthy, w1) = untried_members env w tried ds
            in if healthy = [] then (Inl (''no healthy deployment available for '' @ m), w1)
               else (let (d, w2) = select_from env w1 (rt_strategy w1) healthy in (Inr d, w2)))"

text \<open>
  The attempts left and whether this is the first one. \<open>Inr None\<close>, a nil deployment without an
  error, is not returned: a strategy selects from a list that is not empty.
\<close>

fun legacy_attempts ::
  "golib \<Rightarrow> route_env \<Rightarrow> route_options option \<Rightarrow> string \<Rightarrow> nat \<Rightarrow> bool \<Rightarrow> nat set \<Rightarrow> goerror option
   \<Rightarrow> route_result \<Rightarrow> route_world \<Rightarrow> route_result \<times> route_world" where
  "legacy_attempts lib env opts m 0 first tried last_err res w = (res\<lparr>rr_error := last_err\<rparr>, w)"
| "legacy_attempts lib env opts m (Suc n) first tried last_err res w =
     (case get_deployment_with_retry env w m tried of
        (Inl e, w1) \<Rightarrow>
          if first
          then (res\<lparr>rr_error := Some (case deployments_of w1 m of
                  None \<Rightarrow> err_model_not_found m | Some ds \<Rightarrow> unavailable env w1 ds)\<rparr>, w1)
          else (res\<lparr>rr_error := last_err\<rparr>, w1)
      | (Inr None, w1) \<Rightarrow> (res, w1)
      | (Inr (Some d), w1) \<Rightarrow>
          (case try_deployment lib env opts [] res w1 d of
             (Succeeded, res2, w2) \<Rightarrow> (res2, w2)
           | (Stopped, res2, w2) \<Rightarrow> (res2, w2)
           | (Failover e, res2, w2) \<Rightarrow>
               legacy_attempts lib env opts m n False (insert (dep_id d) tried) (Some e) res2 w2))"

definition ineligible_ids :: "route_options option \<Rightarrow> deployment list \<Rightarrow> nat set" where
  "ineligible_ids opts ds = dep_id ` set (filter (\<lambda>d. \<not> eligible_deployment opts d) ds)"

definition route_legacy ::
  "golib \<Rightarrow> route_env \<Rightarrow> route_options option \<Rightarrow> string \<Rightarrow> route_result \<Rightarrow> route_world
   \<Rightarrow> route_result \<times> route_world" where
  "route_legacy lib env opts m res w =
     legacy_attempts lib env opts m (nat (num_retries (rt_settings w) + 1)) True
       (case deployments_of w m of None \<Rightarrow> {} | Some ds \<Rightarrow> ineligible_ids opts ds) None res w"

section \<open>Route\<close>

definition serves_model :: "pool \<Rightarrow> string \<Rightarrow> bool" where
  "serves_model p m = list_ex (\<lambda>d. model_name d = m) (pool_members p)"

definition alt_pools :: "('a) router_scheme \<Rightarrow> pool \<Rightarrow> string \<Rightarrow> pool list" where
  "alt_pools r p m = filter (\<lambda>q. pool_id q \<noteq> pool_id p \<and> serves_model q m) (map snd (rt_pools r))"

fun route_alts ::
  "golib \<Rightarrow> route_env \<Rightarrow> route_options option \<Rightarrow> string \<Rightarrow> pool list \<Rightarrow> route_result \<Rightarrow> route_world
   \<Rightarrow> bool \<times> route_result \<times> route_world" where
  "route_alts lib env opts sticky_key [] res w = (False, res, w)"
| "route_alts lib env opts sticky_key (p # ps) res w =
     (let (alt, w1) = route_pool lib env opts p sticky_key (empty_result\<lparr>rr_reasons := rr_reasons res\<rparr>) w
      in if rr_error alt = None then (True, alt, w1)
         else route_alts lib env opts sticky_key ps
                (res\<lparr>rr_reasons := rr_reasons alt, rr_error := rr_error alt\<rparr>) w1)"

definition budget_error :: "string \<Rightarrow> goerror" where
  "budget_error m = PlainError (''budget exhausted for all available pools serving model '' @ dquoted m)"

definition route ::
  "golib \<Rightarrow> route_env \<Rightarrow> route_options option \<Rightarrow> string \<Rightarrow> string \<Rightarrow> route_world
   \<Rightarrow> route_result \<times> route_world" where
  "route lib env opts m sticky_key w0 =
     (let w = tick w0 in
      case env_ctx env (rw_pos w0) of
        Some e \<Rightarrow> (empty_result\<lparr>rr_error := Some e\<rparr>, w)
      | None \<Rightarrow>
        (case rt_model_to_pool w m of
           None \<Rightarrow> route_legacy lib env opts m empty_result w
         | Some p \<Rightarrow>
           (let (res, w1) = route_pool lib env opts p sticky_key empty_result w
            in if rr_error res = None then (res, w1)
               else
                 let (ok, w2) = pool_has_budget env w1 (pool_name p);
                     (found, res2, w3) =
                       (if \<not> ok \<or> \<not> pool_has_eligible_deployment p opts
                        then route_alts lib env opts sticky_key (alt_pools w2 p m) res w2
                        else (False, res, w2))
                 in if found then (res2, w3)
                    else if FailoverBudgetExhausted \<in> set (rr_reasons res2)
                    then (res2\<lparr>rr_error := Some (budget_error m)\<rparr>, w3)
                    else (res2, w3))))"

section \<open>Response headers\<close>

text \<open>\<open>strings.Join(xs, ", ")\<close>.\<close>

fun join_comma :: "string list \<Rightarrow> string" where
  "join_comma [] = []"
| "join_comma [x] = x"
| "join_comma (x # y # xs) = x @ '', '' @ join_comma (y # xs)"

definition provider_model :: "deployment \<Rightarrow> string" where
  "provider_model d = provider_name d @ ''/'' @ actual_model d"

definition default_base_url :: "string \<Rightarrow> string" where
  "default_base_url p =
     (if p = ''openai'' then ''https://api.openai.com/v1''
      else if p = ''anthropic'' then ''https://api.anthropic.com''
      else if p = ''openrouter'' then ''https://openrouter.ai/api/v1''
      else if p = ''gemini'' then ''https://generativelanguage.googleapis.com''
      else [])"

definition set_route_headers :: "route_result option \<Rightarrow> (string \<times> string) list" where
  "set_route_headers ro =
     (case ro of None \<Rightarrow> []
      | Some r \<Rightarrow> (case rr_used r of None \<Rightarrow> []
        | Some d \<Rightarrow>
            [(''X-Provider-Used'', provider_model d),
             (''X-Provider-URL-Used'', if api_base d = [] then default_base_url (provider_name d) else api_base d)]
            @ (if rr_tried r = [] then [] else [(''X-Providers-Tried'', join_comma (map provider_model (rr_tried r)))])
            @ (if rr_reasons r = [] then []
               else [(''X-Failover-Reason'', join_comma (map failover_reason_text (rr_reasons r)))])))"

section \<open>Decision deployments\<close>

fun add_unseen :: "deployment list \<Rightarrow> deployment list \<Rightarrow> deployment list" where
  "add_unseen out [] = out"
| "add_unseen out (d # ds) =
     add_unseen (if decision d \<noteq> None \<and> dep_id d \<notin> dep_id ` set out then out @ [d] else out) ds"

fun add_pools :: "string \<Rightarrow> deployment list \<Rightarrow> pool list \<Rightarrow> deployment list" where
  "add_pools name out [] = out"
| "add_pools name out (p # ps) =
     add_pools name (if serves_model p name then add_unseen out (pool_members p) else out) ps"

definition decision_deployments :: "('a) router_scheme \<Rightarrow> string \<Rightarrow> deployment list \<times> bool" where
  "decision_deployments r name =
     (case deployments_of r name of
        None \<Rightarrow> ([], False)
      | Some direct \<Rightarrow>
          (let out = filter (\<lambda>d. decision d \<noteq> None) direct
           in if out = [] then (out, True)
              else (add_pools name out (map snd (rt_pools r)), True)))"

section \<open>What one attempt changes\<close>

fun calls_in :: "route_event list \<Rightarrow> deployment list" where
  "calls_in [] = []"
| "calls_in (UpstreamCall d # es) = d # calls_in es"
| "calls_in (e # es) = calls_in es"

lemma calls_in_append [simp]: "calls_in (xs @ ys) = calls_in xs @ calls_in ys"
  by (induction xs rule: calls_in.induct) simp_all

definition upstream_calls :: "route_world \<Rightarrow> deployment list" where
  "upstream_calls w = calls_in (rw_events w)"

text \<open>The parts of the router that routing never touches, and those an attempt leaves to its report.\<close>

definition same_config :: "route_world \<Rightarrow> route_world \<Rightarrow> bool" where
  "same_config w w' \<longleftrightarrow> rt_deployments w' = rt_deployments w \<and> rt_settings w' = rt_settings w
     \<and> rt_pools w' = rt_pools w \<and> rt_model_to_pool w' = rt_model_to_pool w \<and> rt_strategy w' = rt_strategy w"

definition same_health :: "route_world \<Rightarrow> route_world \<Rightarrow> bool" where
  "same_health w w' \<longleftrightarrow> rt_cooldown w' = rt_cooldown w \<and> rt_backoff w' = rt_backoff w"

lemma same_config_refl [simp]: "same_config w w"
  by (simp add: same_config_def)

lemma same_config_trans: "same_config w w1 \<Longrightarrow> same_config w1 w2 \<Longrightarrow> same_config w w2"
  by (simp add: same_config_def)

lemma tick_simps [simp]:
  "rt_cooldown (tick w) = rt_cooldown w" "rt_backoff (tick w) = rt_backoff w"
  "rt_budget (tick w) = rt_budget w" "rt_sticky (tick w) = rt_sticky w"
  "rt_capacity (tick w) = rt_capacity w" "rt_strategies (tick w) = rt_strategies w"
  "rw_events (tick w) = rw_events w" "rw_pos (tick w) = Suc (rw_pos w)"
  "rt_deployments (tick w) = rt_deployments w" "rt_settings (tick w) = rt_settings w"
  "rt_pools (tick w) = rt_pools w" "rt_model_to_pool (tick w) = rt_model_to_pool w"
  "rt_strategy (tick w) = rt_strategy w"
  by (simp_all add: tick_def)

lemma emit_simps [simp]:
  "rt_cooldown (emit e w) = rt_cooldown w" "rt_backoff (emit e w) = rt_backoff w"
  "rt_budget (emit e w) = rt_budget w" "rt_sticky (emit e w) = rt_sticky w"
  "rt_strategies (emit e w) = rt_strategies w" "rt_strategy (emit e w) = rt_strategy w"
  "rt_deployments (emit e w) = rt_deployments w" "rt_settings (emit e w) = rt_settings w"
  "rt_pools (emit e w) = rt_pools w" "rt_model_to_pool (emit e w) = rt_model_to_pool w"
  by (simp_all add: emit_def)

lemma upstream_calls_simps [simp]: "upstream_calls (tick w) = upstream_calls w"
  by (simp add: upstream_calls_def)

lemma usage_snapshot_frame:
  "usage_snapshot env w opts = (u, w') \<Longrightarrow> same_config w w' \<and> same_health w w' \<and> rw_events w' = rw_events w"
  by (auto simp: usage_snapshot_def same_config_def same_health_def split: if_splits)

lemma finish_in_frame [simp]:
  "same_config w (finish_in w0 res u) = same_config w w0"
  "same_health w (finish_in w0 res u) = same_health w w0"
  "rw_events (finish_in w0 res u) = rw_events w0"
  by (simp_all add: finish_in_def same_config_def same_health_def)

lemma emit_frame [simp]:
  "same_config w (emit e w0) = same_config w w0" "same_health w (emit e w0) = same_health w w0"
  "rw_events (emit e w0) = rw_events w0 @ [e]" "rw_pos (emit e w0) = rw_pos w0"
  "same_config w (tick w0) = same_config w w0" "same_health w (tick w0) = same_health w w0"
  "same_config w (w0\<lparr>rt_capacity := l\<rparr>) = same_config w w0"
  "same_health w (w0\<lparr>rt_capacity := l\<rparr>) = same_health w w0"
  by (simp_all add: emit_def same_config_def same_health_def)

lemma invoke_admitted:
  assumes "reserve lib (rt_capacity w) d (invoke_estimate opts) (clock env w) = (Inr res, l)"
    and "invoke lib env opts w d pname = ((resp, stream, err), w')"
  shows "same_config w w' \<and> same_health w w' \<and> calls_in (rw_events w') = calls_in (rw_events w) @ [d]
    \<and> (\<exists>n. err = snd (snd (env_call env n d)))"
proof -
  define w2 where "w2 = (if has_opt opt_before_attempt opts
    then emit (BeforeAttempt d pname) (tick (w\<lparr>rt_capacity := l\<rparr>)) else tick (w\<lparr>rt_capacity := l\<rparr>))"
  obtain r s e where call: "env_call env (rw_pos w2) d = (r, s, e)" by (metis prod_cases3)
  define w4 where "w4 = (if has_opt opt_after_attempt opts
    then emit (AfterAttempt r e) (tick (emit (UpstreamCall d) w2)) else tick (emit (UpstreamCall d) w2))"
  obtain u w5 where snap: "usage_snapshot env w4 opts = (u, w5)" by (cases "usage_snapshot env w4 opts")
  have w4: "same_config w w4 \<and> same_health w w4 \<and> calls_in (rw_events w4) = calls_in (rw_events w) @ [d]"
    unfolding w4_def w2_def by (simp add: same_config_def same_health_def)
  have w5: "same_config w w5 \<and> same_health w w5 \<and> calls_in (rw_events w5) = calls_in (rw_events w) @ [d]"
    using w4 usage_snapshot_frame [OF snap] by (auto simp: same_config_def same_health_def)
  have eq: "invoke lib env opts w d pname =
     (case e of
        Some x \<Rightarrow> ((None, None, Some x), finish_in w5 res (case u of Some us \<Rightarrow> Some us
              | None \<Rightarrow> (if http_status x \<noteq> None then Some empty_usage else None)))
      | None \<Rightarrow> if has_opt opt_defer_reconcile opts
          then ((r, map_option PlainStream s, None), emit (DeferReconcile res) w4)
          else (case u of Some us \<Rightarrow> ((r, map_option PlainStream s, None), finish_in w5 res (Some us))
                | None \<Rightarrow> (case (s, res) of
                     (Some st, Some rv) \<Rightarrow>
                       ((r, Some (LimitedStream \<lparr>cs_stream = st, cs_reservation = Some rv, cs_usage = None\<rparr>), None), w5)
                   | _ \<Rightarrow> ((r, map_option PlainStream s, None),
                        finish_in w5 res (case r of Some rs \<Rightarrow> resp_usage rs | None \<Rightarrow> None)))))"
    unfolding invoke_def assms(1) prod.case sum.case Let_def w2_def [symmetric] call w4_def [symmetric] snap
    by (rule refl)
  have err: "err = e"
    using assms(2) unfolding eq by (auto split: option.splits if_splits prod.splits)
  have "same_config w w' \<and> same_health w w' \<and> calls_in (rw_events w') = calls_in (rw_events w) @ [d]"
    using assms(2) w4 w5 unfolding eq by (auto split: option.splits if_splits prod.splits)
  with err call show ?thesis by (metis snd_conv)
qed

lemma reserve_error:
  "reserve lib l d n t = (Inl e, l') \<Longrightarrow> \<exists>ra. e = RateLimitError True (provider_name d) ra []"
  by (auto simp: reserve_def Let_def split: if_splits)

lemma invoke_cases:
  assumes "invoke lib env opts w d pname = ((resp, stream, err), w')"
  shows "same_config w w' \<and> same_health w w'
    \<and> (((\<exists>ra. err = Some (RateLimitError True (provider_name d) ra []))
          \<and> calls_in (rw_events w') = calls_in (rw_events w))
       \<or> (calls_in (rw_events w') = calls_in (rw_events w) @ [d]
          \<and> (\<exists>n. err = snd (snd (env_call env n d)))))"
proof (cases "fst (reserve lib (rt_capacity w) d (invoke_estimate opts) (clock env w))")
  case (Inl e)
  then obtain l where r: "reserve lib (rt_capacity w) d (invoke_estimate opts) (clock env w) = (Inl e, l)"
    by (metis prod.collapse)
  have "err = Some e" "w' = tick (w\<lparr>rt_capacity := l\<rparr>)"
    using assms by (simp_all add: invoke_def r)
  then show ?thesis using reserve_error [OF r] by (simp add: same_health_def same_config_def)
next
  case (Inr res)
  then obtain l where r: "reserve lib (rt_capacity w) d (invoke_estimate opts) (clock env w) = (Inr res, l)"
    by (metis prod.collapse)
  show ?thesis using invoke_admitted [OF r assms] by blast
qed

definition attempt_reason :: "failover_reason \<Rightarrow> bool" where
  "attempt_reason r \<longleftrightarrow> r = FailoverRateLimited \<or> r = FailoverError"

lemma report_attempt_error_frame:
  assumes "report_attempt_error env w d e = (r, w')"
  shows "same_config w w' \<and> attempt_reason r \<and> upstream_calls w' = upstream_calls w"
  using assms
  by (auto simp: report_attempt_error_def report_429_def report_failure_def same_config_def
      attempt_reason_def upstream_calls_def split: option.splits prod.splits if_splits)

definition attempt_outcome ::
  "attempt \<Rightarrow> route_result \<Rightarrow> deployment \<Rightarrow> route_result \<Rightarrow> bool" where
  "attempt_outcome a res d res' =
     (case a of
        Succeeded \<Rightarrow> rr_error res' = rr_error res \<and> rr_used res' = Some d \<and> rr_reasons res' = rr_reasons res
      | Stopped \<Rightarrow> rr_error res' \<noteq> None \<and> rr_used res' = rr_used res \<and> rr_reasons res' = rr_reasons res
      | Failover e \<Rightarrow> rr_error res' = rr_error res \<and> rr_used res' = rr_used res
          \<and> (\<exists>r. attempt_reason r \<and> rr_reasons res' = rr_reasons res @ [r]))"

lemma try_deployment_frame:
  assumes "try_deployment lib env opts pname res w d = (a, res', w')"
  shows "same_config w w' \<and> rr_tried res' = rr_tried res @ [d] \<and> attempt_outcome a res d res'
    \<and> (upstream_calls w' = upstream_calls w \<or> upstream_calls w' = upstream_calls w @ [d])"
proof (cases "env_ctx env (rw_pos w)")
  case (Some e)
  then show ?thesis using assms
    by (auto simp: try_deployment_def attempt_outcome_def same_config_def)
next
  case None
  obtain resp stream err w1 where inv: "invoke lib env opts (tick w) d pname = ((resp, stream, err), w1)"
    by (metis surj_pair)
  note f = invoke_cases [OF inv]
  have c1: "same_config w w1" using f by (simp add: same_config_def)
  have u1: "upstream_calls w1 = upstream_calls w \<or> upstream_calls w1 = upstream_calls w @ [d]"
    using f by (auto simp: upstream_calls_def)
  show ?thesis
  proof (cases err)
    case None
    then show ?thesis using assms \<open>env_ctx env (rw_pos w) = None\<close> inv c1 u1
      by (auto simp: try_deployment_def attempt_outcome_def)
  next
    case (Some e)
    obtain r w2 where rep: "report_attempt_error env w1 d e = (r, w2)"
      by (cases "report_attempt_error env w1 d e")
    note g = report_attempt_error_frame [OF rep]
    show ?thesis
    proof (cases "is_invalid_request e")
      case True
      then show ?thesis using assms \<open>env_ctx env (rw_pos w) = None\<close> inv c1 u1 Some
        by (auto simp: try_deployment_def attempt_outcome_def)
    next
      case False
      then show ?thesis using assms \<open>env_ctx env (rw_pos w) = None\<close> inv c1 u1 Some rep g same_config_trans [OF c1]
        by (auto simp: try_deployment_def attempt_outcome_def)
    qed
  qed
qed

section \<open>The failover loop\<close>

text \<open>
  What the loop adds to a result: the newly tried deployments come from \<open>healthy\<close>, none twice, the new
  upstream calls are a subsequence of them, and every tried deployment but the last one has its
  failover reason.
\<close>

definition failover_run ::
  "deployment list \<Rightarrow> route_result \<Rightarrow> route_world \<Rightarrow> route_result \<Rightarrow> route_world \<Rightarrow> bool" where
  "failover_run healthy res w res' w' \<longleftrightarrow>
     (\<exists>ds cs rs. rr_tried res' = rr_tried res @ ds \<and> distinct_deps ds \<and> set ds \<subseteq> set healthy
        \<and> upstream_calls w' = upstream_calls w @ cs \<and> subseq cs ds
        \<and> rr_reasons res' = rr_reasons res @ rs \<and> list_all attempt_reason rs
        \<and> (if rr_error res' = None
           then rr_used res' = Some (last ds) \<and> length ds = Suc (length rs)
           else rr_used res' = rr_used res \<and> length rs \<le> length ds))"

lemma failover_run_step:
  assumes "d \<in> set healthy" "rr_tried res1 = rr_tried res @ [d]"
    and "upstream_calls w1 = upstream_calls w \<or> upstream_calls w1 = upstream_calls w @ [d]"
    and "attempt_reason r" "rr_reasons res1 = rr_reasons res @ [r]" "rr_used res1 = rr_used res"
    and "failover_run (remove_deployment healthy d) res1 w1 res' w'"
  shows "failover_run healthy res w res' w'"
proof -
  obtain ds cs rs where ih: "rr_tried res' = rr_tried res1 @ ds" "distinct_deps ds"
      "set ds \<subseteq> set (remove_deployment healthy d)" "upstream_calls w' = upstream_calls w1 @ cs" "subseq cs ds"
      "rr_reasons res' = rr_reasons res1 @ rs" "list_all attempt_reason rs"
      "if rr_error res' = None then rr_used res' = Some (last ds) \<and> length ds = Suc (length rs)
       else rr_used res' = rr_used res1 \<and> length rs \<le> length ds"
    using assms(7) unfolding failover_run_def by blast
  obtain cs0 where cs0: "upstream_calls w1 = upstream_calls w @ cs0" "cs0 = [] \<or> cs0 = [d]"
    using assms(3) by auto
  have dist: "distinct_deps (d # ds)"
    using ih(2,3) by (auto simp: set_remove_deployment)
  have sub: "set (d # ds) \<subseteq> set healthy"
    using ih(3) assms(1) by (auto simp: set_remove_deployment)
  have sq: "subseq (cs0 @ cs) (d # ds)" using cs0(2) ih(5) by auto
  have ne: "ds \<noteq> []" if "rr_error res' = None" using ih(8) that by (auto split: if_splits)
  show ?thesis
    unfolding failover_run_def
    by (rule exI [of _ "d # ds"], rule exI [of _ "cs0 @ cs"], rule exI [of _ "r # rs"])
      (use ih assms dist sub sq ne cs0 in \<open>auto split: if_splits\<close>)
qed

lemma select_from_frame:
  assumes "select_from env w ref ds = (d, w')"
  shows "same_config w w' \<and> same_health w w' \<and> upstream_calls w' = upstream_calls w
    \<and> rw_events w' = rw_events w \<and> rt_budget w' = rt_budget w"
  using assms
  by (auto simp: select_from_def same_config_def same_health_def upstream_calls_def split: prod.splits)

lemma select_from_Some:
  "ds \<noteq> [] \<Longrightarrow> \<exists>d w'. select_from env w ref ds = (Some d, w') \<and> d \<in> set ds"
  using strategy.sel_in [where ds = ds and r = "env_rand env (rw_pos w)" and s = "rt_strategies w ref"]
  by (auto simp: select_from_def)

lemma failover_run_stop:
  assumes "d \<in> set healthy" "rr_tried res' = rr_tried res @ [d]"
    and "upstream_calls w' = upstream_calls w \<or> upstream_calls w' = upstream_calls w @ [d]"
    and "rr_reasons res' = rr_reasons res"
    and "if rr_error res' = None then rr_used res' = Some d else rr_used res' = rr_used res"
  shows "failover_run healthy res w res' w'"
proof -
  obtain cs0 where cs0: "upstream_calls w' = upstream_calls w @ cs0" "cs0 = [] \<or> cs0 = [d]"
    using assms(3) by auto
  show ?thesis
    unfolding failover_run_def
    by (rule exI [of _ "[d]"], rule exI [of _ cs0], rule exI [of _ "[]"]) (use assms cs0 in auto)
qed

lemma route_members_empty:
  "route_members lib env opts p sk [] le res w =
     (res\<lparr>rr_error := Some (case le of Some e \<Rightarrow> e | None \<Rightarrow> unavailable env w (pool_members p))\<rparr>, w)"
  by (subst route_members.simps) (simp add: Let_def)

lemma route_members_step:
  assumes "select_from env w (pool_strategy p) healthy = (Some d, w1)" "healthy \<noteq> []"
    and "try_deployment lib env opts (pool_name p) res w1 d = (a, res2, w2)"
  shows "route_members lib env opts p sk healthy le res w =
     (case a of
        Succeeded \<Rightarrow> (res2, if sk \<noteq> [] then tick (w2\<lparr>rt_sticky := sticky_set (rt_sticky w2) sk (pool_name p)
              (deployment_key d) (clock env w2)\<rparr>) else w2)
      | Stopped \<Rightarrow> (res2, w2)
      | Failover e \<Rightarrow> route_members lib env opts p sk (remove_deployment healthy d) (Some e) res2 w2)"
  by (subst route_members.simps) (simp add: assms Let_def split: attempt.splits)

lemma set_sticky_frame [simp]:
  "same_config w (w0\<lparr>rt_sticky := x\<rparr>) = same_config w w0"
  "upstream_calls (w0\<lparr>rt_sticky := x\<rparr>) = upstream_calls w0"
  by (simp_all add: same_config_def upstream_calls_def)

lemma route_members_run:
  assumes "rr_error res = None"
    and "route_members lib env opts p sk healthy le res w = (res', w')"
  shows "failover_run healthy res w res' w' \<and> same_config w w'"
  using assms
proof (induction "length healthy" arbitrary: healthy le res w rule: less_induct)
  case less
  show ?case
  proof (cases "healthy = []")
    case True
    then show ?thesis using less.prems
      by (auto simp: route_members_empty failover_run_def)
  next
    case False
    obtain d w1 where sel: "select_from env w (pool_strategy p) healthy = (Some d, w1)" "d \<in> set healthy"
      using select_from_Some [OF False] by metis
    obtain a res2 w2 where att: "try_deployment lib env opts (pool_name p) res w1 d = (a, res2, w2)"
      by (metis prod_cases3)
    note step = route_members_step [OF sel(1) False att, of sk le]
    note sf = select_from_frame [OF sel(1)]
    note tf = try_deployment_frame [OF att]
    have c: "same_config w w2" using sf tf same_config_trans by blast
    have u: "upstream_calls w2 = upstream_calls w \<or> upstream_calls w2 = upstream_calls w @ [d]"
      using sf tf by simp
    show ?thesis
    proof (cases a)
      case Succeeded
      then have out: "rr_error res2 = None" "rr_used res2 = Some d" "rr_reasons res2 = rr_reasons res"
        using tf less.prems(1) by (simp_all add: attempt_outcome_def)
      have r: "res' = res2" "same_config w2 w'" "upstream_calls w' = upstream_calls w2"
        using less.prems(2) step Succeeded by (auto split: if_splits)
      have "failover_run healthy res w res' w'"
        by (rule failover_run_stop [OF sel(2)]) (use tf out r u in simp_all)
      then show ?thesis using c r same_config_trans by blast
    next
      case Stopped
      then have out: "rr_error res2 \<noteq> None" "rr_used res2 = rr_used res" "rr_reasons res2 = rr_reasons res"
        using tf by (simp_all add: attempt_outcome_def)
      have r: "res' = res2" "w' = w2" using less.prems(2) step Stopped by auto
      have "failover_run healthy res w res' w'"
        by (rule failover_run_stop [OF sel(2)]) (use tf out r u in auto)
      then show ?thesis using c r by simp
    next
      case (Failover e)
      then obtain rn where out: "rr_error res2 = None" "rr_used res2 = rr_used res"
          "attempt_reason rn" "rr_reasons res2 = rr_reasons res @ [rn]"
        using tf less.prems(1) by (auto simp: attempt_outcome_def)
      have rest: "route_members lib env opts p sk (remove_deployment healthy d) (Some e) res2 w2 = (res', w')"
        using less.prems(2) step Failover by simp
      have ih: "failover_run (remove_deployment healthy d) res2 w2 res' w' \<and> same_config w2 w'"
        by (rule less.hyps [OF length_remove_deployment [OF sel(2)] out(1) rest])
      have "failover_run healthy res w res' w'"
        by (rule failover_run_step [OF sel(2) _ u out(3,4,2)]) (use tf ih in simp_all)
      then show ?thesis using c ih same_config_trans by blast
    qed
  qed
qed

lemma member_healthy_frame:
  assumes "member_healthy env opts w d = (ok, w')"
  shows "same_config w w' \<and> upstream_calls w' = upstream_calls w \<and> rt_backoff w' = rt_backoff w
    \<and> (ok \<longrightarrow> eligible_deployment opts d)"
  using assms
  by (auto simp: member_healthy_def Let_def same_config_def upstream_calls_def split: if_splits prod.splits)

lemma healthy_members_frame:
  assumes "healthy_members env opts w ds = (hs, w')"
  shows "same_config w w' \<and> upstream_calls w' = upstream_calls w \<and> rt_backoff w' = rt_backoff w
    \<and> set hs \<subseteq> {d \<in> set ds. eligible_deployment opts d}"
  using assms
proof (induction ds arbitrary: w hs w')
  case Nil
  then show ?case by simp
next
  case (Cons d ds)
  obtain ok w1 where m: "member_healthy env opts w d = (ok, w1)" by (cases "member_healthy env opts w d")
  obtain hs2 w2 where r: "healthy_members env opts w1 ds = (hs2, w2)" by (cases "healthy_members env opts w1 ds")
  have eq: "hs = (if ok then d # hs2 else hs2)" "w' = w2" using Cons.prems by (auto simp: m r)
  show ?case
    using member_healthy_frame [OF m] Cons.IH [OF r] eq
    by (auto simp: same_config_def split: if_splits)
qed

lemma healthy_members_sticky:
  "healthy_members env opts w ds = (hs, w') \<Longrightarrow> rt_sticky w' = rt_sticky w"
proof (induction ds arbitrary: w hs w')
  case Nil
  then show ?case by simp
next
  case (Cons d ds)
  obtain ok w1 where m: "member_healthy env opts w d = (ok, w1)" by (cases "member_healthy env opts w d")
  obtain hs2 w2 where r: "healthy_members env opts w1 ds = (hs2, w2)" by (cases "healthy_members env opts w1 ds")
  have "rt_sticky w1 = rt_sticky w"
    using m by (auto simp: member_healthy_def Let_def split: if_splits prod.splits)
  then show ?case using Cons.prems Cons.IH [OF r] by (simp add: m r)
qed

lemma sticky_lookup_frame:
  assumes "sticky_lookup env w sk pn = (k, w')"
  shows "same_config w w' \<and> same_health w w' \<and> upstream_calls w' = upstream_calls w"
  using assms
  by (auto simp: sticky_lookup_def same_config_def same_health_def upstream_calls_def split: prod.splits)

lemma pool_has_budget_fst:
  "fst (pool_has_budget env w pn) = fst (has_budget (rt_budget w) pn (env_today env (rw_pos w)))"
  by (simp add: pool_has_budget_def split_beta)

lemma pool_has_budget_frame:
  assumes "pool_has_budget env w pn = (ok, w')"
  shows "same_config w w' \<and> same_health w w' \<and> upstream_calls w' = upstream_calls w
    \<and> rw_events w' = rw_events w \<and> rt_capacity w' = rt_capacity w \<and> rt_sticky w' = rt_sticky w
    \<and> rt_strategies w' = rt_strategies w"
  using assms
  by (auto simp: pool_has_budget_def same_config_def same_health_def upstream_calls_def split: prod.splits)

lemma failover_run_mono:
  "failover_run hs res w res' w' \<Longrightarrow> set hs \<subseteq> set hs' \<Longrightarrow> rr_tried res0 = rr_tried res
    \<Longrightarrow> rr_reasons res0 = rr_reasons res \<Longrightarrow> rr_used res0 = rr_used res
    \<Longrightarrow> upstream_calls w0 = upstream_calls w \<Longrightarrow> failover_run hs' res0 w0 res' w'"
  unfolding failover_run_def by (metis (no_types, lifting) order_trans)

text \<open>The budget refusal of \<open>routePool\<close> and the run it does otherwise.\<close>

lemma route_pool_no_budget:
  assumes "pool_has_budget env w (pool_name p) = (False, w1)"
  shows "route_pool lib env opts p sk res0 w =
    (res0\<lparr>rr_pool := pool_name p, rr_reasons := rr_reasons res0 @ [FailoverBudgetExhausted],
       rr_error := Some (PlainError (''pool '' @ dquoted (pool_name p) @ '' daily budget exhausted''))\<rparr>, w1)"
  by (simp add: route_pool_def assms)

lemma route_pool_run:
  assumes "rr_error res0 = None" "pool_has_budget env w (pool_name p) = (True, w1)"
    and "route_pool lib env opts p sk res0 w = (res', w')"
  shows "failover_run (filter (eligible_deployment opts) (pool_members p)) res0 w res' w' \<and> same_config w w'"
proof -
  let ?res = "res0\<lparr>rr_pool := pool_name p\<rparr>"
  let ?all = "filter (eligible_deployment opts) (pool_members p)"
  obtain hs w2 where h: "healthy_members env opts w1 (pool_members p) = (hs, w2)"
    by (cases "healthy_members env opts w1 (pool_members p)")
  obtain ck w3 where k: "sticky_lookup env w2 sk (pool_name p) = (ck, w3)"
    by (cases "sticky_lookup env w2 sk (pool_name p)")
  note bf = pool_has_budget_frame [OF assms(2)]
  note hf = healthy_members_frame [OF h]
  note kf = sticky_lookup_frame [OF k]
  have sub: "set hs \<subseteq> set ?all" using hf by auto
  have lift: "failover_run ?all res0 w res' w' \<and> same_config w w'"
    if "failover_run hs ?res v res' w'" "same_config v w'" "v = w2 \<or> v = w3" for v
  proof
    show "failover_run ?all res0 w res' w'"
      by (rule failover_run_mono [OF that(1) sub]) (use that(3) bf hf kf in auto)
    show "same_config w w'"
      using that bf hf kf same_config_trans by metis
  qed
  have members: "failover_run ?all res0 w res' w' \<and> same_config w w'"
    if "route_members lib env opts p sk hs None ?res v = (res', w')" "v = w2 \<or> v = w3" for v
    by (rule lift [of v]) (use route_members_run [OF _ that(1)] assms(1) that(2) in simp_all)
  show ?thesis
  proof (cases "sk = []")
    case True
    then have "route_members lib env opts p sk hs None ?res w2 = (res', w')"
      using assms(2,3) h by (simp add: route_pool_def)
    then show ?thesis using members by blast
  next
    case False
    show ?thesis
    proof (cases "if ck = [] then None else find_deployment_by_key hs ck")
      case None
      then have "route_members lib env opts p sk hs None ?res w3 = (res', w')"
        using assms(2,3) h k False by (simp add: route_pool_def del: if_split_asm)
      then show ?thesis using members by blast
    next
      case (Some d)
      then have d: "d \<in> set hs" by (auto dest: find_deployment_by_key_Some split: if_splits)
      obtain a res2 w4 where att: "try_deployment lib env opts (pool_name p) ?res w3 d = (a, res2, w4)"
        by (metis prod_cases3)
      note tf = try_deployment_frame [OF att]
      have eq: "(res', w') = (case a of Succeeded \<Rightarrow> (res2, w4) | Stopped \<Rightarrow> (res2, w4)
          | Failover e \<Rightarrow> route_members lib env opts p sk (remove_deployment hs d) (Some e) res2 w4)"
        using assms(2,3) h k False Some att
        by (simp add: route_pool_def del: if_split_asm split: attempt.splits)
      have "failover_run hs ?res w3 res' w' \<and> same_config w3 w'"
      proof (cases a)
        case (Failover e)
        then obtain rn where out: "rr_error res2 = None" "rr_used res2 = rr_used ?res"
            "attempt_reason rn" "rr_reasons res2 = rr_reasons ?res @ [rn]"
          using tf assms(1) by (auto simp: attempt_outcome_def)
        have rest: "route_members lib env opts p sk (remove_deployment hs d) (Some e) res2 w4 = (res', w')"
          using eq Failover by simp
        note ih = route_members_run [OF out(1) rest]
        have "failover_run hs ?res w3 res' w'"
          by (rule failover_run_step [where ?w1.0 = w4, OF d _ _ out(3,4,2)]) (use tf ih in simp_all)
        then show ?thesis using tf ih same_config_trans by blast
      qed (use eq tf assms(1) d in \<open>auto simp: attempt_outcome_def intro!: failover_run_stop [OF d]\<close>)
      then show ?thesis using lift by blast
    qed
  qed
qed

section \<open>A working member is found\<close>

text \<open>
  \<open>only_failover_errors\<close>: the context is never done and no upstream answers 400 or 422.
  \<open>always_answers\<close>: the deployment has no capacity limit and its calls succeed.
\<close>

definition only_failover_errors :: "route_env \<Rightarrow> bool" where
  "only_failover_errors env \<longleftrightarrow> (\<forall>n. env_ctx env n = None)
     \<and> (\<forall>n d e. snd (snd (env_call env n d)) = Some e \<longrightarrow> \<not> is_invalid_request e)"

definition always_answers :: "route_env \<Rightarrow> deployment \<Rightarrow> bool" where
  "always_answers env d \<longleftrightarrow> rpm d \<le> 0 \<and> tpm d \<le> 0 \<and> (\<forall>n. snd (snd (env_call env n d)) = None)"

lemma try_not_stopped:
  assumes "only_failover_errors env" "try_deployment lib env opts pn res w d = (a, res', w')"
  shows "a \<noteq> Stopped"
proof
  assume a: "a = Stopped"
  obtain resp stream err w1 where inv: "invoke lib env opts (tick w) d pn = ((resp, stream, err), w1)"
    by (metis surj_pair)
  obtain e where e: "err = Some e" "is_invalid_request e"
    using assms a inv
    by (auto simp: try_deployment_def only_failover_errors_def Let_def split: option.splits if_splits prod.splits)
  have "(\<exists>ra. e = RateLimitError True (provider_name d) ra []) \<or> (\<exists>n. Some e = snd (snd (env_call env n d)))"
    using invoke_cases [OF inv] e(1) by auto
  then show False
    using e(2) rate_limit_not_invalid assms(1) by (metis only_failover_errors_def)
qed

lemma try_succeeds:
  assumes "only_failover_errors env" "always_answers env d"
    and "try_deployment lib env opts pn res w d = (a, res', w')"
  shows "a = Succeeded"
proof -
  obtain resp stream err w1 where inv: "invoke lib env opts (tick w) d pn = ((resp, stream, err), w1)"
    by (metis surj_pair)
  have adm: "reserve lib (rt_capacity (tick w)) d (invoke_estimate opts) (clock env (tick w))
      = (Inr None, rt_capacity (tick w))"
    using assms(2) by (simp add: reserve_def always_answers_def)
  have "err = None"
    using invoke_admitted [OF adm inv] assms(2) by (auto simp: always_answers_def)
  then show ?thesis
    using assms(1,3) inv by (auto simp: try_deployment_def only_failover_errors_def)
qed

lemma route_members_finds:
  assumes "only_failover_errors env" "always_answers env d"
    and "d \<in> set healthy" "distinct_deps healthy" "rr_error res = None"
    and "route_members lib env opts p sk healthy le res w = (res', w')"
  shows "rr_error res' = None"
  using assms(3-)
proof (induction "length healthy" arbitrary: healthy le res w rule: less_induct)
  case less
  have ne: "healthy \<noteq> []" using less.prems(1) by auto
  obtain e w1 where sel: "select_from env w (pool_strategy p) healthy = (Some e, w1)" "e \<in> set healthy"
    using select_from_Some [OF ne] by metis
  obtain a res2 w2 where att: "try_deployment lib env opts (pool_name p) res w1 e = (a, res2, w2)"
    by (metis prod_cases3)
  note step = route_members_step [OF sel(1) ne att, of sk le]
  note tf = try_deployment_frame [OF att]
  show ?case
  proof (cases a)
    case Succeeded
    then show ?thesis using less.prems(3,4) step tf by (auto simp: attempt_outcome_def split: if_splits)
  next
    case Stopped
    then show ?thesis using try_not_stopped [OF assms(1) att] by simp
  next
    case (Failover er)
    then have "e \<noteq> d" using try_succeeds [OF assms(1,2), of lib opts "pool_name p" res w1] att by auto
    then have "dep_id e \<noteq> dep_id d"
      using less.prems(1,2) sel(2) by (auto simp: distinct_map inj_on_def)
    then have "d \<in> set (remove_deployment healthy e)"
      using less.prems(1) by (simp add: set_remove_deployment)
    moreover have "rr_error res2 = None" using tf Failover less.prems(3) by (simp add: attempt_outcome_def)
    moreover have "route_members lib env opts p sk (remove_deployment healthy e) (Some er) res2 w2 = (res', w')"
      using less.prems(4) step Failover by simp
    ultimately show ?thesis
      using less.hyps [OF length_remove_deployment [OF sel(2)]] distinct_remove_deployment [OF less.prems(2)]
      by blast
  qed
qed

text \<open>A deployment with no cooldown and no backoff entry is healthy at every moment.\<close>

definition no_health_entry :: "('a) router_scheme \<Rightarrow> deployment \<Rightarrow> bool" where
  "no_health_entry r d \<longleftrightarrow> cooldowns (rt_cooldown r) (dep_id d) = None \<and> rt_backoff r (deployment_key d) = None"

lemma in_cooldown_None:
  assumes "cooldowns c i = None"
  shows "cooldowns (snd (in_cooldown c d t)) i = None"
  using assms by (simp add: in_cooldown_def in_cooldown_expire_def split: cooldown_read.splits)

lemma member_healthy_keeps_entry:
  assumes "no_health_entry w d" "member_healthy env opts w e = (ok, w')"
  shows "no_health_entry w' d"
  using assms in_cooldown_None [of "rt_cooldown w" "dep_id d" e "clock env w"]
  by (auto simp: member_healthy_def no_health_entry_def Let_def split: if_splits prod.splits)

lemma member_healthy_no_entry:
  assumes "no_health_entry w d" "eligible_deployment opts d"
  shows "fst (member_healthy env opts w d)"
  using assms
  by (auto simp: member_healthy_def no_health_entry_def in_cooldown_def in_cooldown_read_def in_backoff_def)

lemma healthy_members_finds:
  assumes "no_health_entry w d" "eligible_deployment opts d" "d \<in> set ds"
    and "healthy_members env opts w ds = (hs, w')"
  shows "d \<in> set hs"
  using assms
proof (induction ds arbitrary: w hs w')
  case Nil
  then show ?case by simp
next
  case (Cons e ds)
  obtain ok w1 where m: "member_healthy env opts w e = (ok, w1)" by (cases "member_healthy env opts w e")
  obtain hs2 w2 where r: "healthy_members env opts w1 ds = (hs2, w2)" by (cases "healthy_members env opts w1 ds")
  have eq: "hs = (if ok then e # hs2 else hs2)" using Cons.prems(4) by (auto simp: m r)
  have w1: "no_health_entry w1 d" using Cons.prems(1) m by (rule member_healthy_keeps_entry)
  show ?case
  proof (cases "e = d")
    case True
    then show ?thesis using member_healthy_no_entry [OF Cons.prems(1,2), of env] m eq by simp
  next
    case False
    then show ?thesis using Cons.IH [OF w1 Cons.prems(2) _ r] Cons.prems(3) eq by auto
  qed
qed

lemma healthy_members_distinct:
  "healthy_members env opts w ds = (hs, w') \<Longrightarrow> subseq hs ds"
proof (induction ds arbitrary: w hs w')
  case Nil
  then show ?case by simp
next
  case (Cons e ds)
  then show ?case by (auto split: prod.splits if_splits)
qed

lemma distinct_deps_subseq: "subseq hs ds \<Longrightarrow> distinct_deps ds \<Longrightarrow> distinct_deps hs"
proof (induction rule: list_emb.induct)
  case (list_emb_Cons2 x y xs ys)
  then have "set xs \<subseteq> set ys" by (auto dest: list_emb_set)
  with list_emb_Cons2 show ?case by auto
qed auto

section \<open>The attempts outside a pool\<close>

lemma untried_members_frame:
  assumes "untried_members env w tried ds = (hs, w')"
  shows "same_config w w' \<and> upstream_calls w' = upstream_calls w \<and> set hs \<subseteq> {d \<in> set ds. dep_id d \<notin> tried}"
  using assms
proof (induction ds arbitrary: w hs w')
  case Nil
  then show ?case by simp
next
  case (Cons d ds)
  obtain ok w1 where m: "untried_healthy env w tried d = (ok, w1)" by (cases "untried_healthy env w tried d")
  obtain hs2 w2 where r: "untried_members env w1 tried ds = (hs2, w2)" by (cases "untried_members env w1 tried ds")
  have w1: "same_config w w1 \<and> upstream_calls w1 = upstream_calls w \<and> (ok \<longrightarrow> dep_id d \<notin> tried)"
    using m by (auto simp: untried_healthy_def Let_def same_config_def upstream_calls_def split: if_splits prod.splits)
  have "hs = (if ok then d # hs2 else hs2)" "w' = w2" using Cons.prems by (auto simp: m r)
  then show ?case using w1 Cons.IH [OF r] by (auto simp: same_config_def split: if_splits)
qed

lemma get_deployment_with_retry_frame:
  assumes "get_deployment_with_retry env w m tried = (x, w')"
  shows "same_config w w' \<and> upstream_calls w' = upstream_calls w
    \<and> (case x of Inl e \<Rightarrow> True | Inr None \<Rightarrow> False
       | Inr (Some d) \<Rightarrow> (\<exists>ds. deployments_of w m = Some ds \<and> d \<in> set ds) \<and> dep_id d \<notin> tried)"
proof (cases "deployments_of w m")
  case None
  then show ?thesis using assms by (auto simp: get_deployment_with_retry_def)
next
  case (Some ds)
  obtain hs w1 where h: "untried_members env w tried ds = (hs, w1)" by (cases "untried_members env w tried ds")
  note hf = untried_members_frame [OF h]
  consider "ds = []" | "ds \<noteq> []" "hs = []" | "ds \<noteq> []" "hs \<noteq> []" by blast
  then show ?thesis
  proof cases
    case 1
    then show ?thesis using assms Some by (auto simp: get_deployment_with_retry_def)
  next
    case 2
    then show ?thesis using assms Some h hf by (auto simp: get_deployment_with_retry_def)
  next
    case 3
    note False = 3
    then obtain d w2 where s: "select_from env w1 (rt_strategy w1) hs = (Some d, w2)" "d \<in> set hs"
      using select_from_Some by metis
    show ?thesis
      using assms Some h hf False s select_from_frame [OF s(1)]
      by (auto simp: get_deployment_with_retry_def same_config_def)
  qed
qed

lemma remove_filter_tried:
  "remove_deployment (filter (\<lambda>d. dep_id d \<notin> tried) ds) d = filter (\<lambda>e. dep_id e \<notin> insert (dep_id d) tried) ds"
  by (auto simp: remove_deployment_def same_deployment_def intro: filter_cong)

lemma legacy_attempts_run:
  assumes "rr_error res = None" "first \<longrightarrow> n \<noteq> 0" "\<not> first \<longrightarrow> le \<noteq> None"
    and "ds = (case deployments_of w m of None \<Rightarrow> [] | Some ds \<Rightarrow> ds)"
    and "legacy_attempts lib env opts m n first tried le res w = (res', w')"
  shows "failover_run (filter (\<lambda>d. dep_id d \<notin> tried) ds) res w res' w'
    \<and> same_config w w' \<and> length (rr_tried res') \<le> length (rr_tried res) + n"
  using assms
proof (induction n arbitrary: first tried le res w)
  case 0
  then show ?case by (auto simp: failover_run_def)
next
  case (Suc n)
  obtain x w1 where g: "get_deployment_with_retry env w m tried = (x, w1)"
    by (cases "get_deployment_with_retry env w m tried")
  note gf = get_deployment_with_retry_frame [OF g]
  show ?case
  proof (cases x)
    case (Inl e)
    then show ?thesis using Suc.prems g gf
      by (auto simp: failover_run_def same_config_def split: if_splits option.splits)
  next
    case (Inr y)
    then obtain d where y: "y = Some d" using gf by (cases y) auto
    have d: "d \<in> set (filter (\<lambda>d. dep_id d \<notin> tried) ds)"
      using gf Inr y Suc.prems(4) by auto
    obtain a res2 w2 where att: "try_deployment lib env opts [] res w1 d = (a, res2, w2)"
      by (metis prod_cases3)
    note tf = try_deployment_frame [OF att]
    have c: "same_config w w2" using gf tf same_config_trans by blast
    have u: "upstream_calls w2 = upstream_calls w \<or> upstream_calls w2 = upstream_calls w @ [d]"
      using gf tf by auto
    have step: "(res', w') = (case a of Succeeded \<Rightarrow> (res2, w2) | Stopped \<Rightarrow> (res2, w2)
        | Failover e \<Rightarrow> legacy_attempts lib env opts m n False (insert (dep_id d) tried) (Some e) res2 w2)"
      using Suc.prems(5) g Inr y att by (simp split: attempt.splits)
    show ?thesis
    proof (cases a)
      case (Failover e)
      then obtain rn where out: "rr_error res2 = None" "rr_used res2 = rr_used res"
          "attempt_reason rn" "rr_reasons res2 = rr_reasons res @ [rn]"
        using tf Suc.prems(1) by (auto simp: attempt_outcome_def)
      have ds2: "ds = (case deployments_of w2 m of None \<Rightarrow> [] | Some ds \<Rightarrow> ds)"
        using Suc.prems(4) c by (simp add: same_config_def)
      have ih: "failover_run (filter (\<lambda>e. dep_id e \<notin> insert (dep_id d) tried) ds) res2 w2 res' w'
          \<and> same_config w2 w' \<and> length (rr_tried res') \<le> length (rr_tried res2) + n"
        by (rule Suc.IH [OF out(1) _ _ ds2, where first = False and le = "Some e"]) (use step Failover in simp_all)
      have "failover_run (filter (\<lambda>d. dep_id d \<notin> tried) ds) res w res' w'"
        by (rule failover_run_step [where ?w1.0 = w2, OF d _ u out(3,4,2)])
          (use tf ih in \<open>simp_all add: remove_filter_tried\<close>)
      then show ?thesis using tf ih c same_config_trans by auto
    qed (use step tf Suc.prems(1) c u in \<open>auto simp: attempt_outcome_def intro!: failover_run_stop [OF d]\<close>)
  qed
qed

section \<open>Waits\<close>

lemma min_wait_spec:
  assumes "\<And>n. env_now env n = t" "0 \<le> r"
  shows "let v = min_wait env b pos ds r; ws = (\<lambda>d. backoff_retry_after b (deployment_key d) t) ` set ds
    in 0 \<le> v \<and> (v = r \<or> v \<in> ws) \<and> (0 < r \<longrightarrow> 0 < v \<and> v \<le> r) \<and> (\<forall>x \<in> ws. 0 < x \<longrightarrow> 0 < v \<and> v \<le> x)"
  using assms(2)
proof (induction ds arbitrary: pos r)
  case Nil
  then show ?case by simp
next
  case (Cons d ds)
  let ?x = "backoff_retry_after b (deployment_key d) t"
  let ?r = "if 0 < ?x \<and> (r = 0 \<or> ?x < r) then ?x else r"
  have nonneg: "0 \<le> ?x" by simp
  have step: "min_wait env b pos (d # ds) r = min_wait env b (Suc pos) ds ?r"
    by (simp add: assms(1) Let_def)
  have "0 \<le> ?r" using Cons.prems by simp
  note ih = Cons.IH [OF this, of "Suc pos", unfolded Let_def]
  show ?case
    unfolding step Let_def using ih Cons.prems nonneg by (simp split: if_splits) force+
qed

lemma min_wait_Min:
  assumes "\<And>n. env_now env n = t"
    and "ws = filter (\<lambda>x. 0 < x) (map (\<lambda>d. backoff_retry_after b (deployment_key d) t) ds)"
  shows "min_wait env b pos ds 0 = (if ws = [] then 0 else Min (set ws))"
proof -
  define v where "v = min_wait env b pos ds 0"
  note sp = min_wait_spec [OF assms(1), where r = 0 and b = b and pos = pos and ds = ds, folded v_def, unfolded Let_def]
  have mem: "x \<in> set ws \<longleftrightarrow> 0 < x \<and> x \<in> (\<lambda>d. backoff_retry_after b (deployment_key d) t) ` set ds" for x
    by (auto simp: assms(2))
  show ?thesis
  proof (cases "ws = []")
    case True
    then have "\<not> 0 < v" using sp mem by (metis empty_iff empty_set order_refl less_irrefl)
    then show ?thesis using True sp by (simp add: v_def [symmetric])
  next
    case False
    then obtain x where "x \<in> set ws" by (cases ws) auto
    then have "0 < v" using sp mem by auto
    then have "Min (set ws) = v" using sp mem by (intro Min_eqI) auto
    then show ?thesis using False by (simp add: v_def)
  qed
qed

end
