(* ===== verification/Routing_Properties.thy ===== *)
theory Routing_Properties
  imports Routing
begin

text \<open>
  The properties of the request path modelled in \<open>Routing\<close>: which deployments one request may try and
  call, that a working member is found, what an attempt does to the health state, the budget gate, the
  attempts outside pools and the delay the client is told.
\<close>

section \<open>One run through a pool\<close>




definition sample_env :: route_env where
  "sample_env = \<lparr>env_now = (\<lambda>n. 0), env_today = (\<lambda>n. ''d1''), env_rand = (\<lambda>n. 0), env_ctx = (\<lambda>n. None),
     env_call = (\<lambda>n d. if dep_id d = 0 then (None, None, Some (HTTPError ''openai'' 500 [] 0 None))
        else if dep_id d = 2 then (None, None, Some (HTTPError ''openai'' 400 [] 0 None))
        else (Some \<lparr>resp_content = ''ok'', resp_usage = None\<rparr>, None, None)),
     env_usage = (\<lambda>n. None)\<rparr>"

definition sample_route_pool :: "nat \<Rightarrow> string \<Rightarrow> deployment list \<Rightarrow> pool" where
  "sample_route_pool i n ds = \<lparr>pool_id = i, pool_name = n, pool_strategy = 0, pool_members = ds,
     pool_weights = Map.empty, pool_model_name = ''chat''\<rparr>"

definition sample_world :: route_world where
  "sample_world = \<lparr>
     rt_deployments = [(''chat'', [sample_a, sample_b, sample_twin])],
     rt_strategy = 0, rt_strategies = (\<lambda>_. RoundRobin 0),
     rt_cooldown = new_cooldown_manager (30 * second) 3, rt_backoff = new_backoff_manager,
     rt_settings = \<lparr>routing_strategy = ''round-robin'', num_retries = 2, rs_allowed_fails = 3, rs_cooldown_time = 30 * second\<rparr>,
     rt_pools = [(''main'', sample_route_pool 0 ''main'' [sample_a, sample_b]),
                 (''spare'', sample_route_pool 1 ''spare'' [sample_twin])],
     rt_model_to_pool = [''chat'' \<mapsto> sample_route_pool 0 ''main'' [sample_a, sample_b]],
     rt_sticky = new_sticky_session_manager False, rt_capacity = Map.empty,
     rt_budget = sample_budget, rw_pos = 0, rw_events = []\<rparr>"

lemmas sample_world_defs = sample_world_def sample_route_pool_def sample_env_def

lemma sample_env_invalid [simp]:
  "env_ctx sample_env n = None"
  "snd (snd (env_call sample_env n sample_b)) = None"
  by (simp_all add: sample_env_def)

lemma sample_unlimited [simp]:
  "rpm sample_a = 0" "rpm sample_b = 0" "rpm sample_twin = 0"
  "tpm sample_a = 0" "tpm sample_b = 0" "tpm sample_twin = 0"
  "decision sample_a = None" "decision sample_b = None" "decision sample_twin = None"
  "model_name sample_a = ''chat''" "model_name sample_b = ''chat''" "model_name sample_twin = ''chat''"
  by (simp_all add: sample_defs)

text \<open>An environment in which the first member fails with 500 and every other one answers.\<close>

definition sample_flaky_env :: route_env where
  "sample_flaky_env = sample_env\<lparr>env_call := (\<lambda>n d. if dep_id d = 0
     then (None, None, Some (HTTPError ''openai'' 500 [] 0 None))
     else (Some \<lparr>resp_content = ''ok'', resp_usage = None\<rparr>, None, None))\<rparr>"


text \<open>
  C28. The sticky deployment goes first. When the session's mapping for the pool is live at every clock reading
  and names an eligible member without cooldown or backoff, that member is the first one tried,
  whatever the strategy would choose.
\<close>

theorem sticky_member_is_tried_first:
  assumes "fst (pool_has_budget env w (pool_name p))" "sticky_key \<noteq> []"
    and "map_of (sm_sessions (rt_sticky w)) (cache_key sticky_key (pool_name p)) = Some e"
    and "\<And>n. env_now env n - se_last_used e \<le> hour"
    and "se_deployment_key e = deployment_key d" "deployment_key d \<noteq> []"
    and "d \<in> set (pool_members p)" "eligible_deployment opts d" "no_health_entry w d"
    and "\<forall>d' \<in> set (pool_members p). deployment_key d' = deployment_key d \<longrightarrow> d' = d"
  shows "hd (rr_tried (fst (route_pool lib env opts p sticky_key empty_result w))) = d"
proof -
  let ?res = "empty_result\<lparr>rr_pool := pool_name p\<rparr>"
  obtain w1 where b: "pool_has_budget env w (pool_name p) = (True, w1)"
    using assms(1) by (metis prod.collapse)
  note bf = pool_has_budget_frame [OF b]
  have w1: "no_health_entry w1 d" using assms(9) bf by (simp add: no_health_entry_def same_health_def)
  obtain hs w2 where h: "healthy_members env opts w1 (pool_members p) = (hs, w2)"
    by (cases "healthy_members env opts w1 (pool_members p)")
  have d: "d \<in> set hs" using healthy_members_finds [OF w1 assms(8,7) h] .
  have sub: "set hs \<subseteq> set (pool_members p)" using healthy_members_frame [OF h] by auto
  have "rt_sticky w2 = rt_sticky w" using healthy_members_sticky [OF h] bf by simp
  moreover have "\<not> hour < clock env w2 - se_last_used e" using assms(4) [of "rw_pos w2"] by simp
  ultimately have "fst (sticky_lookup env w2 sticky_key (pool_name p)) = deployment_key d"
    using assms(3,5) by (simp add: sticky_lookup_def sticky_get_def Let_def sticky_ttl_def)
  then obtain w3 where k: "sticky_lookup env w2 sticky_key (pool_name p) = (deployment_key d, w3)"
    by (metis prod.collapse)
  have "find_deployment_by_key hs (deployment_key d) \<noteq> None"
    using d by (auto simp: find_deployment_by_key_None)
  then obtain d' where "find_deployment_by_key hs (deployment_key d) = Some d'" by blast
  then have f: "find_deployment_by_key hs (deployment_key d) = Some d"
    using find_deployment_by_key_Some [of hs "deployment_key d" d'] sub assms(10) by auto
  obtain a res2 w4 where att: "try_deployment lib env opts (pool_name p) ?res w3 d = (a, res2, w4)"
    by (metis prod_cases3)
  note tf = try_deployment_frame [OF att]
  have eq: "route_pool lib env opts p sticky_key empty_result w
    = (case a of Succeeded \<Rightarrow> (res2, w4) | Stopped \<Rightarrow> (res2, w4)
        | Failover er \<Rightarrow> route_members lib env opts p sticky_key (remove_deployment hs d) (Some er) res2 w4)"
    using b h k f assms(2,6) att by (simp add: route_pool_def split: attempt.splits)
  have tried: "rr_tried res2 = [d]" using tf by (simp add: empty_result_def)
  show ?thesis
  proof (cases a)
    case (Failover er)
    have "rr_error res2 = None" using tf Failover by (simp add: attempt_outcome_def empty_result_def)
    then have "failover_run (remove_deployment hs d) res2 w4
        (fst (route_pool lib env opts p sticky_key empty_result w)) (snd (route_pool lib env opts p sticky_key empty_result w))"
      using route_members_run [of res2 lib env opts p sticky_key "remove_deployment hs d" "Some er" w4] eq Failover
      by simp
    then show ?thesis using tried by (auto simp: failover_run_def)
  qed (use eq tried in simp_all)
qed

theorem sticky_member_is_tried_first_witness:
  "hd (rr_tried (fst (route_pool sample_lib sample_env None (sample_route_pool 1 ''spare'' [sample_a, sample_b]) ''s1''
     empty_result (sample_world\<lparr>rt_sticky := sticky_set (new_sticky_session_manager False) ''s1'' ''spare''
        (deployment_key sample_b) 0\<rparr>)))) = sample_b"
  by (rule sticky_member_is_tried_first
      [where e = "\<lparr>se_deployment_key = deployment_key sample_b, se_last_used = 0, se_dirty = True\<rparr>"])
    (simp_all add: sample_world_defs sample_budget_def pool_has_budget_def has_budget_def
      eligible_deployment_def no_health_entry_def new_cooldown_manager_def new_backoff_manager_def
      sticky_set_def new_sticky_session_manager_def hour_def)

section \<open>The budget gate\<close>

text \<open>
  A pool whose daily budget is exhausted is not used: nothing is tried, no hook and no upstream is called,
  no health, capacity or sticky state changes, and the result carries the reason
  \<open>budget_exhausted\<close> after the reasons it came with.
\<close>

theorem exhausted_pool_calls_nothing:
  assumes "\<not> fst (has_budget (rt_budget w) (pool_name p) (env_today env (rw_pos w)))"
  shows "case route_pool lib env opts p sticky_key res0 w of (res, w') \<Rightarrow>
     rr_tried res = rr_tried res0 \<and> rr_used res = rr_used res0 \<and> rr_error res \<noteq> None
     \<and> rr_reasons res = rr_reasons res0 @ [FailoverBudgetExhausted]
     \<and> rw_events w' = rw_events w \<and> rt_cooldown w' = rt_cooldown w \<and> rt_backoff w' = rt_backoff w
     \<and> rt_capacity w' = rt_capacity w \<and> rt_sticky w' = rt_sticky w \<and> rt_strategies w' = rt_strategies w"
proof -
  obtain w1 where b: "pool_has_budget env w (pool_name p) = (False, w1)"
    using assms by (metis pool_has_budget_fst prod.collapse)
  then show ?thesis
    using pool_has_budget_frame [OF b] by (simp add: route_pool_no_budget same_health_def)
qed

lemma sample_main_exhausted [simp]: "\<not> fst (has_budget sample_budget ''main'' ''d1'')"
  by (simp add: has_budget_def sample_budget_def)

theorem exhausted_pool_calls_nothing_witness:
  "case route_pool sample_lib sample_env None (sample_route_pool 0 ''main'' [sample_a, sample_b]) [] empty_result sample_world of (res, w') \<Rightarrow>
     rr_tried res = rr_tried empty_result \<and> rr_used res = rr_used empty_result \<and> rr_error res \<noteq> None
     \<and> rr_reasons res = rr_reasons empty_result @ [FailoverBudgetExhausted]
     \<and> rw_events w' = rw_events sample_world \<and> rt_cooldown w' = rt_cooldown sample_world
     \<and> rt_backoff w' = rt_backoff sample_world
     \<and> rt_capacity w' = rt_capacity sample_world \<and> rt_sticky w' = rt_sticky sample_world
     \<and> rt_strategies w' = rt_strategies sample_world"
  by (rule exhausted_pool_calls_nothing) (simp add: sample_world_defs)

lemma route_pool_reasons:
  assumes "rr_error res0 = None" "route_pool lib env opts p sk res0 w = (res, w')"
  shows "\<exists>rs. rr_reasons res = rr_reasons res0 @ rs"
proof -
  obtain ok w1 where b: "pool_has_budget env w (pool_name p) = (ok, w1)"
    by (cases "pool_has_budget env w (pool_name p)")
  show ?thesis
  proof (cases ok)
    case False
    then show ?thesis using b assms(2) by (auto simp: route_pool_no_budget)
  next
    case True
    then show ?thesis using route_pool_run [OF assms(1) _ assms(2)] b
      by (auto simp: failover_run_def)
  qed
qed

lemma route_alts_reasons:
  assumes "route_alts lib env opts sk ps res w = (found, res', w')"
  shows "(\<exists>rs. rr_reasons res' = rr_reasons res @ rs) \<and> (found \<longrightarrow> rr_error res' = None)"
  using assms
proof (induction ps arbitrary: res w)
  case Nil
  then show ?case by simp
next
  case (Cons p ps)
  obtain alt w1 where a: "route_pool lib env opts p sk (empty_result\<lparr>rr_reasons := rr_reasons res\<rparr>) w = (alt, w1)"
    by (cases "route_pool lib env opts p sk (empty_result\<lparr>rr_reasons := rr_reasons res\<rparr>) w")
  obtain rs where rs: "rr_reasons alt = rr_reasons res @ rs"
    using route_pool_reasons [OF _ a] by (auto simp: empty_result_def)
  have step: "route_alts lib env opts sk (p # ps) res w = (if rr_error alt = None then (True, alt, w1)
      else route_alts lib env opts sk ps (res\<lparr>rr_reasons := rr_reasons alt, rr_error := rr_error alt\<rparr>) w1)"
    by (simp add: a)
  note eq = trans [OF step [symmetric] Cons.prems]
  show ?case
  proof (cases "rr_error alt = None")
    case True
    then show ?thesis using eq rs by auto
  next
    case False
    then show ?thesis using Cons.IH [of "res\<lparr>rr_reasons := rr_reasons alt, rr_error := rr_error alt\<rparr>" w1] eq rs
      by auto
  qed
qed

text \<open>
  C27. Once the first pool of a model is out of budget, every failure of the request is reported as a
  budget error: an alternative pool that serves the model may be called, and whatever it answers, an
  invalid-request error 400 or 422 or a 429 with its delay included, is replaced by the plain
  \<open>budget exhausted for all available pools\<close>, which the handlers turn into a 502.
\<close>

theorem budget_error_masks_other_pools:
  assumes "env_ctx env (rw_pos w) = None" "rt_model_to_pool w m = Some p"
    and "\<not> fst (has_budget (rt_budget w) (pool_name p) (env_today env (Suc (rw_pos w))))"
  shows "rr_error (fst (route lib env opts m sticky_key w)) \<in> {None, Some (budget_error m)}"
proof -
  obtain w1 where b: "pool_has_budget env (tick w) (pool_name p) = (False, w1)"
    using assms(3) pool_has_budget_fst [of env "tick w" "pool_name p"]
    by (cases "pool_has_budget env (tick w) (pool_name p)") auto
  obtain res where res: "route_pool lib env opts p sticky_key empty_result (tick w) = (res, w1)"
    "rr_error res \<noteq> None" "FailoverBudgetExhausted \<in> set (rr_reasons res)"
    by (simp add: route_pool_no_budget [OF b])
  obtain ok w2 where b2: "pool_has_budget env w1 (pool_name p) = (ok, w2)"
    by (cases "pool_has_budget env w1 (pool_name p)")
  obtain found res2 w3 where alt:
    "(if \<not> ok \<or> \<not> pool_has_eligible_deployment p opts
      then route_alts lib env opts sticky_key (alt_pools w2 p m) res w2 else (False, res, w2)) = (found, res2, w3)"
    by (metis prod_cases3)
  have reasons: "FailoverBudgetExhausted \<in> set (rr_reasons res2)" and "found \<Longrightarrow> rr_error res2 = None"
    using route_alts_reasons [of lib env opts sticky_key "alt_pools w2 p m" res w2 found res2 w3] alt res(3)
    by (cases "\<not> ok \<or> \<not> pool_has_eligible_deployment p opts"; force)+
  moreover have "route lib env opts m sticky_key w
    = (if found then (res2, w3) else if FailoverBudgetExhausted \<in> set (rr_reasons res2)
       then (res2\<lparr>rr_error := Some (budget_error m)\<rparr>, w3) else (res2, w3))"
    by (simp only: route_def Let_def assms(1,2) option.case tick_simps(12) res(1) prod.case b2 alt
        if_not_P [OF res(2)])
  ultimately show ?thesis by (cases found) auto
qed

lemma sample_masked:
  "upstream_calls (snd (route sample_lib sample_env None ''chat'' [] sample_world)) = [sample_twin]"
  "rr_error (fst (route sample_lib sample_env None ''chat'' [] sample_world)) = Some (budget_error ''chat'')"
  by code_simp+

text \<open>At the concrete input the alternative pool is called and rejects the request with a 400.\<close>

theorem budget_error_masks_other_pools_witness:
  "rr_error (fst (route sample_lib sample_env None ''chat'' [] sample_world)) \<in> {None, Some (budget_error ''chat'')}
   \<and> snd (snd (env_call sample_env 0 sample_twin)) = Some (HTTPError ''openai'' 400 [] 0 None)"
  using budget_error_masks_other_pools [of sample_env sample_world "''chat''" "sample_route_pool 0 ''main'' [sample_a, sample_b]"
      sample_lib None "[]"]
  by (simp add: sample_world_defs)

section \<open>Health reports of an attempt\<close>


section \<open>Requests outside every pool\<close>

text \<open>
  C3. A request for a model outside every pool makes at most \<open>num_retries + 1\<close> attempts, on eligible
  deployments of the model, none twice. A successful one has used the last deployment tried; the result is
  without deployment and without error only when \<open>num_retries\<close> is negative.
\<close>

theorem route_legacy_bounded:
  "case route_legacy lib env opts m empty_result w of (res, w') \<Rightarrow>
     int (length (rr_tried res)) \<le> max 0 (num_retries (rt_settings w) + 1)
     \<and> distinct (map dep_id (rr_tried res))
     \<and> set (rr_tried res) \<subseteq> {d. eligible_deployment opts d
          \<and> (\<exists>ds. deployments_of w m = Some ds \<and> d \<in> set ds)}
     \<and> (if rr_error res = None
        then (if num_retries (rt_settings w) < 0 then rr_used res = None \<and> rr_tried res = []
              else rr_used res = Some (last (rr_tried res)))
        else rr_used res = None)"
proof -
  let ?k = "num_retries (rt_settings w)"
  let ?ds = "case deployments_of w m of None \<Rightarrow> [] | Some ds \<Rightarrow> ds"
  let ?bad = "case deployments_of w m of None \<Rightarrow> {} | Some ds \<Rightarrow> ineligible_ids opts ds"
  obtain res w' where r: "route_legacy lib env opts m empty_result w = (res, w')"
    by (cases "route_legacy lib env opts m empty_result w")
  show ?thesis
  proof (cases "?k < 0")
    case True
    then have z: "nat (?k + 1) = 0" by simp
    have "route_legacy lib env opts m empty_result w = (empty_result\<lparr>rr_error := None\<rparr>, w)"
      unfolding route_legacy_def z by simp
    then show ?thesis using True by (simp add: empty_result_def)
  next
    case False
    have run: "failover_run (filter (\<lambda>d. dep_id d \<notin> ?bad) ?ds) empty_result w res w'
        \<and> same_config w w' \<and> length (rr_tried res) \<le> length (rr_tried empty_result) + nat (?k + 1)"
      by (rule legacy_attempts_run [OF _ _ _ refl r [unfolded route_legacy_def]])
        (use False in \<open>simp_all add: empty_result_def\<close>)
    define L where "L = filter (\<lambda>d. dep_id d \<notin> ?bad) ?ds"
    define S where "S = {d. eligible_deployment opts d \<and> (\<exists>ds. deployments_of w m = Some ds \<and> d \<in> set ds)}"
    have sub: "set L \<subseteq> S"
      by (auto simp: L_def S_def ineligible_ids_def split: option.splits)
    have len: "int (length (rr_tried res)) \<le> max 0 (?k + 1)"
      using conjunct2 [OF conjunct2 [OF run]] False by (simp add: empty_result_def)
    show ?thesis
      unfolding r prod.case S_def [symmetric] using run [folded L_def] len sub False
      by (fastforce simp: failover_run_def empty_result_def)
  qed
qed

text \<open>
  The wait the client is told is the shortest one. When no deployment can be tried at time \<open>t\<close>, the
  answer is a 429 with the least positive backoff wait of the deployments, and a 503 when none of
  them is in backoff.
\<close>

theorem unavailable_shortest_wait:
  "unavailable (env\<lparr>env_now := (\<lambda>_. t)\<rparr>) w ds =
     (let waits = filter (\<lambda>x. 0 < x) (map (\<lambda>d. backoff_retry_after (rt_backoff w) (deployment_key d) t) ds)
      in if waits = []
         then err_no_deployment_available (case ds of [] \<Rightarrow> ''configured model'' | d # _ \<Rightarrow> model_name d)
         else RateLimitError False ''all deployments'' (Min (set waits)) [])"
proof -
  define ws where "ws = filter (\<lambda>x. 0 < x) (map (\<lambda>d. backoff_retry_after (rt_backoff w) (deployment_key d) t) ds)"
  have m: "min_wait (env\<lparr>env_now := (\<lambda>_. t)\<rparr>) (rt_backoff w) (rw_pos w) ds 0
    = (if ws = [] then 0 else Min (set ws))"
    by (rule min_wait_Min) (simp_all add: ws_def)
  have pos: "0 < Min (set ws)" if "ws \<noteq> []"
  proof -
    have "Min (set ws) \<in> set ws" using that by (intro Min_in) simp_all
    moreover have "\<forall>x \<in> set ws. 0 < x" by (simp add: ws_def)
    ultimately show ?thesis by blast
  qed
  show ?thesis
    unfolding ws_def [symmetric] unavailable_def Let_def m using pos by (cases "ws = []") (simp_all del: Min_gr_iff)
qed

end
