(* ===== verification/Router_Config.thy ===== *)
theory Router_Config
  imports Routing "HOL-Library.List_Lexorder" "HOL-Library.Char_ord"
begin

text \<open>
  The router as an object of the server (\<open>internal/router/router.go\<close>): its construction from a
  configuration (\<open>New\<close>, \<open>buildProviderOptions\<close>, \<open>buildPools\<close>), its reload, the lookups
  and the status reports; with the provider registry (\<open>internal/provider/registry.go\<close>) and the
  constructor of decision providers (\<open>internal/provider/decision/decision.go\<close>).

  Deployments, pools and the strategies a pool owns get addresses from \<open>fresh\<close> on. A reload takes an
  unused \<open>fresh\<close>, so the addresses of the old objects, which running requests still hold, stay
  what they were.
\<close>

section \<open>Providers\<close>

record safety_setting =
  ss_category :: string
  ss_threshold :: string

record provider_options =
  po_api_key :: string
  po_api_base :: string
  po_extra_headers :: "(string \<times> string) list"
  po_safety_settings :: "safety_setting list"
  po_xml_tool_calls :: "bool option"

datatype provider_instance =
    RegistryProvider string provider_options
  | DecisionProvider string provider_options decision_config string

text \<open>The registry holds the names that have a factory; a factory only stores its options.\<close>

type_synonym registry = "string set"

definition new_registry :: registry where
  "new_registry = {}"

definition registry_register :: "registry \<Rightarrow> string \<Rightarrow> registry" where
  "registry_register reg name = insert name reg"

definition registry_has :: "registry \<Rightarrow> string \<Rightarrow> bool" where
  "registry_has reg name \<longleftrightarrow> name \<in> reg"

definition registry_get :: "registry \<Rightarrow> string \<Rightarrow> provider_options \<Rightarrow> string + provider_instance" where
  "registry_get reg name opts =
     (if name \<in> reg then Inr (RegistryProvider name opts) else Inl (''unknown provider: '' @ name))"

definition trim_right_slash :: "string \<Rightarrow> string" where
  "trim_right_slash s = rev (dropWhile (\<lambda>c. c = CHR ''/'') (rev s))"

definition decision_base :: "string \<Rightarrow> string \<Rightarrow> string option" where
  "decision_base name configured =
     (let base = trim_right_slash configured in
      if base \<noteq> [] then Some base
      else if name = ''openai'' then Some ''https://api.openai.com/v1''
      else if name = ''typesafe'' then Some ''https://api.typesafe.ai/v1''
      else None)"

definition valid_decision_base :: "config_lib \<Rightarrow> string \<Rightarrow> bool" where
  "valid_decision_base lib base =
     (case url_parse lib base of None \<Rightarrow> False
      | Some u \<Rightarrow> url_host u \<noteq> [] \<and> (url_scheme u = ''http'' \<or> url_scheme u = ''https'')
                  \<and> url_raw_query u = [] \<and> url_fragment u = [] \<and> \<not> url_has_user u)"

definition new_decision_provider ::
  "config_lib \<Rightarrow> string \<Rightarrow> provider_options \<Rightarrow> decision_config option \<Rightarrow> string + provider_instance" where
  "new_decision_provider lib name opts cfg =
     (case normalize_decision lib cfg of
        Inl e \<Rightarrow> Inl (''invalid decision configuration: '' @ e)
      | Inr None \<Rightarrow> Inl ''invalid decision configuration: <nil>''
      | Inr (Some d) \<Rightarrow>
          (case decision_base name (po_api_base opts) of
             None \<Rightarrow> Inl (''api_base is required for decision provider '' @ dquoted name)
           | Some base \<Rightarrow>
               if \<not> valid_decision_base lib base
               then Inl ''decision api_base must be an HTTP(S) URL without credentials, query, or fragment''
               else if path d = [] \<and> protocol d = ''cloudflare''
               then Inl ''cloudflare decision.path must identify the Workers AI model, e.g. /@cf/cloudflare/clef''
               else Inr (DecisionProvider name opts d
                      (base @ (if path d = [] then ''/'' @ protocol d else path d)))))"

text \<open>\<open>buildProviderOptions\<close>.\<close>

fun safety_settings_of :: "yaml list \<Rightarrow> safety_setting list" where
  "safety_settings_of [] = []"
| "safety_settings_of (y # ys) =
     (case y of
        YMap m \<Rightarrow> \<lparr>ss_category = opt_or (get_str m ''category'') [],
                   ss_threshold = opt_or (get_str m ''threshold'') []\<rparr> # safety_settings_of ys
      | _ \<Rightarrow> safety_settings_of ys)"

definition build_provider_options :: "model_config \<Rightarrow> provider_options" where
  "build_provider_options mc =
     (let ps = mc_params mc;
          opts = \<lparr>po_api_key = lp_api_key ps, po_api_base = lp_api_base ps,
                  po_extra_headers = lp_extra_headers ps, po_safety_settings = [], po_xml_tool_calls = None\<rparr>
      in case lp_extra_params ps of
           None \<Rightarrow> opts
         | Some ep \<Rightarrow> opts\<lparr>
             po_safety_settings := (case get_list ep ''safety_settings'' of
                Some ss \<Rightarrow> safety_settings_of ss | None \<Rightarrow> []),
             po_xml_tool_calls := get_bool ep ''xml_tool_calls''\<rparr>)"

section \<open>Deployments from the model list\<close>

definition known_cost_policy :: "string \<Rightarrow> bool" where
  "known_cost_policy p \<longleftrightarrow> p \<in> {[], ''prefer_upstream'', ''estimate_only'', ''require_upstream''}"

definition build_deployment ::
  "config_lib \<Rightarrow> registry \<Rightarrow> nat \<Rightarrow> model_config \<Rightarrow> string + deployment" where
  "build_deployment lib reg i mc =
     (if \<not> known_cost_policy (mc_cost_policy mc)
      then Inl (''invalid cost_policy for '' @ mc_model_name mc @ '': '' @ mc_cost_policy mc)
      else
        let (pname, actual) = parse_model_string (lp_model (mc_params mc));
            opts = build_provider_options mc
        in case normalize_decision lib (mc_decision mc) of
             Inl e \<Rightarrow> Inl (''model '' @ mc_model_name mc @ '': '' @ e)
           | Inr dec \<Rightarrow>
               (case (case dec of Some d \<Rightarrow> new_decision_provider lib pname opts (Some d)
                      | None \<Rightarrow> registry_get reg pname opts) of
                  Inl e \<Rightarrow> Inl (''getting provider for '' @ mc_model_name mc @ '': '' @ e)
                | Inr prov \<Rightarrow> Inr \<lparr>
                    dep_id = i, cost_policy = mc_cost_policy mc, decision = dec,
                    model_name = mc_model_name mc, provider_name = pname, actual_model = actual,
                    api_key = lp_api_key (mc_params mc), api_base = lp_api_base (mc_params mc),
                    rpm = mc_rpm mc, tpm = mc_tpm mc\<rparr>))"

type_synonym deployment_table = "(string \<times> deployment list) list"

definition table_get :: "deployment_table \<Rightarrow> string \<Rightarrow> deployment list" where
  "table_get t m = (case map_of t m of Some ds \<Rightarrow> ds | None \<Rightarrow> [])"

fun load_deployments ::
  "config_lib \<Rightarrow> registry \<Rightarrow> nat \<Rightarrow> model_config list \<Rightarrow> deployment_table \<Rightarrow> string + deployment_table" where
  "load_deployments lib reg i [] t = Inr t"
| "load_deployments lib reg i (mc # mcs) t =
     (case build_deployment lib reg i mc of
        Inl e \<Rightarrow> Inl e
      | Inr d \<Rightarrow>
          (let existing = table_get t (mc_model_name mc) in
           if list_ex (\<lambda>e. (decision e = None) \<noteq> (decision d = None)) existing
           then Inl (''model '' @ dquoted (mc_model_name mc)
                     @ '' cannot mix decision and generation deployments; use separate aliases'')
           else load_deployments lib reg (Suc i) mcs (alist_put (mc_model_name mc) (existing @ [d]) t)))"

text \<open>The checks of pools and webhooks; \<open>None\<close> means that they pass.\<close>

definition check_pools :: "string set \<Rightarrow> provider_pool list \<Rightarrow> string option" where
  "check_pools known pools =
     (case find (\<lambda>(pn, mn). mn \<notin> known)
             (concat (map (\<lambda>p. map (\<lambda>m. (pp_name p, pm_model_name m)) (pp_members p)) pools)) of
        None \<Rightarrow> None
      | Some (pn, mn) \<Rightarrow> Some (''provider_pools['' @ dquoted pn @ ''].members: model_name '' @ dquoted mn
                              @ '' not found in model_list''))"

fun check_webhooks :: "nat \<Rightarrow> webhook_config list \<Rightarrow> string option" where
  "check_webhooks i [] = None"
| "check_webhooks i (wh # whs) =
     (if wc_url wh = [] then Some (''webhooks['' @ show_nat i @ '']: url is required'')
      else if wc_events wh = []
      then Some (''webhooks['' @ show_nat i @ '']: events is required and must not be empty'')
      else check_webhooks (Suc i) whs)"

section \<open>Pools\<close>

text \<open>The members of a pool with the weight of each; a weight that is not positive counts as 1.\<close>

fun pool_entries :: "deployment_table \<Rightarrow> pool_member list \<Rightarrow> (deployment \<times> int) list" where
  "pool_entries t [] = []"
| "pool_entries t (m # ms) =
     map (\<lambda>d. (d, if pm_weight m \<le> 0 then 1 else pm_weight m)) (table_get t (pm_model_name m))
     @ pool_entries t ms"

definition entry_weights :: "(deployment \<times> int) list \<Rightarrow> (string \<rightharpoonup> int)" where
  "entry_weights es = foldl (\<lambda>ws (d, w). ws(deployment_key d \<mapsto> w)) Map.empty es"

definition own_strategy :: "string \<Rightarrow> (string \<rightharpoonup> int) \<Rightarrow> strategy option" where
  "own_strategy s ws =
     (if s = ''weighted-round-robin'' then Some (WeightedRoundRobin (new_weighted_round_robin ws))
      else if s = ''round-robin'' then Some (RoundRobin 0)
      else None)"

definition build_pool :: "deployment_table \<Rightarrow> nat \<Rightarrow> nat \<Rightarrow> provider_pool \<Rightarrow> pool \<times> strategy option" where
  "build_pool t global_ref i pc =
     (let es = pool_entries t (pp_members pc);
          ws = entry_weights es;
          own = own_strategy (pp_strategy pc) ws
      in (\<lparr>pool_id = i, pool_name = pp_name pc,
           pool_strategy = (if own = None then global_ref else i),
           pool_members = map fst es, pool_weights = ws,
           pool_model_name = (case pp_members pc of [] \<Rightarrow> [] | m # _ \<Rightarrow> pm_model_name m)\<rparr>, own))"

fun build_pools ::
  "deployment_table \<Rightarrow> nat \<Rightarrow> nat \<Rightarrow> provider_pool list
   \<Rightarrow> (string \<times> pool) list \<Rightarrow> (string \<rightharpoonup> pool) \<Rightarrow> (nat \<Rightarrow> strategy)
   \<Rightarrow> (string \<times> pool) list \<times> (string \<rightharpoonup> pool) \<times> (nat \<Rightarrow> strategy)" where
  "build_pools t g i [] ps mp ss = (ps, mp, ss)"
| "build_pools t g i (pc # pcs) ps mp ss =
     (if pp_enabled pc = Some False then build_pools t g i pcs ps mp ss
      else
        let (p, own) = build_pool t g i pc
        in build_pools t g (Suc i) pcs (alist_put (pp_name pc) p ps)
             (foldl (\<lambda>mp m. mp(pm_model_name m \<mapsto> p)) mp (pp_members pc))
             (case own of Some s \<Rightarrow> ss(i := s) | None \<Rightarrow> ss))"

section \<open>New and Reload\<close>

definition global_strategy :: "router_settings \<Rightarrow> strategy" where
  "global_strategy s = (if routing_strategy s = ''round-robin'' then RoundRobin 0 else Shuffle)"

text \<open>The part of \<open>New\<close> and \<open>Reload\<close> that can fail: deployments and checks.\<close>

definition load_tables :: "config_lib \<Rightarrow> registry \<Rightarrow> nat \<Rightarrow> config \<Rightarrow> string + deployment_table" where
  "load_tables lib reg fresh cfg =
     (case load_deployments lib reg fresh (model_list cfg) [] of
        Inl e \<Rightarrow> Inl e
      | Inr t \<Rightarrow>
          (case check_pools (mc_model_name ` set (model_list cfg)) (provider_pools cfg) of
             Some e \<Rightarrow> Inl e
           | None \<Rightarrow> (case check_webhooks 0 (webhooks cfg) of Some e \<Rightarrow> Inl e | None \<Rightarrow> Inr t)))"

definition new_router :: "config_lib \<Rightarrow> registry \<Rightarrow> nat \<Rightarrow> config \<Rightarrow> bool \<Rightarrow> string + router" where
  "new_router lib reg fresh cfg has_store =
     (case load_tables lib reg fresh cfg of
        Inl e \<Rightarrow> Inl e
      | Inr t \<Rightarrow>
          (let (pools, m2p, ss) = build_pools t fresh (Suc fresh) (provider_pools cfg) [] Map.empty
                                    ((\<lambda>_. Shuffle)(fresh := global_strategy (cfg_router cfg)))
           in Inr \<lparr>
             rt_deployments = t, rt_strategy = fresh, rt_strategies = ss,
             rt_cooldown = new_cooldown_manager (rs_cooldown_time (cfg_router cfg)) (rs_allowed_fails (cfg_router cfg)),
             rt_backoff = new_backoff_manager, rt_settings = cfg_router cfg,
             rt_pools = pools, rt_model_to_pool = m2p,
             rt_sticky = new_sticky_session_manager has_store, rt_capacity = Map.empty,
             rt_budget = set_caps new_pool_budget_manager (provider_pools cfg)\<rparr>))"

definition reload_router ::
  "config_lib \<Rightarrow> registry \<Rightarrow> nat \<Rightarrow> config \<Rightarrow> router \<Rightarrow> string option \<times> router" where
  "reload_router lib reg fresh cfg r =
     (case load_tables lib reg fresh cfg of
        Inl e \<Rightarrow> (Some e, r)
      | Inr t \<Rightarrow>
          (let (pools, m2p, ss) = build_pools t fresh (Suc fresh) (provider_pools cfg) [] Map.empty
                                    ((rt_strategies r)(fresh := global_strategy (cfg_router cfg)))
           in (None, r\<lparr>
             rt_deployments := t, rt_settings := cfg_router cfg, rt_strategy := fresh, rt_strategies := ss,
             rt_cooldown := new_cooldown_manager (rs_cooldown_time (cfg_router cfg)) (rs_allowed_fails (cfg_router cfg)),
             rt_pools := pools, rt_model_to_pool := m2p,
             rt_budget := set_caps (rt_budget r) (provider_pools cfg)\<rparr>)))"

section \<open>Lookups\<close>

text \<open>
  \<open>GetDeployment\<close> skips only deployments in cooldown, and returns the first deployment of
  the model when all of them are. The results are over the state \<open>route_world\<close>, since the cooldown
  check reads the clock and removes expired entries.
\<close>

fun uncooled_members :: "route_env \<Rightarrow> route_world \<Rightarrow> deployment list \<Rightarrow> deployment list \<times> route_world" where
  "uncooled_members env w [] = ([], w)"
| "uncooled_members env w (d # ds) =
     (let (cool, c) = in_cooldown (rt_cooldown w) d (clock env w);
          (hs, w2) = uncooled_members env (tick (w\<lparr>rt_cooldown := c\<rparr>)) ds
      in (if cool then hs else d # hs, w2))"

definition get_deployment ::
  "route_env \<Rightarrow> route_world \<Rightarrow> string \<Rightarrow> (string + deployment option) \<times> route_world" where
  "get_deployment env w m =
     (case table_get (rt_deployments w) m of
        [] \<Rightarrow> (Inl (''model not found: '' @ m), w)
      | d # ds \<Rightarrow>
          (let (healthy, w1) = uncooled_members env w (d # ds)
           in if healthy = [] then (Inr (Some d), w1)
              else (let (x, w2) = select_from env w1 (rt_strategy w1) healthy in (Inr x, w2))))"

definition get_deployment_by_key :: "('a) router_scheme \<Rightarrow> string \<Rightarrow> string \<Rightarrow> string + deployment" where
  "get_deployment_by_key r m key =
     (case find_deployment_by_key (table_get (rt_deployments r) m) key of
        Some d \<Rightarrow> Inr d
      | None \<Rightarrow> Inl (''no deployment found for model '' @ dquoted m @ '' with key '' @ dquoted key))"

definition list_models :: "('a) router_scheme \<Rightarrow> string list" where
  "list_models r = map fst (rt_deployments r)"

definition get_pool :: "('a) router_scheme \<Rightarrow> string \<Rightarrow> pool option" where
  "get_pool r name = map_of (rt_pools r) name"

definition get_pool_for_model :: "('a) router_scheme \<Rightarrow> string \<Rightarrow> pool option" where
  "get_pool_for_model r m = rt_model_to_pool r m"

text \<open>\<open>IsPoolFullyCooled\<close> stops at the first member that is not in cooldown.\<close>

fun all_cooled :: "route_env \<Rightarrow> route_world \<Rightarrow> deployment list \<Rightarrow> bool \<times> route_world" where
  "all_cooled env w [] = (True, w)"
| "all_cooled env w (d # ds) =
     (let (cool, c) = in_cooldown (rt_cooldown w) d (clock env w);
          w1 = tick (w\<lparr>rt_cooldown := c\<rparr>)
      in if cool then all_cooled env w1 ds else (False, w1))"

definition is_pool_fully_cooled :: "route_env \<Rightarrow> route_world \<Rightarrow> pool option \<Rightarrow> bool \<times> route_world" where
  "is_pool_fully_cooled env w po =
     (case po of None \<Rightarrow> (False, w)
      | Some p \<Rightarrow> if pool_members p = [] then (False, w) else all_cooled env w (pool_members p))"

text \<open>
  \<open>Start\<close> and \<open>Close\<close> run and stop the flush and cleanup loops of the sticky sessions. \<open>Close\<close> closes the stop
  channel when there is one and flushes; closing a closed channel panics, which is \<open>None\<close>.
\<close>

datatype stop_channel = NoChannel | OpenChannel | ClosedChannel

definition router_start :: "stop_channel \<Rightarrow> stop_channel" where
  "router_start ch = OpenChannel"

definition router_close ::
  "stop_channel \<Rightarrow> sticky_manager \<Rightarrow> (stop_channel \<times> sticky_row list \<times> sticky_manager) option" where
  "router_close ch sm =
     (case ch of
        ClosedChannel \<Rightarrow> None
      | OpenChannel \<Rightarrow> (let (batch, sm') = sticky_flush sm in Some (ClosedChannel, batch, sm'))
      | NoChannel \<Rightarrow> (let (batch, sm') = sticky_flush sm in Some (NoChannel, batch, sm')))"

section \<open>Status reports\<close>

text \<open>One clock reading \<open>now\<close> stands for all readings of a report.\<close>

record deployment_info =
  di_decision :: "decision_config option"
  di_provider :: string
  di_actual_model :: string
  di_api_base :: string
  di_status :: string
  di_failure_count :: int
  di_cooldown_until :: "time option"
  di_rpm :: int
  di_tpm :: int

record model_status =
  ms_model_name :: string
  ms_total :: int
  ms_healthy :: int
  ms_deployments :: "deployment_info list"

record pool_deployment_info =
  pd_provider :: string
  pd_actual_model :: string
  pd_status :: string
  pd_failure_count :: int
  pd_cooldown_until :: "time option"
  pd_weight :: int

record pool_status =
  pst_name :: string
  pst_strategy :: string
  pst_budget_spent :: f64
  pst_budget_cap :: f64
  pst_deployments :: "pool_deployment_info list"

text \<open>Cooldown takes priority over backoff.\<close>

definition health_text :: "('a) router_scheme \<Rightarrow> time \<Rightarrow> deployment \<Rightarrow> string" where
  "health_text r now d =
     (if status_in_cooldown (cooldown_status (rt_cooldown r) d now) then ''cooldown''
      else if in_backoff (rt_backoff r) (deployment_key d) now then ''backoff'' else ''healthy'')"

definition status_until :: "('a) router_scheme \<Rightarrow> time \<Rightarrow> deployment \<Rightarrow> time option" where
  "status_until r now d =
     (let s = cooldown_status (rt_cooldown r) d now
      in if status_in_cooldown s then Some (cooldown_until s) else None)"

definition deployment_info_of :: "('a) router_scheme \<Rightarrow> time \<Rightarrow> deployment \<Rightarrow> deployment_info" where
  "deployment_info_of r now d = \<lparr>
     di_decision = decision d, di_provider = provider_name d, di_actual_model = actual_model d,
     di_api_base = api_base d, di_status = health_text r now d,
     di_failure_count = failure_count (cooldown_status (rt_cooldown r) d now),
     di_cooldown_until = status_until r now d, di_rpm = rpm d, di_tpm = tpm d\<rparr>"

definition model_status_of :: "('a) router_scheme \<Rightarrow> time \<Rightarrow> string \<times> deployment list \<Rightarrow> model_status" where
  "model_status_of r now x =
     (case x of (m, ds) \<Rightarrow> \<lparr>
        ms_model_name = m, ms_total = int (length ds),
        ms_healthy = int (length (filter (\<lambda>d. health_text r now d \<noteq> ''cooldown'') ds)),
        ms_deployments = map (deployment_info_of r now) ds\<rparr>)"

definition get_status :: "('a) router_scheme \<Rightarrow> time \<Rightarrow> model_status list" where
  "get_status r now = sort_key ms_model_name (map (model_status_of r now) (rt_deployments r))"

definition pool_deployment_info_of :: "('a) router_scheme \<Rightarrow> time \<Rightarrow> pool \<Rightarrow> deployment \<Rightarrow> pool_deployment_info" where
  "pool_deployment_info_of r now p d = \<lparr>
     pd_provider = provider_name d, pd_actual_model = actual_model d, pd_status = health_text r now d,
     pd_failure_count = failure_count (cooldown_status (rt_cooldown r) d now),
     pd_cooldown_until = status_until r now d,
     pd_weight = (case pool_weights p (deployment_key d) of Some x \<Rightarrow> x | None \<Rightarrow> 1)\<rparr>"

definition pool_status_of :: "('a) router_scheme \<Rightarrow> time \<Rightarrow> pool \<Rightarrow> pool_status" where
  "pool_status_of r now p = \<lparr>
     pst_name = pool_name p, pst_strategy = strategy_name (rt_strategies r (pool_strategy p)),
     pst_budget_spent = current_spend (rt_budget r) (pool_name p),
     pst_budget_cap = fst (get_cap (rt_budget r) (pool_name p)),
     pst_deployments = map (pool_deployment_info_of r now p) (pool_members p)\<rparr>"

definition get_pool_status :: "('a) router_scheme \<Rightarrow> time \<Rightarrow> pool_status list" where
  "get_pool_status r now = sort_key pst_name (map (\<lambda>(n, p). pool_status_of r now p) (rt_pools r))"

section \<open>Well-formed routers\<close>

text \<open>
  No alias mixes decision and generation deployments, and every deployment has its own address.
\<close>

definition entry_wf :: "string \<Rightarrow> deployment list \<Rightarrow> bool" where
  "entry_wf m ds \<longleftrightarrow> ds \<noteq> [] \<and> list_all (\<lambda>d. model_name d = m
     \<and> (decision d = None) = (decision (hd ds) = None)) ds"

definition table_wf :: "deployment_table \<Rightarrow> bool" where
  "table_wf t \<longleftrightarrow> distinct (map fst t) \<and> distinct (map dep_id (concat (map snd t)))
     \<and> (\<forall>x \<in> set t. entry_wf (fst x) (snd x))"

definition pool_wf :: "deployment_table \<Rightarrow> pool \<Rightarrow> bool" where
  "pool_wf t p \<longleftrightarrow> set (pool_members p) \<subseteq> set (concat (map snd t))
     \<and> (\<forall>k x. pool_weights p k = Some x \<longrightarrow> 1 \<le> x)
     \<and> (\<forall>d \<in> set (pool_members p). pool_weights p (deployment_key d) \<noteq> None)"

definition router_wf :: "router \<Rightarrow> bool" where
  "router_wf r \<longleftrightarrow> table_wf (rt_deployments r)
     \<and> list_all (\<lambda>(n, p). pool_name p = n \<and> pool_wf (rt_deployments r) p) (rt_pools r)
     \<and> (\<forall>m p. rt_model_to_pool r m = Some p \<longrightarrow> pool_wf (rt_deployments r) p)"

lemma mset_put_append:
  "mset (concat (map snd (alist_put k (table_get t k @ [d]) t))) = add_mset d (mset (concat (map snd t)))"
  by (induction t) (auto simp: table_get_def)

lemma alist_put_mem: "x \<in> set (alist_put k v t) \<Longrightarrow> x = (k, v) \<or> x \<in> set t"
  by (induction t) (auto split: if_splits)

lemma table_get_mem: "table_get t m \<noteq> [] \<Longrightarrow> (m, table_get t m) \<in> set t"
  by (auto simp: table_get_def dest: map_of_SomeD split: option.splits)

lemma set_table_get: "set (table_get t m) \<subseteq> set (concat (map snd t))"
  using table_get_mem [of t m] by (cases "table_get t m = []") force+

lemma table_wf_add:
  assumes "table_wf t" "model_name d = k" "dep_id d \<notin> dep_id ` set (concat (map snd t))"
    and "\<not> list_ex (\<lambda>e. (decision e = None) \<noteq> (decision d = None)) (table_get t k)"
  shows "table_wf (alist_put k (table_get t k @ [d]) t)"
proof -
  let ?t = "alist_put k (table_get t k @ [d]) t"
  have m: "mset (map dep_id (concat (map snd ?t))) = add_mset (dep_id d) (mset (map dep_id (concat (map snd t))))"
    by (simp only: mset_map mset_put_append image_mset_add_mset)
  have "distinct (map dep_id (concat (map snd t)))" using assms(1) by (simp only: table_wf_def)
  then have "distinct (dep_id d # map dep_id (concat (map snd t)))"
    using assms(3) by (simp only: distinct.simps set_map) simp
  moreover have "mset (map dep_id (concat (map snd ?t))) = mset (dep_id d # map dep_id (concat (map snd t)))"
    using m by simp
  ultimately have ids: "distinct (map dep_id (concat (map snd ?t)))"
    by (metis mset_eq_imp_distinct_iff)
  have old: "\<forall>x \<in> set t. entry_wf (fst x) (snd x)" using assms(1) unfolding table_wf_def by blast
  have new: "entry_wf k (table_get t k @ [d])"
  proof (cases "table_get t k = []")
    case True
    then show ?thesis using assms(2) by (simp add: entry_wf_def)
  next
    case False
    let ?ds = "table_get t k"
    have "entry_wf k ?ds" using old table_get_mem [OF False] by force
    then have o: "\<forall>e \<in> set ?ds. model_name e = k" by (simp add: list_all_iff entry_wf_def)
    have h: "\<forall>e \<in> set ?ds. (decision e = None) = (decision d = None)"
      using assms(4) by (simp add: list_ex_iff)
    then have hd: "(decision (hd ?ds) = None) = (decision d = None)" using False by simp
    show ?thesis using o h hd False assms(2) by (simp add: list_all_iff entry_wf_def)
  qed
  have "\<forall>x \<in> set ?t. entry_wf (fst x) (snd x)"
  proof
    fix x
    assume "x \<in> set ?t"
    from alist_put_mem [OF this] show "entry_wf (fst x) (snd x)" using old new by auto
  qed
  then show ?thesis
    using ids assms(1) by (simp only: table_wf_def distinct_alist_put simp_thms)
qed

lemma build_deployment_id:
  "build_deployment lib reg i mc = Inr d \<Longrightarrow> dep_id d = i \<and> model_name d = mc_model_name mc"
  by (auto simp: build_deployment_def Let_def split: if_splits prod.splits sum.splits)

lemma load_deployments_wf:
  assumes "load_deployments lib reg i mcs t = Inr t'" "table_wf t"
    and "\<forall>d \<in> set (concat (map snd t)). dep_id d < i"
  shows "table_wf t' \<and> fst ` set t' = fst ` set t \<union> mc_model_name ` set mcs"
  using assms
proof (induction mcs arbitrary: i t)
  case Nil
  then show ?case by simp
next
  case (Cons mc mcs)
  let ?k = "mc_model_name mc"
  obtain d where d: "build_deployment lib reg i mc = Inr d"
    and mix: "\<not> list_ex (\<lambda>e. (decision e = None) \<noteq> (decision d = None)) (table_get t ?k)"
    and rest: "load_deployments lib reg (Suc i) mcs (alist_put ?k (table_get t ?k @ [d]) t) = Inr t'"
    using Cons.prems(1) by (auto simp: Let_def split: sum.splits if_splits)
  let ?t = "alist_put ?k (table_get t ?k @ [d]) t"
  note di = build_deployment_id [OF d]
  have "dep_id d \<notin> dep_id ` set (concat (map snd t))" using Cons.prems(3) di by force
  then have wf: "table_wf ?t" using table_wf_add [OF Cons.prems(2) _ _ mix] di by simp
  have "set (concat (map snd ?t)) = insert d (set (concat (map snd t)))"
    using mset_put_append [of ?k t d] by (metis set_mset_add_mset_insert set_mset_mset)
  then have "\<forall>d \<in> set (concat (map snd ?t)). dep_id d < Suc i"
    using Cons.prems(3) di by (simp only: ball_simps) (auto simp: less_Suc_eq)
  from Cons.IH [OF rest wf this] show ?case by (simp add: keys_alist_put)
qed

lemma entry_weights_spec:
  assumes "\<forall>(d, x) \<in> set es. 1 \<le> x" "\<forall>k x. ws k = Some x \<longrightarrow> 1 \<le> x"
  shows "(\<forall>k x. foldl (\<lambda>ws (d, w). ws(deployment_key d \<mapsto> w)) ws es k = Some x \<longrightarrow> 1 \<le> x)
    \<and> (\<forall>k. (k \<in> (deployment_key \<circ> fst) ` set es \<or> ws k \<noteq> None)
          \<longrightarrow> foldl (\<lambda>ws (d, w). ws(deployment_key d \<mapsto> w)) ws es k \<noteq> None)"
  using assms
proof (induction es arbitrary: ws)
  case Nil
  then show ?case by simp
next
  case (Cons e es)
  obtain d x where e: "e = (d, x)" by (cases e)
  have "\<forall>k y. (ws(deployment_key d \<mapsto> x)) k = Some y \<longrightarrow> 1 \<le> y" using Cons.prems by (auto simp: e)
  from Cons.IH [OF _ this] Cons.prems show ?case by (auto simp: e)
qed

lemma pool_entries_spec:
  "(\<forall>(d, x) \<in> set (pool_entries t ms). 1 \<le> x) \<and> fst ` set (pool_entries t ms) \<subseteq> set (concat (map snd t))"
proof (induction ms)
  case Nil
  then show ?case by simp
next
  case (Cons m ms)
  then show ?case using set_table_get [of t "pm_model_name m"] by (auto simp: image_Un image_image)
qed

lemma build_pool_wf: "pool_wf t (fst (build_pool t g i pc)) \<and> pool_name (fst (build_pool t g i pc)) = pp_name pc"
proof -
  let ?es = "pool_entries t (pp_members pc)"
  note es = pool_entries_spec [of t "pp_members pc"]
  note ws = entry_weights_spec [of ?es Map.empty, folded entry_weights_def]
  show ?thesis
    using es ws by (auto simp: build_pool_def Let_def pool_wf_def image_comp)
qed

lemma foldl_upd_mem:
  "foldl (\<lambda>mp m. mp(pm_model_name m \<mapsto> p)) mp ms k = Some q \<Longrightarrow> q = p \<or> mp k = Some q"
proof (induction ms arbitrary: mp)
  case Nil
  then show ?case by simp
next
  case (Cons m ms)
  have "q = p \<or> (mp(pm_model_name m \<mapsto> p)) k = Some q"
    by (rule Cons.IH) (use Cons.prems in simp)
  then show ?case by (auto split: if_splits)
qed

lemma build_pools_wf:
  assumes "build_pools t g i pcs ps mp ss = (ps', mp', ss')"
    and "\<forall>(n, p) \<in> set ps. pool_name p = n \<and> pool_wf t p" "\<forall>m p. mp m = Some p \<longrightarrow> pool_wf t p"
  shows "(\<forall>(n, p) \<in> set ps'. pool_name p = n \<and> pool_wf t p) \<and> (\<forall>m p. mp' m = Some p \<longrightarrow> pool_wf t p)"
  using assms
proof (induction pcs arbitrary: i ps mp ss)
  case Nil
  then show ?case by simp
next
  case (Cons pc pcs)
  show ?case
  proof (cases "pp_enabled pc = Some False")
    case True
    then have "build_pools t g i pcs ps mp ss = (ps', mp', ss')" using Cons.prems(1) by simp
    then show ?thesis using Cons.prems(2,3) by (rule Cons.IH)
  next
    case False
    obtain p own where bp: "build_pool t g i pc = (p, own)" by (cases "build_pool t g i pc")
    have p: "pool_wf t p" "pool_name p = pp_name pc" using build_pool_wf [of t g i pc] bp by simp_all
    let ?mp = "foldl (\<lambda>mp m. mp(pm_model_name m \<mapsto> p)) mp (pp_members pc)"
    have rest: "build_pools t g (Suc i) pcs (alist_put (pp_name pc) p ps) ?mp
        (case own of Some s \<Rightarrow> ss(i := s) | None \<Rightarrow> ss) = (ps', mp', ss')"
      using Cons.prems(1) False bp by simp
    have "\<forall>(n, q) \<in> set (alist_put (pp_name pc) p ps). pool_name q = n \<and> pool_wf t q"
      using Cons.prems(2) p by (fastforce dest: alist_put_mem)
    moreover have "\<forall>m q. ?mp m = Some q \<longrightarrow> pool_wf t q"
      using Cons.prems(3) p(1) foldl_upd_mem by metis
    ultimately show ?thesis using Cons.IH [OF rest] by blast
  qed
qed

lemma load_tables_wf: "load_tables lib reg fresh cfg = Inr t \<Longrightarrow> table_wf t"
  using load_deployments_wf [where t = "[]"]
  by (auto simp: load_tables_def table_wf_def split: sum.splits option.splits)

section \<open>Properties\<close>

text \<open>
  C32. A router that \<open>New\<close> builds is well formed: every deployment has its own address and sits under its
  model name, no alias mixes decision and generation deployments, and the members of every pool,
  whether reached by its name or by a model, are deployments of the model list with a positive weight.
\<close>

theorem new_router_wf:
  assumes "new_router lib reg fresh cfg has_store = Inr r"
  shows "router_wf r"
proof -
  obtain t where t: "load_tables lib reg fresh cfg = Inr t"
    using assms by (auto simp: new_router_def split: sum.splits)
  obtain ps mp ss where b: "build_pools t fresh (Suc fresh) (provider_pools cfg) [] Map.empty
      ((\<lambda>_. Shuffle)(fresh := global_strategy (cfg_router cfg))) = (ps, mp, ss)"
    by (metis prod_cases3)
  have r: "rt_deployments r = t" "rt_pools r = ps" "rt_model_to_pool r = mp"
    using assms t b by (auto simp: new_router_def)
  have "(\<forall>(n, p) \<in> set ps. pool_name p = n \<and> pool_wf t p) \<and> (\<forall>m p. mp m = Some p \<longrightarrow> pool_wf t p)"
    by (rule build_pools_wf [OF b]) simp_all
  then show ?thesis
    unfolding router_wf_def r list_all_iff using load_tables_wf [OF t] by blast
qed

definition sample_model :: "string \<Rightarrow> string \<Rightarrow> model_config" where
  "sample_model n m = \<lparr>mc_cost_policy = [], mc_decision = None, mc_model_name = n,
     mc_params = no_params\<lparr>lp_model := m\<rparr>, mc_rpm = 0, mc_tpm = 0\<rparr>"

definition sample_cfg :: config where
  "sample_cfg = config_defaults\<lparr>
     model_list := [sample_model ''chat'' ''openai/gpt'', sample_model ''chat'' ''anthropic/claude''],
     provider_pools := [\<lparr>pp_name = ''main'', pp_enabled = None, pp_strategy = ''weighted-round-robin'',
        pp_budget_cap_daily = 0, pp_members = [\<lparr>pm_model_name = ''chat'', pm_weight = 0\<rparr>]\<rparr>]\<rparr>"

lemma sample_router_loads:
  "\<exists>r. new_router sample_config_lib {''openai'', ''anthropic''} 0 sample_cfg False = Inr r"
  by (simp add: new_router_def load_tables_def sample_cfg_def sample_model_def config_defaults_def no_params_def
      build_deployment_def known_cost_policy_def parse_model_string_def split_first_def normalize_decision_def
      registry_get_def table_get_def check_pools_def build_pool_def Let_def own_strategy_def split: prod.splits)

theorem new_router_wf_witness:
  "\<exists>r. new_router sample_config_lib {''openai'', ''anthropic''} 0 sample_cfg False = Inr r \<and> router_wf r"
  using sample_router_loads new_router_wf by blast


text \<open>\<open>Close\<close> is documented as safe to call twice; the second call closes a closed channel.\<close>

lemma close_twice_panics:
  "router_close (router_start ch) sm = Some (ch', batch, sm') \<Longrightarrow> router_close ch' sm' = None"
  by (auto simp: router_close_def router_start_def split: prod.splits)

end
