(* ===== verification/Keystore.thy ===== *)
theory Keystore
  imports Ledger Errors
begin

text \<open>
  API keys: the key cache (\<open>internal/keystore/cache.go\<close>), the request counters (\<open>counters.go\<close>), the
  spend totals (\<open>spend.go\<close>) and the authentication of a request (\<open>internal/api/middleware/keyauth.go\<close>).

  The database is the record \<open>key_db\<close>, the two queries \<open>Get\<close> makes as functions; \<open>Inl\<close> is a
  database error. A counter key \<open>"rpm:<id>:<minute>"\<close> or \<open>"rpd:<id>:<day>"\<close> is the
  value of \<open>counter_key\<close> with the same parts. A Go map iterated with \<open>Range\<close> is an association list.
\<close>

section \<open>Keys and their cache\<close>

record stored_key =
  key_id :: int
  key_active :: bool
  key_max_rpm :: "int option"
  key_max_rpd :: "int option"
  key_max_budget :: "f64 option"
  key_team_name :: string
  key_app_name :: string

record cached_key =
  ck_key :: stored_key
  ck_allowed_models :: "string list"
  ck_team_name :: string
  ck_app_name :: string

record cache_entry =
  ce_value :: cached_key
  ce_expires_at :: time
  ce_key_id :: int

record key_cache =
  kc_ttl :: duration
  kc_store :: "(string \<times> cache_entry) list"

record key_db =
  db_key_by_hash :: "string \<Rightarrow> goerror + stored_key option"
  db_allowed_models :: "int \<Rightarrow> goerror + string list"

definition new_cache :: "duration \<Rightarrow> key_cache" where
  "new_cache ttl = \<lparr>kc_ttl = (if ttl = 0 then 60 * second else ttl), kc_store = []\<rparr>"

text \<open>
  \<open>Get\<close> has no lock: it reads the cache, queries the database and stores the answer as three steps,
  between which other requests run. Reading an expired entry removes it.
\<close>

definition cache_lookup :: "key_cache \<Rightarrow> string \<Rightarrow> time \<Rightarrow> cached_key option \<times> key_cache" where
  "cache_lookup c hash now =
     (case map_of (kc_store c) hash of
        None \<Rightarrow> (None, c)
      | Some e \<Rightarrow> if now < ce_expires_at e then (Some (ce_value e), c)
                  else (None, c\<lparr>kc_store := filter (\<lambda>(h, e). h \<noteq> hash) (kc_store c)\<rparr>))"

definition fetch_key :: "key_db \<Rightarrow> string \<Rightarrow> goerror + cached_key option" where
  "fetch_key db hash =
     (case db_key_by_hash db hash of
        Inl e \<Rightarrow> Inl e
      | Inr None \<Rightarrow> Inr None
      | Inr (Some k) \<Rightarrow>
          (case db_allowed_models db (key_id k) of
             Inl e \<Rightarrow> Inl e
           | Inr ms \<Rightarrow> Inr (Some \<lparr>ck_key = k, ck_allowed_models = ms,
               ck_team_name = key_team_name k, ck_app_name = key_app_name k\<rparr>)))"

definition cache_store :: "key_cache \<Rightarrow> string \<Rightarrow> cached_key \<Rightarrow> time \<Rightarrow> key_cache" where
  "cache_store c hash ck now =
     c\<lparr>kc_store := alist_put hash \<lparr>ce_value = ck, ce_expires_at = now + kc_ttl c, ce_key_id = key_id (ck_key ck)\<rparr>
         (kc_store c)\<rparr>"

definition cache_get ::
  "golib \<Rightarrow> key_db \<Rightarrow> key_cache \<Rightarrow> string \<Rightarrow> time \<Rightarrow> time \<Rightarrow> (goerror + cached_key option) \<times> key_cache" where
  "cache_get lib db c token now1 now2 =
     (let hash = sha256_hex lib token in
      case cache_lookup c hash now1 of
        (Some ck, c1) \<Rightarrow> (Inr (Some ck), c1)
      | (None, c1) \<Rightarrow>
          (case fetch_key db hash of
             Inl e \<Rightarrow> (Inl e, c1)
           | Inr None \<Rightarrow> (Inr None, c1)
           | Inr (Some ck) \<Rightarrow> (Inr (Some ck), cache_store c1 hash ck now2)))"

definition cache_invalidate :: "key_cache \<Rightarrow> int \<Rightarrow> key_cache" where
  "cache_invalidate c i = c\<lparr>kc_store := filter (\<lambda>(h, e). ce_key_id e \<noteq> i) (kc_store c)\<rparr>"

section \<open>Request counters\<close>

datatype counter_key = RPM int int | RPD int int

type_synonym rate_limiter = "counter_key \<rightharpoonup> int"

definition new_rate_limiter :: rate_limiter where
  "new_rate_limiter = Map.empty"

definition increment :: "rate_limiter \<Rightarrow> counter_key \<Rightarrow> int \<times> rate_limiter" where
  "increment rl key = (let n = mget rl key 0 + 1 in (n, rl(key \<mapsto> n)))"

text \<open>The window number stands for \<open>Truncate(window).Unix()\<close>.\<close>

definition rpm_key :: "int \<Rightarrow> time \<Rightarrow> counter_key" where
  "rpm_key i now = RPM i (now div minute)"

definition rpd_key :: "int \<Rightarrow> time \<Rightarrow> counter_key" where
  "rpd_key i now = RPD i (now div day)"

definition check_rpm :: "rate_limiter \<Rightarrow> int \<Rightarrow> int \<Rightarrow> time \<Rightarrow> bool \<times> rate_limiter" where
  "check_rpm rl i max_rpm now =
     (if max_rpm \<le> 0 then (True, rl)
      else (let (n, rl') = increment rl (rpm_key i now) in (n \<le> max_rpm, rl')))"

definition check_rpd :: "rate_limiter \<Rightarrow> int \<Rightarrow> int \<Rightarrow> time \<Rightarrow> bool \<times> rate_limiter" where
  "check_rpd rl i max_rpd now =
     (if max_rpd \<le> 0 then (True, rl)
      else (let (n, rl') = increment rl (rpd_key i now) in (n \<le> max_rpd, rl')))"

section \<open>Spend totals\<close>

type_synonym spend_accumulator = "(int \<times> f64) list"

definition new_spend_accumulator :: spend_accumulator where
  "new_spend_accumulator = []"

definition key_spend :: "spend_accumulator \<Rightarrow> int \<Rightarrow> f64" where
  "key_spend sa i = (case map_of sa i of Some t \<Rightarrow> t | None \<Rightarrow> 0)"

definition key_credit :: "spend_accumulator \<Rightarrow> int \<Rightarrow> f64 \<Rightarrow> spend_accumulator" where
  "key_credit sa i cost = alist_put i (fadd (key_spend sa i) cost) sa"

definition accept_spend :: "spend_accumulator \<Rightarrow> int \<Rightarrow> f64 \<Rightarrow> f64 \<Rightarrow> bool" where
  "accept_spend sa i cost max_budget =
     (if max_budget \<le> 0 then True else fadd (key_spend sa i) cost \<le> max_budget)"

text \<open>\<open>None\<close> is a failed query; the totals of the database replace those of the same keys.\<close>

definition key_spend_init :: "(int \<times> f64) list option \<Rightarrow> spend_accumulator \<Rightarrow> bool \<times> spend_accumulator" where
  "key_spend_init rows sa =
     (case rows of None \<Rightarrow> (False, sa) | Some rs \<Rightarrow> (True, foldl (\<lambda>s (i, t). alist_put i t s) sa rs))"

text \<open>
  \<open>FlushToStorage\<close>: the rows handed to the database in order, and the key whose write failed first.
\<close>

fun key_spend_flush :: "(int \<Rightarrow> bool) \<Rightarrow> spend_accumulator \<Rightarrow> int option \<Rightarrow> int option \<times> (int \<times> f64) list" where
  "key_spend_flush fails [] err = (err, [])"
| "key_spend_flush fails ((i, t) # sa) err =
     (if t \<le> 0 then key_spend_flush fails sa err
      else if fails i
      then key_spend_flush fails sa (case err of None \<Rightarrow> Some i | Some e \<Rightarrow> Some e)
      else (let (e, rows) = key_spend_flush fails sa err in (e, (i, t) # rows)))"

interpretation key_ledger: spend_ledger key_credit key_spend
  by unfold_locales (simp_all add: key_credit_def key_spend_def)

section \<open>Authentication\<close>

record auth_state =
  as_cache :: key_cache
  as_counters :: rate_limiter
  as_spend :: spend_accumulator

datatype auth_result = AuthRejected goerror | AuthMaster | AuthKey cached_key

text \<open>\<open>strings.TrimPrefix\<close>, and the header that carries the token.\<close>

definition trim_prefix :: "string \<Rightarrow> string \<Rightarrow> string" where
  "trim_prefix p s = (if take (length p) s = p then drop (length p) s else s)"

definition request_token :: "string \<Rightarrow> string \<Rightarrow> string \<Rightarrow> string" where
  "request_token url_path authorization x_api_key =
     (if url_path = ''/v1/messages'' \<and> authorization = [] then x_api_key
      else trim_prefix ''Bearer '' authorization)"

text \<open>The three checks of a full request, in order; the rpd counter is touched only when rpm passes.\<close>

definition check_limits :: "auth_state \<Rightarrow> cached_key \<Rightarrow> time \<Rightarrow> time \<Rightarrow> auth_result \<times> auth_state" where
  "check_limits st ck now_rpm now_rpd =
     (let k = ck_key ck;
          (ok1, rl1) = (case key_max_rpm k of None \<Rightarrow> (True, as_counters st)
                        | Some m \<Rightarrow> check_rpm (as_counters st) (key_id k) m now_rpm);
          st1 = st\<lparr>as_counters := rl1\<rparr>
      in if \<not> ok1 then (AuthRejected (err_rate_limited ''rate limit exceeded: requests per minute''), st1)
         else
           let (ok2, rl2) = (case key_max_rpd k of None \<Rightarrow> (True, rl1)
                             | Some m \<Rightarrow> check_rpd rl1 (key_id k) m now_rpd);
               st2 = st1\<lparr>as_counters := rl2\<rparr>
           in if \<not> ok2 then (AuthRejected (err_rate_limited ''rate limit exceeded: requests per day''), st2)
              else (case key_max_budget k of
                      None \<Rightarrow> (AuthKey ck, st2)
                    | Some b \<Rightarrow>
                        if b \<le> key_spend (as_spend st2) (key_id k)
                        then (AuthRejected (err_budget_exceeded ''hard budget limit exceeded for this API key''), st2)
                        else (AuthKey ck, st2)))"

text \<open>\<open>keyAuth\<close>: \<open>clk\<close> are the clock readings of the cache (two), the minute and the day.\<close>

definition key_auth ::
  "golib \<Rightarrow> key_db \<Rightarrow> string \<Rightarrow> bool \<Rightarrow> auth_state \<Rightarrow> string \<Rightarrow> time \<times> time \<times> time \<times> time
   \<Rightarrow> auth_result \<times> auth_state" where
  "key_auth lib db master read_only st token clk =
     (case clk of (t1, t2, t3, t4) \<Rightarrow>
        if token = [] then (AuthRejected (err_unauthorized ''missing API key''), st)
        else if master \<noteq> [] \<and> token = master then (AuthMaster, st)
        else
          let (r, c) = cache_get lib db (as_cache st) token t1 t2;
              st1 = st\<lparr>as_cache := c\<rparr>
          in case r of
               Inl e \<Rightarrow> (AuthRejected (err_internal ''key lookup failed''), st1)
             | Inr None \<Rightarrow> (AuthRejected (err_unauthorized ''invalid API key''), st1)
             | Inr (Some ck) \<Rightarrow>
                 if \<not> key_active (ck_key ck)
                 then (AuthRejected (err_unauthorized ''API key has been revoked''), st1)
                 else if read_only then (AuthKey ck, st1)
                 else check_limits st1 ck t3 t4)"

section \<open>Lemmas\<close>

lemma cache_lookup_stored:
  "fst (cache_lookup (cache_store c h ck t) h now) = (if now < t + kc_ttl c then Some ck else None)"
  by (simp add: cache_lookup_def cache_store_def)

lemma cache_invalidate_removes:
  "map_of (kc_store (cache_invalidate c i)) h = Some e \<Longrightarrow> ce_key_id e \<noteq> i"
  by (auto simp: cache_invalidate_def dest: map_of_SomeD)

lemma check_limits_admits:
  assumes "check_limits st ck t3 t4 = (AuthKey ck', st')"
  shows "ck' = ck \<and> (\<forall>b. key_max_budget (ck_key ck) = Some b \<longrightarrow> key_spend (as_spend st) (key_id (ck_key ck)) < b)
    \<and> as_cache st' = as_cache st \<and> as_spend st' = as_spend st"
  using assms by (auto simp: check_limits_def Let_def split: if_splits option.splits prod.splits)

lemma check_limits_not_master: "fst (check_limits st ck t3 t4) \<noteq> AuthMaster"
  by (simp add: check_limits_def Let_def split: option.splits prod.splits)

text \<open>A run of rpm checks of any keys; \<open>limit\<close> is each key's \<open>max_rpm\<close>.\<close>

fun run_rpm :: "(int \<Rightarrow> int) \<Rightarrow> rate_limiter \<Rightarrow> (int \<times> time) list \<Rightarrow> bool list \<times> rate_limiter" where
  "run_rpm limit rl [] = ([], rl)"
| "run_rpm limit rl ((i, now) # rs) =
     (let (ok, rl1) = check_rpm rl i (limit i) now; (oks, rl2) = run_rpm limit rl1 rs in (ok # oks, rl2))"

lemma run_rpm_Cons:
  "fst (run_rpm limit rl ((i, now) # rs)) =
     fst (check_rpm rl i (limit i) now) # fst (run_rpm limit (snd (check_rpm rl i (limit i) now)) rs)"
  by (simp split: prod.splits)

definition accepted_in :: "int \<Rightarrow> int \<Rightarrow> (int \<times> time) list \<Rightarrow> bool list \<Rightarrow> int" where
  "accepted_in i win rs oks =
     int (length (filter (\<lambda>((j, t), ok). ok \<and> j = i \<and> t div minute = win) (zip rs oks)))"

definition requests_in :: "int \<Rightarrow> int \<Rightarrow> (int \<times> time) list \<Rightarrow> int" where
  "requests_in i win rs = int (length (filter (\<lambda>(j, t). j = i \<and> t div minute = win) rs))"

lemma run_rpm_accepted:
  assumes "0 < limit i" "0 \<le> mget rl (RPM i win) 0"
  shows "accepted_in i win rs (fst (run_rpm limit rl rs))
    = min (max 0 (limit i - mget rl (RPM i win) 0)) (requests_in i win rs)"
  using assms(2)
proof (induction rs arbitrary: rl)
  case Nil
  then show ?case by (simp add: accepted_in_def requests_in_def)
next
  case (Cons r rs)
  obtain j t where r: "r = (j, t)" by (cases r)
  let ?rl = "snd (check_rpm rl j (limit j) t)"
  let ?here = "j = i \<and> t div minute = win"
  have acc: "accepted_in i win (r # rs) (fst (run_rpm limit rl (r # rs)))
     = (if fst (check_rpm rl j (limit j) t) \<and> ?here then 1 else 0) + accepted_in i win rs (fst (run_rpm limit ?rl rs))"
    by (simp add: r accepted_in_def run_rpm_Cons del: run_rpm.simps)
  have req: "requests_in i win (r # rs) = (if ?here then 1 else 0) + requests_in i win rs"
    by (simp add: r requests_in_def)
  have nonneg: "0 \<le> requests_in i win rs" by (simp add: requests_in_def)
  show ?case
  proof (cases ?here)
    case True
    then have key: "rpm_key i t = RPM i win" by (simp add: rpm_key_def)
    have c: "mget ?rl (RPM i win) 0 = mget rl (RPM i win) 0 + 1"
      "fst (check_rpm rl j (limit j) t) = (mget rl (RPM i win) 0 + 1 \<le> limit i)"
      using True assms(1) by (simp_all add: check_rpm_def key increment_def Let_def)
    have "accepted_in i win rs (fst (run_rpm limit ?rl rs))
        = min (max 0 (limit i - (mget rl (RPM i win) 0 + 1))) (requests_in i win rs)"
      using Cons.IH [of ?rl] c(1) Cons.prems by simp
    then show ?thesis using acc req c(2) True nonneg by (auto simp: min_def max_def split: if_splits)
  next
    case False
    then have "mget ?rl (RPM i win) 0 = mget rl (RPM i win) 0"
      by (auto simp: check_rpm_def rpm_key_def increment_def Let_def)
    then show ?thesis using acc req False Cons.IH [of ?rl] Cons.prems by simp
  qed
qed

section \<open>Properties\<close>

definition sample_key :: stored_key where
  "sample_key = \<lparr>key_id = 7, key_active = True, key_max_rpm = Some 2, key_max_rpd = None,
     key_max_budget = Some 1, key_team_name = [], key_app_name = []\<rparr>"

definition sample_cached :: cached_key where
  "sample_cached = \<lparr>ck_key = sample_key, ck_allowed_models = [], ck_team_name = [], ck_app_name = []\<rparr>"

text \<open>A database that holds the key until it is revoked.\<close>

definition sample_db :: "bool \<Rightarrow> key_db" where
  "sample_db active = \<lparr>db_key_by_hash = (\<lambda>h. Inr (Some (sample_key\<lparr>key_active := active\<rparr>))),
     db_allowed_models = (\<lambda>i. Inr [])\<rparr>"

text \<open>
  C34. The request limit is exact per key and minute. Whatever the order in which requests of any keys arrive,
  a key with a positive limit has exactly the first \<open>limit\<close> of its requests in a minute accepted,
  and a key without one has all of them accepted.
\<close>

theorem rate_limit_exact:
  "accepted_in i win rs (fst (run_rpm limit new_rate_limiter rs))
     = (if limit i \<le> 0 then requests_in i win rs else min (limit i) (requests_in i win rs))"
proof (cases "limit i \<le> 0")
  case True
  have "accepted_in i win rs (fst (run_rpm limit rl rs)) = requests_in i win rs" for rl
  proof (induction rs arbitrary: rl)
    case Nil
    then show ?case by (simp add: accepted_in_def requests_in_def)
  next
    case (Cons r rs)
    obtain j t where r: "r = (j, t)" by (cases r)
    have "accepted_in i win rs (fst (run_rpm limit (snd (check_rpm rl j (limit j) t)) rs)) = requests_in i win rs"
      by (rule Cons.IH)
    then show ?case using True
      by (auto simp: r accepted_in_def requests_in_def run_rpm_Cons check_rpm_def simp del: run_rpm.simps)
  qed
  then show ?thesis using True by simp
next
  case False
  then show ?thesis using run_rpm_accepted [of limit i new_rate_limiter win rs]
    by (simp add: new_rate_limiter_def)
qed




text \<open>
  The hard budget holds on the recorded spend: once the credits of a key have reached its budget, every later
  full request with that key is rejected, however many non-negative credits follow, and a
  budget of zero or less rejects every request, where \<open>max_rpm\<close> and \<open>max_rpd\<close> of zero
  mean no limit.
\<close>

theorem key_budget_blocks:
  assumes "key_max_budget (ck_key ck) = Some b" "b \<le> key_spend (as_spend st) (key_id (ck_key ck))"
    and "is_f64 (key_spend (as_spend st) (key_id (ck_key ck)))"
    and "\<forall>c \<in> set (credits_of (key_id (ck_key ck)) cs). 0 \<le> c"
  shows "\<forall>t3 t4. \<exists>e. fst (check_limits (st\<lparr>as_spend := foldl (\<lambda>s (i, c). key_credit s i c) (as_spend st) cs\<rparr>) ck t3 t4)
           = AuthRejected e"
proof (intro allI)
  fix t3 t4
  let ?st = "st\<lparr>as_spend := foldl (\<lambda>s (i, c). key_credit s i c) (as_spend st) cs\<rparr>"
  have spent: "b \<le> key_spend (as_spend ?st) (key_id (ck_key ck))"
    using key_ledger.stays_exhausted [OF assms(3,4,2)] by simp
  obtain x st' where l: "check_limits ?st ck t3 t4 = (x, st')" by (cases "check_limits ?st ck t3 t4")
  show "\<exists>e. fst (check_limits ?st ck t3 t4) = AuthRejected e"
  proof (cases x)
    case (AuthKey ck')
    then show ?thesis using check_limits_admits [of ?st ck t3 t4 ck' st'] l assms(1) spent by auto
  next
    case AuthMaster
    then show ?thesis using check_limits_not_master [of ?st ck t3 t4] l by simp
  next
    case (AuthRejected e)
    then show ?thesis using l by simp
  qed
qed

theorem key_budget_blocks_witness:
  "\<forall>t3 t4. \<exists>e. fst (check_limits (\<lparr>as_cache = new_cache 0, as_counters = new_rate_limiter, as_spend = []\<rparr>
      \<lparr>as_spend := foldl (\<lambda>s (i, c). key_credit s i c) [] [(7, 1)]\<rparr>)
      (sample_cached\<lparr>ck_key := sample_key\<lparr>key_max_budget := Some 0\<rparr>\<rparr>) t3 t4) = AuthRejected e"
  using key_budget_blocks [of "sample_cached\<lparr>ck_key := sample_key\<lparr>key_max_budget := Some 0\<rparr>\<rparr>" 0
      "\<lparr>as_cache = new_cache 0, as_counters = new_rate_limiter, as_spend = []\<rparr>" "[(7, 1)]"]
  by (simp add: sample_key_def key_spend_def)

end
