(* ===== verification/Costmap.thy ===== *)
theory Costmap
  imports Config "HOL-Library.List_Lexorder" "HOL-Library.Char_ord"
begin

text \<open>
  The model cost map (\<open>internal/costmap/costmap.go\<close>): reading the downloaded JSON, the overrides of an
  operator and the resolution of the price data of a model.

  JSON numbers are kept as their text, as \<open>Decoder.UseNumber\<close> does; \<open>numlib\<close> holds the two conversions of
  the standard library. The HTTP exchange is an argument: an error, or a status and a body.
\<close>

record numlib =
  num_int64 :: "string \<Rightarrow> int option"
  num_float64 :: "string \<Rightarrow> f64 option"

record model_spec =
  known_rates :: "(string \<rightharpoonup> bool) option"
  max_tokens :: int
  max_input_tokens :: int
  max_output_tokens :: int
  spec_input_cost :: f64
  spec_output_cost :: f64
  spec_cache_read_cost :: f64
  spec_cache_creation_cost :: f64
  litellm_provider :: string
  spec_mode :: string
  supports_function_calling :: bool
  supports_parallel_function_calling :: bool
  supports_vision :: bool

definition zero_spec :: model_spec where
  "zero_spec = \<lparr>known_rates = None, max_tokens = 0, max_input_tokens = 0, max_output_tokens = 0,
     spec_input_cost = 0, spec_output_cost = 0, spec_cache_read_cost = 0, spec_cache_creation_cost = 0,
     litellm_provider = [], spec_mode = [], supports_function_calling = False,
     supports_parallel_function_calling = False, supports_vision = False\<rparr>"

section \<open>Reading an entry\<close>

type_synonym json_entry = "(string \<times> json) list"

definition entry_get :: "json_entry \<Rightarrow> string \<Rightarrow> json option" where
  "entry_get e k = map_of (rev e) k"

definition trunc :: "f64 \<Rightarrow> int" where
  "trunc f = (if f < 0 then \<lceil>f\<rceil> else \<lfloor>f\<rfloor>)"

definition as_int :: "numlib \<Rightarrow> json option \<Rightarrow> int" where
  "as_int nl v = (case v of
     Some (JNum s) \<Rightarrow> (case num_int64 nl s of Some i \<Rightarrow> i
        | None \<Rightarrow> (case num_float64 nl s of Some f \<Rightarrow> trunc f | None \<Rightarrow> 0))
   | _ \<Rightarrow> 0)"

definition as_float :: "numlib \<Rightarrow> json option \<Rightarrow> f64" where
  "as_float nl v = (case v of
     Some (JNum s) \<Rightarrow> (case num_float64 nl s of Some f \<Rightarrow> f | None \<Rightarrow> 0) | _ \<Rightarrow> 0)"

definition as_string :: "json option \<Rightarrow> string" where
  "as_string v = (case v of Some (JStr s) \<Rightarrow> s | _ \<Rightarrow> [])"

definition as_bool :: "json option \<Rightarrow> bool" where
  "as_bool v = (case v of Some (JBool b) \<Rightarrow> b | _ \<Rightarrow> False)"

definition rate_fields :: "string list" where
  "rate_fields = [''input_cost_per_token'', ''output_cost_per_token'',
     ''cache_read_input_token_cost'', ''cache_creation_input_token_cost'']"

text \<open>A rate is known when the entry has a number for it; a missing one is not a price of zero.\<close>

definition known_rates_of :: "numlib \<Rightarrow> json_entry \<Rightarrow> (string \<rightharpoonup> bool)" where
  "known_rates_of nl e =
     (\<lambda>k. if k \<in> set rate_fields
          then Some (case entry_get e k of Some (JNum s) \<Rightarrow> num_float64 nl s \<noteq> None | _ \<Rightarrow> False)
          else None)"

definition parse_model_spec :: "numlib \<Rightarrow> json_entry \<Rightarrow> model_spec" where
  "parse_model_spec nl e = \<lparr>
     known_rates = Some (known_rates_of nl e),
     max_tokens = as_int nl (entry_get e ''max_tokens''),
     max_input_tokens = as_int nl (entry_get e ''max_input_tokens''),
     max_output_tokens = as_int nl (entry_get e ''max_output_tokens''),
     spec_input_cost = as_float nl (entry_get e ''input_cost_per_token''),
     spec_output_cost = as_float nl (entry_get e ''output_cost_per_token''),
     spec_cache_read_cost = as_float nl (entry_get e ''cache_read_input_token_cost''),
     spec_cache_creation_cost = as_float nl (entry_get e ''cache_creation_input_token_cost''),
     litellm_provider = as_string (entry_get e ''litellm_provider''),
     spec_mode = as_string (entry_get e ''mode''),
     supports_function_calling = as_bool (entry_get e ''supports_function_calling''),
     supports_parallel_function_calling = as_bool (entry_get e ''supports_parallel_function_calling''),
     supports_vision = as_bool (entry_get e ''supports_vision'')\<rparr>"

section \<open>The manager\<close>

record cost_manager =
  source_url :: string
  cost_models :: "(string \<times> model_spec) list option"
  loaded_at :: "time option"
  override_keys :: "string \<rightharpoonup> string"
  custom_specs :: "string \<rightharpoonup> model_spec"

definition default_cost_url :: string where
  "default_cost_url = ''https://raw.githubusercontent.com/BerriAI/litellm/refs/heads/main/model_prices_and_context_window.json''"

definition new_cost_manager :: cost_manager where
  "new_cost_manager = \<lparr>source_url = default_cost_url, cost_models = None, loaded_at = None,
     override_keys = Map.empty, custom_specs = Map.empty\<rparr>"

text \<open>
  The body decodes into a map of objects; a \<open>null\<close> entry is an empty map, another value fails the
  whole load.
\<close>

fun decode_entries :: "numlib \<Rightarrow> (string \<times> json) list \<Rightarrow> (string \<times> model_spec) list \<Rightarrow> (string \<times> model_spec) list option" where
  "decode_entries nl [] acc = Some acc"
| "decode_entries nl ((name, j) # es) acc =
     (case j of
        JObj e \<Rightarrow> decode_entries nl es (alist_put name (parse_model_spec nl e) acc)
      | JNull \<Rightarrow> decode_entries nl es (alist_put name (parse_model_spec nl []) acc)
      | _ \<Rightarrow> None)"

definition load_cost_map ::
  "golib \<Rightarrow> numlib \<Rightarrow> cost_manager \<Rightarrow> string + int \<times> string \<Rightarrow> time \<Rightarrow> string option \<times> cost_manager" where
  "load_cost_map lib nl m response now =
     (case response of
        Inl e \<Rightarrow> (Some (''fetching cost map: '' @ e), m)
      | Inr (status, body) \<Rightarrow>
          if status \<noteq> 200 then (Some (''unexpected status '' @ itoa lib status @ '' from cost map URL''), m)
          else (case unmarshal lib body of
             Some (JObj es) \<Rightarrow>
               (case decode_entries nl es [] of
                  Some ms \<Rightarrow> (None, m\<lparr>cost_models := Some ms, loaded_at := Some now\<rparr>)
                | None \<Rightarrow> (Some ''decoding cost map JSON'', m))
           | Some JNull \<Rightarrow> (None, m\<lparr>cost_models := Some [], loaded_at := Some now\<rparr>)
           | _ \<Rightarrow> (Some ''decoding cost map JSON'', m)))"

definition set_cost_url :: "config_lib \<Rightarrow> cost_manager \<Rightarrow> string \<Rightarrow> string option \<times> cost_manager" where
  "set_cost_url lib m raw =
     (if raw = [] then (Some ''URL must not be empty'', m)
      else case url_parse lib raw of
        None \<Rightarrow> (Some ''invalid URL'', m)
      | Some u \<Rightarrow>
          if url_scheme u \<noteq> ''http'' \<and> url_scheme u \<noteq> ''https''
          then (Some ''URL scheme must be http or https'', m)
          else (None, m\<lparr>source_url := raw\<rparr>))"

record cost_status =
  cst_loaded :: bool
  cst_loaded_at :: "time option"
  cst_url :: string
  cst_model_count :: int

definition cost_map_status :: "cost_manager \<Rightarrow> cost_status" where
  "cost_map_status m = \<lparr>cst_loaded = (cost_models m \<noteq> None), cst_loaded_at = loaded_at m,
     cst_url = source_url m, cst_model_count = (case cost_models m of None \<Rightarrow> 0 | Some ms \<Rightarrow> int (length ms))\<rparr>"

definition list_cost_models :: "cost_manager \<Rightarrow> (string \<times> model_spec) list" where
  "list_cost_models m = (case cost_models m of None \<Rightarrow> [] | Some ms \<Rightarrow> sort_key fst ms)"

definition model_lookup :: "(string \<times> model_spec) list option \<Rightarrow> string \<Rightarrow> model_spec option" where
  "model_lookup ms k = (case ms of None \<Rightarrow> None | Some xs \<Rightarrow> map_of xs k)"

definition get_cost_model :: "cost_manager \<Rightarrow> string \<Rightarrow> model_spec \<times> bool" where
  "get_cost_model m name = (case model_lookup (cost_models m) name of Some s \<Rightarrow> (s, True) | None \<Rightarrow> (zero_spec, False))"

definition set_override_key :: "cost_manager \<Rightarrow> string \<Rightarrow> string \<Rightarrow> cost_manager" where
  "set_override_key m proxy key =
     (if key = [] then m\<lparr>override_keys := (override_keys m)(proxy := None)\<rparr>
      else m\<lparr>override_keys := (override_keys m)(proxy \<mapsto> key), custom_specs := (custom_specs m)(proxy := None)\<rparr>)"

definition set_custom_spec :: "cost_manager \<Rightarrow> string \<Rightarrow> model_spec \<Rightarrow> cost_manager" where
  "set_custom_spec m proxy spec =
     m\<lparr>custom_specs := (custom_specs m)(proxy \<mapsto> spec), override_keys := (override_keys m)(proxy := None)\<rparr>"

definition clear_override :: "cost_manager \<Rightarrow> string \<Rightarrow> cost_manager" where
  "clear_override m proxy =
     m\<lparr>override_keys := (override_keys m)(proxy := None), custom_specs := (custom_specs m)(proxy := None)\<rparr>"

record effective_spec =
  es_spec :: model_spec
  es_found :: bool
  es_source :: string
  es_key :: string

fun first_known :: "(string \<times> model_spec) list option \<Rightarrow> string list \<Rightarrow> effective_spec" where
  "first_known ms [] = \<lparr>es_spec = zero_spec, es_found = False, es_source = [], es_key = []\<rparr>"
| "first_known ms (c # cs) =
     (case model_lookup ms c of
        Some s \<Rightarrow> \<lparr>es_spec = s, es_found = True, es_source = ''auto'', es_key = c\<rparr>
      | None \<Rightarrow> first_known ms cs)"

definition get_effective_spec :: "cost_manager \<Rightarrow> string \<Rightarrow> string list \<Rightarrow> effective_spec" where
  "get_effective_spec m proxy candidates =
     (case custom_specs m proxy of
        Some s \<Rightarrow> \<lparr>es_spec = s, es_found = True, es_source = ''custom'', es_key = []\<rparr>
      | None \<Rightarrow>
          (case override_keys m proxy of
             Some key \<Rightarrow>
               if key \<noteq> []
               then (case model_lookup (cost_models m) key of
                       Some s \<Rightarrow> \<lparr>es_spec = s, es_found = True, es_source = ''override'', es_key = key\<rparr>
                     | None \<Rightarrow> \<lparr>es_spec = zero_spec, es_found = False, es_source = ''override'', es_key = key\<rparr>)
               else first_known (cost_models m) candidates
           | None \<Rightarrow> first_known (cost_models m) candidates))"

section \<open>What the overrides promise\<close>

text \<open>
  The abstract state of one model is its latest override; an operator's action on another model leaves it
  alone. Clearing the key of a model with a custom spec leaves the custom spec in force.
\<close>

datatype override = NoOverride | KeyOverride string | CustomOverride model_spec

datatype override_op = SetKey string string | SetCustom string model_spec | Clear string

fun apply_override :: "cost_manager \<Rightarrow> override_op \<Rightarrow> cost_manager" where
  "apply_override m (SetKey p k) = set_override_key m p k"
| "apply_override m (SetCustom p s) = set_custom_spec m p s"
| "apply_override m (Clear p) = clear_override m p"

fun override_step :: "string \<Rightarrow> override \<Rightarrow> override_op \<Rightarrow> override" where
  "override_step p ov (SetKey q k) =
     (if q \<noteq> p then ov
      else if k \<noteq> [] then KeyOverride k
      else (case ov of CustomOverride s \<Rightarrow> CustomOverride s | _ \<Rightarrow> NoOverride))"
| "override_step p ov (SetCustom q s) = (if q = p then CustomOverride s else ov)"
| "override_step p ov (Clear q) = (if q = p then NoOverride else ov)"

fun resolve :: "(string \<times> model_spec) list option \<Rightarrow> override \<Rightarrow> string list \<Rightarrow> effective_spec" where
  "resolve ms (CustomOverride s) cs = \<lparr>es_spec = s, es_found = True, es_source = ''custom'', es_key = []\<rparr>"
| "resolve ms (KeyOverride k) cs =
     (case model_lookup ms k of
        Some s \<Rightarrow> \<lparr>es_spec = s, es_found = True, es_source = ''override'', es_key = k\<rparr>
      | None \<Rightarrow> \<lparr>es_spec = zero_spec, es_found = False, es_source = ''override'', es_key = k\<rparr>)"
| "resolve ms NoOverride cs = first_known ms cs"

definition override_abs :: "cost_manager \<Rightarrow> string \<Rightarrow> override" where
  "override_abs m p =
     (case custom_specs m p of Some s \<Rightarrow> CustomOverride s
      | None \<Rightarrow> (case override_keys m p of Some k \<Rightarrow> KeyOverride k | None \<Rightarrow> NoOverride))"

text \<open>A model never has both kinds of override, and no key override is empty.\<close>

definition overrides_exclusive :: "cost_manager \<Rightarrow> bool" where
  "overrides_exclusive m \<longleftrightarrow> (\<forall>p. (custom_specs m p = None \<or> override_keys m p = None) \<and> override_keys m p \<noteq> Some [])"

lemma apply_override_exclusive: "overrides_exclusive m \<Longrightarrow> overrides_exclusive (apply_override m oper)"
  by (cases oper) (auto simp: overrides_exclusive_def set_override_key_def set_custom_spec_def clear_override_def)

lemma apply_override_abs:
  "overrides_exclusive m \<Longrightarrow> override_abs (apply_override m oper) p = override_step p (override_abs m p) oper"
  by (cases oper)
    (auto simp: overrides_exclusive_def override_abs_def set_override_key_def set_custom_spec_def
      clear_override_def split: option.splits)

lemma apply_override_models [simp]: "cost_models (apply_override m oper) = cost_models m"
  by (cases oper) (simp_all add: set_override_key_def set_custom_spec_def clear_override_def)

lemma effective_is_resolve:
  "overrides_exclusive m \<Longrightarrow> get_effective_spec m p cs = resolve (cost_models m) (override_abs m p) cs"
  by (auto simp: get_effective_spec_def override_abs_def overrides_exclusive_def split: option.splits)

lemma run_overrides:
  assumes "overrides_exclusive m"
  shows "overrides_exclusive (foldl apply_override m ops)
    \<and> override_abs (foldl apply_override m ops) p = foldl (override_step p) (override_abs m p) ops
    \<and> cost_models (foldl apply_override m ops) = cost_models m"
  using assms
proof (induction ops arbitrary: m)
  case Nil
  then show ?case by simp
next
  case (Cons oper ops)
  then show ?case using apply_override_exclusive apply_override_abs by simp
qed

text \<open>
  C37. The price data of a model is resolved from its latest override alone. After any sequence of override
  actions on any models, in any order, \<open>GetEffectiveSpec\<close> gives what the abstract history of
  that one model says: a custom spec, the entry of the override key (not found when the cost map
  lacks it, without falling back to detection), or else the first candidate the cost map knows.
\<close>

theorem effective_spec_refines_history:
  "get_effective_spec (foldl apply_override (new_cost_manager\<lparr>cost_models := ms\<rparr>) ops) p candidates
     = resolve ms (foldl (override_step p) NoOverride ops) candidates"
proof -
  let ?m = "new_cost_manager\<lparr>cost_models := ms\<rparr>"
  have ex: "overrides_exclusive ?m" by (simp add: overrides_exclusive_def new_cost_manager_def)
  have "override_abs ?m p = NoOverride" by (simp add: override_abs_def new_cost_manager_def)
  then show ?thesis
    using run_overrides [OF ex, of ops p] by (simp add: effective_is_resolve)
qed

end
