(* ===== verification/Decimal.thy ===== *)
theory Decimal
  imports Prelude Complex_Main
begin

text \<open>
  Exact decimals (\<open>Decimal\<close>, \<open>format\<close>, \<open>sum\<close> and \<open>multiply\<close> of \<open>internal/accounting/accounting.go\<close>).

  \<open>big.Rat\<close> is \<open>rat\<close>; \<open>decimal_value\<close> reads the strings the regular expression \<open>decimalPattern\<close>
  accepts, which are the only ones the code gives to \<open>SetString\<close>. \<open>FloatString(36)\<close> rounds the last
  of 36 places half away from zero; the amounts are not negative. \<open>BitLen() <= 256\<close> is
  \<open>< 2 ^ 256\<close>.
\<close>

section \<open>Reading\<close>

text \<open>The part of the text before the exponent: digits, with at most one point, at least one digit.\<close>

definition mantissa_value :: "string \<Rightarrow> rat option" where
  "mantissa_value s =
     (let whole = takeWhile (\<lambda>c. c \<noteq> CHR ''.'') s;
          rest = drop (length whole) s;
          frac = tl rest
      in if list_all is_digit whole \<and> list_all is_digit frac \<and> (whole \<noteq> [] \<or> frac \<noteq> [])
         then (case (digits_val 0 whole, digits_val 0 frac) of
                 (Some w, Some f) \<Rightarrow> Some (of_int w + of_int f / 10 ^ length frac)
               | _ \<Rightarrow> None)
         else None)"

definition is_exp_char :: "char \<Rightarrow> bool" where
  "is_exp_char c \<longleftrightarrow> c = CHR ''e'' \<or> c = CHR ''E''"

text \<open>The exponent: \<open>None\<close> when the text has none, else what \<open>Atoi\<close> makes of it.\<close>

definition split_exponent :: "string \<Rightarrow> string \<times> int option option" where
  "split_exponent s =
     (let man = takeWhile (\<lambda>c. \<not> is_exp_char c) s; rest = drop (length man) s
      in if rest = [] then (man, None) else (man, Some (atoi (tl rest))))"

text \<open>
  The value of an accepted text; \<open>None\<close> is one of the refusals: the pattern does not match, or the
  exponent is not between -36 and 36.
\<close>

definition decimal_value :: "string \<Rightarrow> rat option" where
  "decimal_value s =
     (case split_exponent s of
        (man, None) \<Rightarrow> mantissa_value man
      | (man, Some None) \<Rightarrow> None
      | (man, Some (Some x)) \<Rightarrow>
          if x < -36 \<or> 36 < x then None
          else map_option (\<lambda>v. v * 10 powi x) (mantissa_value man))"

definition fits_256 :: "rat \<Rightarrow> bool" where
  "fits_256 r = (case quotient_of r of (n, d) \<Rightarrow> \<bar>n\<bar> < 2 ^ 256 \<and> d < 2 ^ 256)"

section \<open>Writing\<close>

text \<open>\<open>places\<close> is the 36 of the code, a name so that proofs do not compute with it.\<close>

definition places :: nat where
  "places = 36"

definition round36 :: "rat \<Rightarrow> nat" where
  "round36 r = nat \<lfloor>r * 10 ^ places + 1 / 2\<rfloor>"

definition float_string_36 :: "rat \<Rightarrow> string" where
  "float_string_36 r = show_nat (round36 r div 10 ^ places) @ ''.'' @ show_fixed places (round36 r mod 10 ^ places)"

definition format_decimal :: "rat \<Rightarrow> string" where
  "format_decimal r =
     (let s = trim_right CHR ''.'' (trim_right CHR ''0'' (float_string_36 r))
      in if s = [] then ''0'' else s)"

definition decimal :: "string \<Rightarrow> string option" where
  "decimal s =
     (if 128 < length s then None
      else case decimal_value s of
        None \<Rightarrow> None
      | Some r \<Rightarrow>
          if r < 0 \<or> \<not> fits_256 r then None
          else (let n = format_decimal r
                in if decimal_value n = Some r then Some n else None))"

definition sum_decimals :: "string list \<Rightarrow> string" where
  "sum_decimals vs = format_decimal
     (sum_list (map (\<lambda>v. case decimal_value v of Some r \<Rightarrow> r | None \<Rightarrow> 0) vs))"

definition multiply_decimal :: "string \<Rightarrow> int \<Rightarrow> string" where
  "multiply_decimal d n = format_decimal ((case decimal_value d of Some r \<Rightarrow> r | None \<Rightarrow> 0) * of_int n)"

section \<open>Exactness\<close>

text \<open>A non-negative rational with at most 36 decimal places.\<close>

definition exact36 :: "rat \<Rightarrow> bool" where
  "exact36 r \<longleftrightarrow> 0 \<le> r \<and> r * 10 ^ places \<in> \<int>"

lemma exact36_zero [simp]: "exact36 0"
  by (simp add: exact36_def)

lemma exact36_add: "exact36 a \<Longrightarrow> exact36 b \<Longrightarrow> exact36 (a + b)"
  by (simp add: exact36_def distrib_right)

lemma exact36_mult: "exact36 a \<Longrightarrow> 0 \<le> n \<Longrightarrow> exact36 (a * of_int n)"
proof -
  assume a: "exact36 a" "0 \<le> n"
  have eq: "a * of_int n * 10 ^ places = (a * 10 ^ places) * of_int n" by (simp only: ac_simps)
  have "(a * 10 ^ places) * of_int n \<in> \<int>" 
    by (rule Ints_mult) (use a in \<open>simp_all add: exact36_def\<close>)
  then show ?thesis using a unfolding exact36_def eq by simp
qed

lemma exact36_sum_list: "\<forall>x \<in> set xs. exact36 x \<Longrightarrow> exact36 (sum_list xs)"
  by (induction xs) (simp_all add: exact36_add)

lemma round36_exact:
  assumes "exact36 r"
  shows "rat_of_nat (round36 r) = r * 10 ^ places"
proof -
  obtain k where k: "r * 10 ^ places = of_int k" using assms by (auto simp: exact36_def elim: Ints_cases)
  have "0 \<le> k" using assms k by (metis exact36_def mult_nonneg_nonneg of_int_0_le_iff zero_le_numeral zero_le_power)
  moreover have "\<lfloor>rat_of_int k + 1 / 2\<rfloor> = k" by linarith
  ultimately show ?thesis by (simp add: round36_def k)
qed

lemma is_digit_not: "is_digit c \<Longrightarrow> c \<noteq> CHR ''.'' \<and> \<not> is_exp_char c"
  by (auto simp: is_digit_def digit_val_def is_exp_char_def)

lemma list_all_digits_not:
  "list_all is_digit s \<Longrightarrow> (\<forall>c \<in> set s. c \<noteq> CHR ''.'') \<and> (\<forall>c \<in> set s. \<not> is_exp_char c)"
  using is_digit_not by (auto simp: list_all_iff)

lemma mantissa_digits:
  assumes "list_all is_digit w" "list_all is_digit f" "w \<noteq> []"
    and "digits_val 0 w = Some a" "digits_val 0 f = Some b"
  shows "decimal_value (w @ (if f = [] then [] else CHR ''.'' # f)) = Some (of_int a + of_int b / 10 ^ length f)"
proof -
  let ?s = "w @ (if f = [] then [] else CHR ''.'' # f)"
  have "\<not> is_exp_char CHR ''.''" by (simp add: is_exp_char_def)
  then have ne: "\<forall>c \<in> set ?s. \<not> is_exp_char c"
    using list_all_digits_not [OF assms(1)] list_all_digits_not [OF assms(2)] by (cases "f = []") auto
  then have "takeWhile (\<lambda>c. \<not> is_exp_char c) ?s = ?s" by (simp only: takeWhile_eq_all_conv)
  then have split: "split_exponent ?s = (?s, None)" by (simp only: split_exponent_def Let_def) simp
  have tw: "takeWhile (\<lambda>c. c \<noteq> CHR ''.'') ?s = w"
    using list_all_digits_not [OF assms(1)] by (cases "f = []") (simp_all add: takeWhile_eq_all_conv takeWhile_append2)
  have man: "mantissa_value ?s = Some (of_int a + of_int b / 10 ^ length f)"
  proof -
    have rest: "tl (drop (length w) ?s) = f" by simp
    show ?thesis
      unfolding mantissa_value_def Let_def tw rest using assms by simp
  qed
  show ?thesis by (simp only: decimal_value_def split prod.case option.case man)
qed

text \<open>What \<open>format\<close> writes: the whole part, and the fraction without its trailing zeros.\<close>

lemma trim_right_mem: "set (trim_right c s) \<subseteq> set s"
  by (auto simp: trim_right_def dest: set_dropWhileD)

lemma format_shape:
  "\<exists>f n. format_decimal r = show_nat (round36 r div 10 ^ places) @ (if f = [] then [] else CHR ''.'' # f)
     \<and> show_fixed places (round36 r mod 10 ^ places) = f @ replicate n CHR ''0''"
proof -
  let ?w = "show_nat (round36 r div 10 ^ places)"
  let ?x = "show_fixed places (round36 r mod 10 ^ places)"
  define f where "f = trim_right CHR ''0'' ?x"
  obtain n where n: "?x = f @ replicate n CHR ''0''" unfolding f_def using trim_right_split by blast
  have drop: "trim_right c (s @ replicate n c) = trim_right c s" for c s
    by (induction n) (simp_all add: trim_right_append_eq replicate_append_same [symmetric] flip: append_assoc)
  have z: "trim_right CHR ''0'' (?w @ ''.'' @ ?x) = trim_right CHR ''0'' (?w @ ''.'' @ f)"
    by (subst n) (metis append.assoc drop)
  have wlast: "last ?w \<noteq> CHR ''.''"
    using is_digit_not digits_show_nat [of "round36 r div 10 ^ places"] by (simp add: list_all_iff)
  have "trim_right CHR ''.'' ?w = ?w"
    using trim_right_append_neq [OF wlast, of "butlast ?w"] by simp
  show ?thesis
  proof (cases "f = []")
    case True
    have t: "trim_right CHR ''0'' (?w @ ''.'' @ f) = ?w @ ''.''"
      using True trim_right_append_neq [of "CHR ''.''" "CHR ''0''" ?w] by simp
    have "format_decimal r = ?w"
      by (simp only: format_decimal_def float_string_36_def Let_def z t trim_right_append_eq
          \<open>trim_right CHR ''.'' ?w = ?w\<close> show_nat_not_Nil if_False)
    then show ?thesis using True n by (intro exI [of _ f] exI [of _ n]) simp
  next
    case False
    have fl: "last f \<noteq> CHR ''0''"
      using False unfolding f_def by (rule last_trim_right)
    have "is_digit (last f)"
      using digits_show_fixed [of places "round36 r mod 10 ^ places"] False
      by (metis f_def last_in_set list_all_iff subsetD trim_right_mem)
    then have fd: "last f \<noteq> CHR ''.''" using is_digit_not by blast
    have split: "?w @ ''.'' @ f = (?w @ ''.'' @ butlast f) @ [last f]" using False by simp
    have t: "trim_right CHR ''0'' (?w @ ''.'' @ f) = ?w @ ''.'' @ f"
      "trim_right CHR ''.'' (?w @ ''.'' @ f) = ?w @ ''.'' @ f"
      by (metis split trim_right_append_neq fl, metis split trim_right_append_neq fd)
    have "format_decimal r = ?w @ ''.'' @ f"
      by (simp only: format_decimal_def float_string_36_def Let_def z t append_is_Nil_conv show_nat_not_Nil simp_thms if_False)
    then show ?thesis using False n by (intro exI [of _ f] exI [of _ n]) simp
  qed
qed

lemma digits_val_zeros: "digits_val a (replicate n CHR ''0'') = Some (a * 10 ^ n)"
  by (induction n arbitrary: a) (simp_all add: digit_val_def)

lemma format_value: "decimal_value (format_decimal r) = Some (of_nat (round36 r) / 10 ^ places)"
proof -
  let ?m = "round36 r"
  obtain f n where f: "format_decimal r = show_nat (?m div 10 ^ places) @ (if f = [] then [] else CHR ''.'' # f)"
    and x: "show_fixed places (?m mod 10 ^ places) = f @ replicate n CHR ''0''"
    using format_shape by blast
  have dig: "list_all is_digit f" using digits_show_fixed [of places "?m mod 10 ^ places"] by (simp add: x)
  have "digits_val 0 (f @ replicate n CHR ''0'') = Some (int (?m mod 10 ^ places))"
    by (simp only: x [symmetric] digits_val_show_fixed) simp
  then obtain b where b: "digits_val 0 f = Some b" "b * 10 ^ n = int (?m mod 10 ^ places)"
    by (auto simp: digits_val_append digits_val_zeros split: option.splits)
  have len: "length f + n = places" using arg_cong [OF x, of length] by simp
  have "rat_of_int b / 10 ^ length f = rat_of_int (b * 10 ^ n) / 10 ^ (length f + n)"
    by (simp add: power_add)
  then have fr: "rat_of_int b / 10 ^ length f = of_nat (?m mod 10 ^ places) / 10 ^ places"
    unfolding len b(2) by simp
  have "rat_of_nat ?m = of_nat (?m div 10 ^ places * 10 ^ places + ?m mod 10 ^ places)"
    by (rule arg_cong [OF div_mult_mod_eq [symmetric]])
  then have "rat_of_nat ?m = of_nat (?m div 10 ^ places) * 10 ^ places + of_nat (?m mod 10 ^ places)"
    by (simp only: of_nat_add of_nat_mult of_nat_power of_nat_numeral)
  then have m: "rat_of_nat ?m / 10 ^ places = of_nat (?m div 10 ^ places) + of_nat (?m mod 10 ^ places) / 10 ^ places"
    by (simp add: add_divide_distrib)
  show ?thesis
    unfolding f m
    by (simp only: mantissa_digits [OF digits_show_nat dig show_nat_not_Nil digits_val_show_nat b(1)] fr of_int_of_nat_eq)
qed

lemma format_value_exact: "exact36 r \<Longrightarrow> decimal_value (format_decimal r) = Some r"
  by (simp add: format_value round36_exact)

lemma decimal_exact36: "decimal s = Some v \<Longrightarrow> \<exists>r. decimal_value s = Some r \<and> decimal_value v = Some r \<and> exact36 r"
proof -
  assume a: "decimal s = Some v"
  then obtain r where r: "decimal_value s = Some r" "\<not> r < 0" "v = format_decimal r" "decimal_value v = Some r"
    by (auto simp: decimal_def Let_def split: if_splits option.splits)
  have "r = of_nat (round36 r) / 10 ^ places" using r(3,4) format_value [of r] by simp
  then have "r * 10 ^ places = of_nat (round36 r)"
    by (metis nonzero_eq_divide_eq power_not_zero zero_neq_numeral)
  then have "r * 10 ^ places \<in> \<int>" by simp
  with r show ?thesis by (auto simp: exact36_def)
qed

lemma fits_256_less: "fits_256 r \<Longrightarrow> r < 2 ^ 256"
proof -
  assume "fits_256 r"
  obtain n d where q: "quotient_of r = (n, d)" by (cases "quotient_of r")
  have d: "1 \<le> d" using quotient_of_denom_pos [OF q] by simp
  have n: "n < 2 ^ 256" using \<open>fits_256 r\<close> by (simp add: fits_256_def q abs_less_iff)
  have r: "r * of_int d = of_int n" using quotient_of_div [OF q] d by simp
  show "r < 2 ^ 256"
  proof (cases "r \<le> 0")
    case True
    then show ?thesis by (rule le_less_trans) simp
  next
    case False
    have "r * 1 \<le> r * of_int d" using False d by (intro mult_left_mono) simp_all
    moreover have "rat_of_int n < of_int (2 ^ 256)" using n by (simp only: of_int_less_iff)
    ultimately show ?thesis using r by simp
  qed
qed

lemma round36_whole:
  assumes "rat_of_nat (round36 r) = r * 10 ^ places" "r < 2 ^ 256"
  shows "round36 r div 10 ^ places < 10 ^ 78"
proof -
  have "rat_of_nat (round36 r) < 2 ^ 256 * 10 ^ places"
    unfolding assms(1) using assms(2) by (intro mult_strict_right_mono) simp_all
  then have "rat_of_nat (round36 r) < of_nat (2 ^ 256 * 10 ^ places)"
    by (simp only: of_nat_mult of_nat_power of_nat_numeral)
  then have "round36 r < 2 ^ 256 * 10 ^ places" by (simp only: of_nat_less_iff)
  then have "round36 r div 10 ^ places < 2 ^ 256"
    by (intro less_mult_imp_div_less)
  also have "(2::nat) ^ 256 < 10 ^ 78" by simp
  finally show ?thesis .
qed

lemma length_format:
  assumes "rat_of_nat (round36 r) = r * 10 ^ places" "r < 2 ^ 256"
  shows "length (format_decimal r) \<le> 115"
proof -
  obtain f n where f: "format_decimal r = show_nat (round36 r div 10 ^ places) @ (if f = [] then [] else CHR ''.'' # f)"
    and x: "show_fixed places (round36 r mod 10 ^ places) = f @ replicate n CHR ''0''"
    using format_shape by blast
  have "length f \<le> places" using arg_cong [OF x, of length] by simp
  moreover have "length (show_nat (round36 r div 10 ^ places)) \<le> 78"
    by (rule length_show_nat [OF round36_whole [OF assms]]) simp
  ultimately show ?thesis unfolding f by (simp add: places_def)
qed

definition dval :: "string \<Rightarrow> rat" where
  "dval s = (case decimal_value s of Some r \<Rightarrow> r | None \<Rightarrow> 0)"

definition exact_amount :: "string \<Rightarrow> bool" where
  "exact_amount s \<longleftrightarrow> (case decimal_value s of Some r \<Rightarrow> exact36 r | None \<Rightarrow> False)"

lemma exact_amount_decimal: "decimal s = Some v \<Longrightarrow> exact_amount v"
  using decimal_exact36 [of s v] by (auto simp: exact_amount_def)

lemma exact_amount_dval: "exact_amount v \<Longrightarrow> exact36 (dval v)"
  by (simp add: exact_amount_def dval_def split: option.splits)

lemma exact_amount_format: "exact36 r \<Longrightarrow> exact_amount (format_decimal r) \<and> dval (format_decimal r) = r"
  by (simp add: exact_amount_def dval_def format_value_exact)

lemma sum_decimals_exact:
  "\<forall>v \<in> set vs. exact_amount v \<Longrightarrow>
     exact_amount (sum_decimals vs) \<and> dval (sum_decimals vs) = sum_list (map dval vs)"
proof -
  assume "\<forall>v \<in> set vs. exact_amount v"
  then have "exact36 (sum_list (map dval vs))" by (intro exact36_sum_list) (auto simp: exact_amount_dval)
  moreover have "sum_decimals vs = format_decimal (sum_list (map dval vs))"
    by (simp add: sum_decimals_def dval_def [abs_def])
  ultimately show ?thesis using exact_amount_format by simp
qed

lemma multiply_decimal_exact:
  "exact_amount d \<Longrightarrow> 0 \<le> n \<Longrightarrow>
     exact_amount (multiply_decimal d n) \<and> dval (multiply_decimal d n) = dval d * of_int n"
  using exact_amount_format [OF exact36_mult [OF exact_amount_dval]]
  by (simp add: multiply_decimal_def dval_def)

section \<open>Properties\<close>

text \<open>
  C38. \<open>Decimal\<close> normalizes: what it returns denotes the same number as its input, is at most 115 bytes long,
  and is accepted again and returned unchanged, so an amount that was stored once can always be read back.
\<close>

theorem decimal_normalizes:
  "case decimal s of
     None \<Rightarrow> True
   | Some v \<Rightarrow> decimal v = Some v \<and> decimal_value v = decimal_value s \<and> length v \<le> 115"
proof (cases "decimal s")
  case None
  then show ?thesis by simp
next
  case (Some v)
  then obtain r where r: "decimal_value s = Some r" "\<not> r < 0" "fits_256 r" "v = format_decimal r"
      "decimal_value v = Some r"
    by (auto simp: decimal_def Let_def split: if_splits option.splits)
  have "r = of_nat (round36 r) / 10 ^ places" using r(4,5) format_value [of r] by simp
  then have "rat_of_nat (round36 r) = r * 10 ^ places"
    by (metis nonzero_eq_divide_eq power_not_zero zero_neq_numeral)
  then have len: "length v \<le> 115" unfolding r(4) using fits_256_less [OF r(3)] by (rule length_format)
  have "decimal v = Some v"
    using len r by (simp add: decimal_def Let_def)
  then show ?thesis using Some r len by simp
qed

end
