(* ===== verification/Accounting.thy ===== *)
theory Accounting
  imports Decimal Costmap Capacity
begin

text \<open>
  Request accounting (\<open>internal/accounting/accounting.go\<close>): what each upstream attempt reported, what the
  proxy estimates from its price data, and the record of a request that aggregates its attempts.

  Amounts are exact decimal strings (theory \<open>Decimal\<close>), token counts 64-bit integers. A context that
  carries an attempt is the attempt's index. \<open>acct_lib\<close> holds \<open>strconv.FormatFloat\<close> and the
  SHA-256 of the JSON of a pricing.
\<close>

section \<open>Records\<close>

record acct_lib =
  format_float :: "f64 \<Rightarrow> string"

record acct_usage =
  au_source :: string
  au_input :: "int option"
  au_output :: "int option"
  au_total :: "int option"
  au_cache_read :: "int option"
  au_cache_write :: "int option"
  au_reasoning :: "int option"

record cost_component =
  cc_type :: string
  cc_tokens :: int
  cc_rate :: string
  cc_amount :: string

record acct_cost =
  ac_currency :: string
  ac_amount :: "string option"
  ac_source :: string
  ac_reported :: "string option"
  ac_estimated :: "string option"
  ac_via :: string
  ac_components :: "cost_component list"

record acct_pricing =
  ap_revision :: string
  ap_source :: string
  ap_key :: string
  ap_input :: "string option"
  ap_output :: "string option"
  ap_cache_read :: "string option"
  ap_cache_write :: "string option"

record acct_attempt =
  at_native_captured :: bool
  at_native_usage :: "(string \<times> json) list option"
  at_provider :: string
  at_model :: string
  at_deployment_key :: string
  at_pool :: string
  at_policy :: string
  at_status :: string
  at_usage :: acct_usage
  at_cost :: acct_cost
  at_pricing :: "acct_pricing option"
  at_warnings :: "string list"

record acct_record =
  rec_id :: string
  rec_request_id :: string
  rec_key_id :: "int option"
  rec_state :: string
  rec_coverage :: string
  rec_usage :: acct_usage
  rec_cost :: acct_cost
  rec_attempts :: "acct_attempt list"

text \<open>\<open>col_current\<close> is \<open>-1\<close> before the first attempt, as in the code.\<close>

record collector =
  col_record :: acct_record
  col_current :: int

definition unknown_usage :: acct_usage where
  "unknown_usage = \<lparr>au_source = ''unknown'', au_input = None, au_output = None, au_total = None,
     au_cache_read = None, au_cache_write = None, au_reasoning = None\<rparr>"

definition unknown_cost :: acct_cost where
  "unknown_cost = \<lparr>ac_currency = ''USD'', ac_amount = None, ac_source = ''unknown'', ac_reported = None,
     ac_estimated = None, ac_via = [], ac_components = []\<rparr>"

definition new_collector :: "string \<Rightarrow> string \<Rightarrow> int option \<Rightarrow> collector" where
  "new_collector uuid request_id i = \<lparr>
     col_record = \<lparr>rec_id = ''acct_'' @ uuid, rec_request_id = request_id, rec_key_id = i,
       rec_state = ''pending'', rec_coverage = ''unknown'', rec_usage = unknown_usage\<lparr>au_source := []\<rparr>,
       rec_cost = unknown_cost, rec_attempts = []\<rparr>,
     col_current = -1\<rparr>"

section \<open>Beginning an attempt\<close>

definition priced_rate :: "acct_lib \<Rightarrow> model_spec \<Rightarrow> string \<Rightarrow> f64 \<Rightarrow> string option" where
  "priced_rate al spec key v =
     (case known_rates spec of
        None \<Rightarrow> Some (format_float al v)
      | Some ks \<Rightarrow> if mget ks key False then Some (format_float al v) else None)"

definition make_pricing :: "acct_lib \<Rightarrow> (acct_pricing \<Rightarrow> string) \<Rightarrow> effective_spec \<Rightarrow> acct_pricing" where
  "make_pricing al digest es =
     (let s = es_spec es;
          p = \<lparr>ap_revision = [], ap_source = es_source es, ap_key = es_key es,
               ap_input = priced_rate al s ''input_cost_per_token'' (spec_input_cost s),
               ap_output = priced_rate al s ''output_cost_per_token'' (spec_output_cost s),
               ap_cache_read = priced_rate al s ''cache_read_input_token_cost'' (spec_cache_read_cost s),
               ap_cache_write = priced_rate al s ''cache_creation_input_token_cost'' (spec_cache_creation_cost s)\<rparr>
      in p\<lparr>ap_revision := digest p\<rparr>)"

definition begin_attempt ::
  "acct_lib \<Rightarrow> (acct_pricing \<Rightarrow> string) \<Rightarrow> collector \<Rightarrow> string \<Rightarrow> string \<Rightarrow> string \<Rightarrow> string \<Rightarrow> string \<Rightarrow> string
   \<Rightarrow> cost_manager option \<Rightarrow> collector" where
  "begin_attempt al digest c provider proxy actual dep_key pool policy cm =
     (let pricing = (case cm of None \<Rightarrow> None
            | Some m \<Rightarrow> (let es = get_effective_spec m proxy [actual]
                        in if es_found es then Some (make_pricing al digest es) else None));
          a = \<lparr>at_native_captured = False, at_native_usage = None, at_provider = provider, at_model = actual,
               at_deployment_key = dep_key, at_pool = pool,
               at_policy = (if policy = [] then ''prefer_upstream'' else policy), at_status = ''pending'',
               at_usage = unknown_usage, at_cost = unknown_cost, at_pricing = pricing, at_warnings = []\<rparr>;
          as = rec_attempts (col_record c) @ [a]
      in c\<lparr>col_record := (col_record c)\<lparr>rec_attempts := as\<rparr>, col_current := int (length as) - 1\<rparr>)"

section \<open>Evidence from the upstream\<close>

definition warn :: "acct_attempt \<Rightarrow> string \<Rightarrow> acct_attempt" where
  "warn a msg = (if msg \<in> set (at_warnings a) then a else a\<lparr>at_warnings := at_warnings a @ [msg]\<rparr>)"

definition merge_native :: "acct_attempt \<Rightarrow> json \<Rightarrow> acct_attempt" where
  "merge_native a j =
     (case j of
        JObj latest \<Rightarrow> a\<lparr>at_native_usage := Some (foldl (\<lambda>m (k, v). alist_put k v m)
            (case at_native_usage a of Some old \<Rightarrow> old | None \<Rightarrow> []) latest)\<rparr>
      | _ \<Rightarrow> a)"

definition litellm_cost_header :: string where
  "litellm_cost_header = ''header:x-litellm-response-cost''"

text \<open>A cost from the LiteLLM header is not replaced by one from a body.\<close>

definition set_reported :: "acct_attempt \<Rightarrow> string \<Rightarrow> string \<Rightarrow> acct_attempt" where
  "set_reported a s via =
     (case decimal s of
        None \<Rightarrow> warn a (''invalid upstream cost from '' @ via)
      | Some v \<Rightarrow>
          if ac_via (at_cost a) = litellm_cost_header \<and> via \<noteq> litellm_cost_header then a
          else a\<lparr>at_cost := (at_cost a)\<lparr>ac_reported := Some v, ac_via := via\<rparr>\<rparr>)"

text \<open>The text of a JSON value without its quotes; other values have no text that is a decimal.\<close>

definition json_text :: "json \<Rightarrow> string" where
  "json_text j = (case j of JNum s \<Rightarrow> s | JStr s \<Rightarrow> s | JNull \<Rightarrow> ''null'' | JBool True \<Rightarrow> ''true''
     | JBool False \<Rightarrow> ''false'' | JArr _ \<Rightarrow> ''[]'' | JObj _ \<Rightarrow> ''{}'')"

text \<open>\<open>AccountingJSON\<close>: the upstream's object, or the counts of the usage itself.\<close>

definition accounting_json :: "golib \<Rightarrow> usage \<Rightarrow> json" where
  "accounting_json lib u =
     (case original_usage u of
        Some j \<Rightarrow> j
      | None \<Rightarrow> JObj ([(''prompt_tokens'', JNum (itoa lib (prompt_tokens u))),
                     (''completion_tokens'', JNum (itoa lib (completion_tokens u))),
                     (''total_tokens'', JNum (itoa lib (total_tokens u)))]
          @ (if cache_read_tokens u \<noteq> 0 then [(''cache_read_tokens'', JNum (itoa lib (cache_read_tokens u)))] else [])
          @ (if cache_write_tokens u \<noteq> 0 then [(''cache_write_tokens'', JNum (itoa lib (cache_write_tokens u)))] else [])))"

text \<open>An integer member of an object member; the last of several object members that has it counts.\<close>

definition detail_count :: "json \<Rightarrow> string \<Rightarrow> string \<Rightarrow> int option" where
  "detail_count raw field sub =
     (case json_field raw field of
        Some d \<Rightarrow> (case json_field d sub of Some (JNum s) \<Rightarrow> atoi s | _ \<Rightarrow> None)
      | None \<Rightarrow> None)"

definition last_detail :: "json \<Rightarrow> string list \<Rightarrow> string \<Rightarrow> int option" where
  "last_detail raw fnames sub =
     foldl (\<lambda>acc f. case detail_count raw f sub of Some v \<Rightarrow> Some v | None \<Rightarrow> acc) None fnames"

definition drop_bad_cached :: "acct_attempt \<Rightarrow> acct_usage \<Rightarrow> int \<Rightarrow> acct_attempt \<times> acct_usage" where
  "drop_bad_cached a us inp =
     (case au_cache_read us of
        Some v \<Rightarrow> if v < 0 \<or> inp < v
                   then (warn a ''invalid cached token count'', us\<lparr>au_cache_read := None, au_input := None\<rparr>)
                   else (a, us)
      | None \<Rightarrow> (a, us))"

definition drop_bad_reasoning :: "acct_attempt \<Rightarrow> acct_usage \<Rightarrow> int \<Rightarrow> acct_attempt \<times> acct_usage" where
  "drop_bad_reasoning a us out =
     (case au_reasoning us of
        Some v \<Rightarrow> if v < 0 \<or> out < v
                   then (warn a ''invalid reasoning token count'', us\<lparr>au_reasoning := None\<rparr>) else (a, us)
      | None \<Rightarrow> (a, us))"

text \<open>A total from a header covers the whole upstream request: it wins, and counts that disagree with it go.\<close>

definition apply_header_total ::
  "acct_usage \<Rightarrow> acct_usage \<Rightarrow> bool \<Rightarrow> bool \<Rightarrow> int \<Rightarrow> int \<Rightarrow> acct_usage" where
  "apply_header_total old us in_known out_known inp out =
     (if au_source old \<noteq> ''upstream_header'' then us
      else
        let us1 = us\<lparr>au_total := au_total old, au_source := ''upstream_header''\<rparr>
        in if \<not> in_known \<or> \<not> out_known \<or> au_total old \<noteq> Some (inp + out)
           then us1\<lparr>au_input := None, au_output := None, au_cache_read := None, au_cache_write := None,
                    au_reasoning := None\<rparr>
           else us1)"

definition observe_usage :: "golib \<Rightarrow> acct_attempt \<Rightarrow> usage \<Rightarrow> acct_attempt" where
  "observe_usage lib a0 u =
     (let raw = accounting_json lib u;
          has = (\<lambda>k. json_field raw k \<noteq> None);
          a1 = (if at_native_captured a0 then a0 else merge_native a0 raw);
          a2 = (if at_provider a1 = ''openrouter''
                then (case json_field raw ''cost'' of
                        Some v \<Rightarrow> set_reported a1 (json_text v) ''body:usage.cost'' | None \<Rightarrow> a1)
                else a1);
          inp = prompt_tokens u; out = completion_tokens u;
          rd = cache_read_tokens u; wr = cache_write_tokens u
      in if inp < 0 \<or> out < 0 \<or> rd < 0 \<or> wr < 0 then warn a2 ''invalid negative token counts''
         else
           let in_known = (has ''prompt_tokens'' \<or> has ''input_tokens'');
               out_known0 = (has ''completion_tokens'' \<or> has ''output_tokens'');
               embed = (in_known \<and> \<not> out_known0 \<and> has ''total_tokens'' \<and> total_tokens u = inp);
               out_known = (out_known0 \<or> embed);
               out_count = (if out_known0 then Some out else if embed then Some 0 else None);
               anthropic = (at_provider a2 = ''anthropic'')
           in if anthropic \<and> (max_int64 - rd < inp \<or> max_int64 - wr < inp + rd)
              then warn a2 ''token count overflow''
              else
                let inp1 = (if anthropic then inp + rd + wr else inp);
                    us0 = \<lparr>au_source = ''upstream'', au_input = (if in_known then Some inp1 else None),
                           au_output = out_count, au_total = None,
                           au_cache_read = (if anthropic then Some rd
                              else last_detail raw [''prompt_tokens_details'', ''input_tokens_details''] ''cached_tokens''),
                           au_cache_write = (if anthropic then Some wr else None),
                           au_reasoning = last_detail raw [''completion_tokens_details'', ''output_tokens_details'']
                              ''reasoning_tokens''\<rparr>;
                    (a3, us1) = drop_bad_cached a2 us0 inp1;
                    (a4, us2) = drop_bad_reasoning a3 us1 out
                in if max_int64 - out < inp1 then warn a4 ''token count overflow''
                   else
                     let us3 = us2\<lparr>au_total :=
                            (if in_known \<and> out_known then Some (inp1 + out)
                             else if has ''total_tokens'' \<and> 0 \<le> total_tokens u then Some (total_tokens u) else None)\<rparr>;
                         us4 = apply_header_total (at_usage a4) us3 in_known out_known inp1 out;
                         us5 = (if au_total us4 = None \<and> au_input us4 = None \<and> au_output us4 = None
                                then us4\<lparr>au_source := ''unknown''\<rparr> else us4)
                     in a4\<lparr>at_usage := us5\<rparr>)"

definition on_attempt :: "collector \<Rightarrow> nat \<Rightarrow> (acct_attempt \<Rightarrow> acct_attempt) \<Rightarrow> collector" where
  "on_attempt c i f =
     c\<lparr>col_record := (col_record c)\<lparr>rec_attempts :=
        (let as = rec_attempts (col_record c) in if i < length as then as[i := f (as ! i)] else as)\<rparr>\<rparr>"

definition collector_observe_usage :: "golib \<Rightarrow> collector \<Rightarrow> usage option \<Rightarrow> collector" where
  "collector_observe_usage lib c uo =
     (case uo of None \<Rightarrow> c
      | Some u \<Rightarrow> if col_current c < 0 then c
                  else on_attempt c (nat (col_current c)) (\<lambda>a. observe_usage lib a u))"

text \<open>The two headers that are accounting evidence; an absent header reads as the empty string.\<close>

definition observe_headers :: "acct_attempt \<Rightarrow> string \<Rightarrow> string \<Rightarrow> acct_attempt" where
  "observe_headers a cost_header total_header =
     (let a1 = (if cost_header \<noteq> [] then set_reported a cost_header litellm_cost_header else a)
      in if total_header = [] then a1
         else case atoi total_header of
           None \<Rightarrow> warn a1 ''invalid x-litellm-total-tokens''
         | Some n \<Rightarrow> if n < 0 then warn a1 ''invalid x-litellm-total-tokens''
                     else a1\<lparr>at_usage := (at_usage a1)\<lparr>au_total := Some n, au_source := ''upstream_header''\<rparr>\<rparr>)"

definition end_attempt :: "acct_attempt \<Rightarrow> bool \<Rightarrow> acct_attempt" where
  "end_attempt a failed = a\<lparr>at_status := (if failed then ''failed'' else ''completed'')\<rparr>"

section \<open>Pricing an attempt\<close>

text \<open>\<open>None\<close>: a rate that is needed is missing or not a decimal.\<close>

fun price_parts :: "(string \<times> int \<times> string option) list \<Rightarrow> cost_component list \<times> bool" where
  "price_parts [] = ([], True)"
| "price_parts ((name, n, r) # ps) =
     (case r of
        None \<Rightarrow> if n = 0 then price_parts ps else ([], False)
      | Some s \<Rightarrow>
          (case decimal s of
             None \<Rightarrow> ([], False)
           | Some d \<Rightarrow>
               (let (cs, ok) = price_parts ps
                in (\<lparr>cc_type = name, cc_tokens = n, cc_rate = d, cc_amount = multiply_decimal d n\<rparr> # cs, ok))))"

definition select_cost :: "acct_attempt \<Rightarrow> acct_attempt" where
  "select_cost a =
     (if at_policy a \<noteq> ''estimate_only'' \<and> ac_reported (at_cost a) \<noteq> None
      then a\<lparr>at_cost := (at_cost a)\<lparr>ac_amount := ac_reported (at_cost a), ac_source := ''upstream''\<rparr>\<rparr>
      else if at_policy a \<noteq> ''require_upstream'' \<and> ac_estimated (at_cost a) \<noteq> None
      then a\<lparr>at_cost := (at_cost a)\<lparr>ac_amount := ac_estimated (at_cost a), ac_source := ''estimate''\<rparr>\<rparr>
      else a)"

definition count_or_zero :: "int option \<Rightarrow> int" where
  "count_or_zero x = (case x of Some v \<Rightarrow> v | None \<Rightarrow> 0)"

definition valid_counts :: "int \<Rightarrow> int \<Rightarrow> int \<Rightarrow> int \<Rightarrow> bool" where
  "valid_counts inp out cached wr \<longleftrightarrow>
     cached \<le> inp \<and> wr \<le> inp - cached \<and> 0 \<le> inp \<and> 0 \<le> out \<and> 0 \<le> cached \<and> 0 \<le> wr"

definition estimate_parts :: "acct_pricing \<Rightarrow> int \<Rightarrow> int \<Rightarrow> int \<Rightarrow> int \<Rightarrow> (string \<times> int \<times> string option) list" where
  "estimate_parts p inp out cached wr =
     [(''input'', inp - cached - wr, ap_input p), (''output'', out, ap_output p),
      (''cache_read'', cached, ap_cache_read p), (''cache_write'', wr, ap_cache_write p)]"

text \<open>The components and the estimated amount.\<close>

definition estimate_of :: "acct_pricing option \<Rightarrow> acct_usage \<Rightarrow> cost_component list \<times> string option" where
  "estimate_of po us =
     (case po of None \<Rightarrow> ([], None) | Some p \<Rightarrow>
        (case au_input us of None \<Rightarrow> ([], None) | Some inp \<Rightarrow>
           (case au_output us of None \<Rightarrow> ([], None) | Some out \<Rightarrow>
              (let cached = count_or_zero (au_cache_read us); wr = count_or_zero (au_cache_write us)
               in if valid_counts inp out cached wr
                  then (let (cs, ok) = price_parts (estimate_parts p inp out cached wr)
                        in (cs, if ok then Some (sum_decimals (map cc_amount cs)) else None))
                  else ([], None)))))"

definition price :: "acct_attempt \<Rightarrow> acct_attempt" where
  "price a =
     (let (cs, est) = estimate_of (at_pricing a) (at_usage a)
      in select_cost (a\<lparr>at_cost := (at_cost a)\<lparr>ac_components := cs, ac_estimated := est, ac_amount := None,
                 ac_source := ''unknown''\<rparr>\<rparr>))"

section \<open>The record of a request\<close>

text \<open>
  One field of the aggregated usage: the sum over all attempts, absent when an attempt lacks it or the
  64-bit sum would overflow.
\<close>

fun sum_counts :: "int option list \<Rightarrow> int \<Rightarrow> int option" where
  "sum_counts [] n = Some n"
| "sum_counts (x # xs) n =
     (case x of None \<Rightarrow> None
      | Some v \<Rightarrow> if max_int64 - n < v then None else sum_counts xs (n + v))"

definition aggregate_usage :: "acct_usage list \<Rightarrow> acct_usage" where
  "aggregate_usage us =
     (case us of
        [] \<Rightarrow> unknown_usage
      | u # _ \<Rightarrow>
          (let total = (\<lambda>f. sum_counts (map f us) 0);
               src = (if list_all (\<lambda>x. au_source x = au_source u) us then au_source u else ''mixed'');
               r = \<lparr>au_source = src, au_input = total au_input, au_output = total au_output, au_total = total au_total,
                    au_cache_read = total au_cache_read, au_cache_write = total au_cache_write,
                    au_reasoning = total au_reasoning\<rparr>
           in if au_total r = None \<and> au_input r = None \<and> au_output r = None
              then r\<lparr>au_source := ''unknown''\<rparr> else r))"

text \<open>An attempt as the record shows it: priced, and interrupted when it never ended.\<close>

definition settle :: "bool \<Rightarrow> acct_attempt \<Rightarrow> acct_attempt" where
  "settle final a =
     (let p = price a in if at_status p = ''pending'' \<and> final then p\<lparr>at_status := ''interrupted''\<rparr> else p)"

definition estimate_at_risk :: "bool \<Rightarrow> acct_attempt \<Rightarrow> bool" where
  "estimate_at_risk final a =
     (let p = price a in ac_source (at_cost p) = ''estimate''
        \<and> (at_status p = ''failed'' \<or> at_status p = ''interrupted'' \<or> (at_status p = ''pending'' \<and> final)))"

fun combined_source :: "string \<Rightarrow> acct_attempt list \<Rightarrow> string" where
  "combined_source src [] = src"
| "combined_source src (a # as) =
     combined_source
       (if ac_amount (at_cost a) = None then src
        else if src = ''unknown'' then ac_source (at_cost a)
        else if src \<noteq> ac_source (at_cost a) then ''mixed'' else src) as"

definition present :: "'a option list \<Rightarrow> 'a list" where
  "present xs = map the (filter (\<lambda>x. x \<noteq> None) xs)"

text \<open>
  The result is a copy made through JSON, which does not carry the unexported \<open>nativeCaptured\<close>.
  The collector itself is unchanged.
\<close>

definition snapshot :: "collector \<Rightarrow> bool \<Rightarrow> acct_record" where
  "snapshot c final =
     (let r = col_record c;
          n = length (rec_attempts r);
          as = map (settle final) (rec_attempts r);
          amounts = present (map (\<lambda>a. ac_amount (at_cost a)) as);
          reported = present (map (\<lambda>a. ac_reported (at_cost a)) as);
          estimated = present (map (\<lambda>a. ac_estimated (at_cost a)) as);
          partial = list_ex (estimate_at_risk final) (rec_attempts r)
      in \<lparr>rec_id = rec_id r, rec_request_id = rec_request_id r, rec_key_id = rec_key_id r,
          rec_state = (if final then ''final'' else rec_state r),
          rec_coverage = (if amounts = [] then ''unknown''
             else if length amounts = n \<and> \<not> partial then ''complete'' else ''partial''),
          rec_usage = aggregate_usage (map at_usage as),
          rec_cost = \<lparr>ac_currency = ''USD'',
             ac_amount = (if amounts = [] then None else Some (sum_decimals amounts)),
             ac_source = combined_source ''unknown'' as,
             ac_reported = (if reported \<noteq> [] \<and> length reported = n then Some (sum_decimals reported) else None),
             ac_estimated = (if estimated \<noteq> [] \<and> length estimated = n then Some (sum_decimals estimated) else None),
             ac_via = (case as of [a] \<Rightarrow> ac_via (at_cost a) | _ \<Rightarrow> []),
             ac_components = (case as of [a] \<Rightarrow> ac_components (at_cost a) | _ \<Rightarrow> [])\<rparr>,
          rec_attempts = map (\<lambda>a. a\<lparr>at_native_captured := False\<rparr>) as\<rparr>)"

definition restore_collector :: "acct_record \<Rightarrow> collector" where
  "restore_collector r =
     (let as = map (\<lambda>a. a\<lparr>at_native_captured := (at_native_usage a \<noteq> None)\<rparr>) (rec_attempts r)
      in \<lparr>col_record = r\<lparr>rec_attempts := as\<rparr>, col_current = int (length as) - 1\<rparr>)"

definition collector_current_usage :: "collector \<Rightarrow> usage option" where
  "collector_current_usage c =
     (if col_current c < 0 then None
      else map_option (\<lambda>n. empty_usage\<lparr>total_tokens := n\<rparr>)
             (au_total (at_usage (rec_attempts (col_record c) ! nat (col_current c)))))"

section \<open>Lemmas\<close>

lemma price_parts_exact:
  assumes "\<forall>(name, n, r) \<in> set ps. 0 \<le> n" "price_parts ps = (cs, ok)"
  shows "(\<forall>c \<in> set cs. exact_amount (cc_amount c) \<and> 0 \<le> cc_tokens c
            \<and> dval (cc_amount c) = dval (cc_rate c) * of_int (cc_tokens c))
    \<and> (ok \<longrightarrow> sum_list (map cc_tokens cs) = sum_list (map (\<lambda>(name, n, r). n) ps))"
  using assms
proof (induction ps arbitrary: cs ok)
  case Nil
  then show ?case by simp
next
  case (Cons p ps)
  obtain name n r where p: "p = (name, n, r)" by (metis prod_cases3)
  have n: "0 \<le> n" using Cons.prems(1) by (simp add: p)
  have rest: "\<forall>(name, n, r) \<in> set ps. 0 \<le> n" using Cons.prems(1) by simp
  show ?case
  proof (cases r)
    case None
    then show ?thesis using Cons.IH [OF rest] Cons.prems(2) by (auto simp: p split: if_splits)
  next
    case (Some s)
    show ?thesis
    proof (cases "decimal s")
      case None
      then show ?thesis using Cons.prems(2) Some by (simp add: p)
    next
      case (Some d)
      obtain cs1 ok1 where r1: "price_parts ps = (cs1, ok1)" by (cases "price_parts ps")
      have eq: "cs = \<lparr>cc_type = name, cc_tokens = n, cc_rate = d, cc_amount = multiply_decimal d n\<rparr> # cs1" "ok = ok1"
        using Cons.prems(2) Some \<open>r = Some s\<close> r1 by (simp_all add: p)
      show ?thesis
        using Cons.IH [OF rest r1] n multiply_decimal_exact [OF exact_amount_decimal [OF Some] n]
        by (simp add: eq p)
    qed
  qed
qed

lemma select_cost_keeps [simp]:
  "ac_components (at_cost (select_cost a)) = ac_components (at_cost a)"
  "ac_estimated (at_cost (select_cost a)) = ac_estimated (at_cost a)"
  "ac_reported (at_cost (select_cost a)) = ac_reported (at_cost a)"
  "at_usage (select_cost a) = at_usage a" "at_policy (select_cost a) = at_policy a"
  by (simp_all add: select_cost_def)

lemma price_fields:
  "ac_reported (at_cost (price a)) = ac_reported (at_cost a)"
  "ac_components (at_cost (price a)) = fst (estimate_of (at_pricing a) (at_usage a))"
  "ac_estimated (at_cost (price a)) = snd (estimate_of (at_pricing a) (at_usage a))"
  "at_usage (price a) = at_usage a"
  by (simp_all add: price_def split: prod.splits)

lemma price_amount:
  "ac_amount (at_cost (price a)) =
     (if at_policy a \<noteq> ''estimate_only'' \<and> ac_reported (at_cost a) \<noteq> None then ac_reported (at_cost a)
      else if at_policy a \<noteq> ''require_upstream'' then snd (estimate_of (at_pricing a) (at_usage a)) else None)"
  by (simp add: price_def select_cost_def split: prod.splits)

lemma estimate_of_Some:
  assumes "estimate_of po us = (cs, Some v)"
  shows "\<exists>p inp out. po = Some p \<and> au_input us = Some inp \<and> au_output us = Some out
    \<and> valid_counts inp out (count_or_zero (au_cache_read us)) (count_or_zero (au_cache_write us))
    \<and> price_parts (estimate_parts p inp out (count_or_zero (au_cache_read us)) (count_or_zero (au_cache_write us))) = (cs, True)
    \<and> v = sum_decimals (map cc_amount cs)"
proof -
  obtain p where p: "po = Some p" using assms by (cases po) (simp_all add: estimate_of_def)
  obtain inp where i: "au_input us = Some inp" using assms p by (cases "au_input us") (simp_all add: estimate_of_def)
  obtain out where out: "au_output us = Some out" using assms p i by (cases "au_output us") (simp_all add: estimate_of_def)
  let ?c = "count_or_zero (au_cache_read us)" and ?w = "count_or_zero (au_cache_write us)"
  have v: "valid_counts inp out ?c ?w"
    using assms p i out by (cases "valid_counts inp out ?c ?w") (simp_all add: estimate_of_def)
  obtain cs1 ok where pp: "price_parts (estimate_parts p inp out ?c ?w) = (cs1, ok)"
    by (cases "price_parts (estimate_parts p inp out ?c ?w)")
  have e: "cs1 = cs" "(if ok then Some (sum_decimals (map cc_amount cs1)) else None) = Some v"
    using assms p i out v pp by (simp_all add: estimate_of_def)
  then have ok: "ok = True" by (cases ok) simp_all
  with e have "v = sum_decimals (map cc_amount cs)" by simp
  with e(1) ok p i out v pp show ?thesis by blast
qed

lemma estimate_exact:
  assumes "estimate_of po us = (cs, Some v)"
  shows "exact_amount v \<and> dval v = (\<Sum>c\<leftarrow>cs. dval (cc_rate c) * of_int (cc_tokens c))
    \<and> list_all (\<lambda>c. 0 \<le> cc_tokens c) cs
    \<and> (\<exists>inp out. au_input us = Some inp \<and> au_output us = Some out \<and> (\<Sum>c\<leftarrow>cs. cc_tokens c) = inp + out)"
proof -
  obtain p inp out where e: "au_input us = Some inp" "au_output us = Some out"
    "valid_counts inp out (count_or_zero (au_cache_read us)) (count_or_zero (au_cache_write us))"
    "price_parts (estimate_parts p inp out (count_or_zero (au_cache_read us)) (count_or_zero (au_cache_write us))) = (cs, True)"
    "v = sum_decimals (map cc_amount cs)"
    using estimate_of_Some [OF assms] by blast
  let ?ps = "estimate_parts p inp out (count_or_zero (au_cache_read us)) (count_or_zero (au_cache_write us))"
  have nn: "\<forall>(name, n, r) \<in> set ?ps. 0 \<le> n" using e(3) by (simp add: estimate_parts_def valid_counts_def)
  note x = price_parts_exact [OF nn e(4)]
  have s: "exact_amount v \<and> dval v = sum_list (map dval (map cc_amount cs))"
    unfolding e(5) by (rule sum_decimals_exact) (use x in simp)
  have "map dval (map cc_amount cs) = map (\<lambda>c. dval (cc_rate c) * of_int (cc_tokens c)) cs"
    unfolding map_map by (rule map_cong [OF refl]) (use x in simp)
  moreover have "(\<Sum>c\<leftarrow>cs. cc_tokens c) = inp + out" using x by (simp add: estimate_parts_def)
  ultimately show ?thesis using s e(1,2) x by (simp only: list_all_iff) blast
qed

text \<open>A reported amount is always the result of \<open>Decimal\<close>: \<open>set_reported\<close> is the only writer.\<close>

definition reported_exact :: "acct_attempt \<Rightarrow> bool" where
  "reported_exact a \<longleftrightarrow> (case ac_reported (at_cost a) of None \<Rightarrow> True | Some v \<Rightarrow> exact_amount v)"

lemma warn_cost [simp]: "at_cost (warn a m) = at_cost a"
  by (simp add: warn_def)

lemma merge_native_cost [simp]: "at_cost (merge_native a j) = at_cost a"
  by (simp add: merge_native_def split: json.splits)

lemma set_reported_exact: "reported_exact a \<Longrightarrow> reported_exact (set_reported a s via)"
  using exact_amount_decimal [of s]
  by (auto simp: set_reported_def reported_exact_def split: option.splits)

lemma reported_exact_cost: "at_cost b = at_cost a \<Longrightarrow> reported_exact b = reported_exact a"
  by (simp add: reported_exact_def)

lemma drop_bad_cost:
  "at_cost (fst (drop_bad_cached a us n)) = at_cost a" "at_cost (fst (drop_bad_reasoning a us n)) = at_cost a"
  by (simp_all add: drop_bad_cached_def drop_bad_reasoning_def split: option.splits)

lemma price_amount_exact: "reported_exact a \<Longrightarrow> ac_amount (at_cost (price a)) = Some v \<Longrightarrow> exact_amount v"
  using estimate_exact [of "at_pricing a" "at_usage a" "fst (estimate_of (at_pricing a) (at_usage a))" v]
  by (auto simp: price_amount reported_exact_def prod_eq_iff split: if_splits option.splits)

lemma present_Some: "v \<in> set (present xs) \<longleftrightarrow> Some v \<in> set xs"
  by (force simp: present_def)

lemma settle_cost [simp]: "at_cost (settle final a) = at_cost (price a)"
  by (simp add: settle_def Let_def)

section \<open>Properties\<close>

text \<open>
  C39. An estimate is exact and complete. When \<open>price\<close> gives an attempt an estimated amount, it is the exact sum
  of its components' tokens times their rates, no token count is negative, and the components count every
  input and output token of the attempt exactly once: cached and written tokens are not also billed as input.
\<close>

theorem price_estimate_exact:
  "case ac_estimated (at_cost (price a)) of
     None \<Rightarrow> True
   | Some v \<Rightarrow>
       (let cs = ac_components (at_cost (price a)) in
        dval v = (\<Sum>c\<leftarrow>cs. dval (cc_rate c) * of_int (cc_tokens c))
        \<and> list_all (\<lambda>c. 0 \<le> cc_tokens c) cs
        \<and> (\<exists>inp out. au_input (at_usage a) = Some inp \<and> au_output (at_usage a) = Some out
              \<and> (\<Sum>c\<leftarrow>cs. cc_tokens c) = inp + out))"
proof (cases "ac_estimated (at_cost (price a))")
  case None
  then show ?thesis by simp
next
  case (Some v)
  then have "estimate_of (at_pricing a) (at_usage a) = (ac_components (at_cost (price a)), Some v)"
    by (simp add: price_fields prod_eq_iff)
  from estimate_exact [OF this] show ?thesis using Some by (simp add: Let_def)
qed

text \<open>
  C40. The amount of a record is the exact sum of its attempts' amounts, and its coverage says how much
  of the request it covers: \<open>complete\<close> only when every attempt has an amount and none of them is an
  estimate for an attempt that did not complete.
\<close>

theorem snapshot_amount_exact:
  assumes "list_all reported_exact (rec_attempts (col_record c))"
  shows "let r = snapshot c final;
             amounts = present (map (\<lambda>a. ac_amount (at_cost (price a))) (rec_attempts (col_record c)))
         in (case ac_amount (rec_cost r) of
               None \<Rightarrow> amounts = [] \<and> rec_coverage r = ''unknown''
             | Some v \<Rightarrow> dval v = sum_list (map dval amounts)
                 \<and> (rec_coverage r = ''complete'') = (length amounts = length (rec_attempts (col_record c))
                      \<and> list_all (\<lambda>a. \<not> estimate_at_risk final a) (rec_attempts (col_record c))))"
proof -
  let ?as = "rec_attempts (col_record c)"
  let ?amounts = "present (map (\<lambda>a. ac_amount (at_cost (price a))) ?as)"
  have eq: "present (map (\<lambda>a. ac_amount (at_cost a)) (map (settle final) ?as)) = ?amounts"
    by (simp add: o_def)
  have "\<forall>v \<in> set ?amounts. exact_amount v"
    using assms by (fastforce simp: present_Some list_all_iff dest: price_amount_exact [OF _ sym])
  then have sum: "dval (sum_decimals ?amounts) = sum_list (map dval ?amounts)"
    using sum_decimals_exact by blast
  have fields: "ac_amount (rec_cost (snapshot c final)) = (if ?amounts = [] then None else Some (sum_decimals ?amounts))"
    "rec_coverage (snapshot c final) = (if ?amounts = [] then ''unknown''
       else if length ?amounts = length ?as \<and> \<not> list_ex (estimate_at_risk final) ?as then ''complete'' else ''partial'')"
    unfolding snapshot_def Let_def eq by simp_all
  show ?thesis
    unfolding Let_def fields using sum by (cases "?amounts = []") (simp_all add: list_all_iff list_ex_iff)
qed

definition sample_attempt :: acct_attempt where
  "sample_attempt = set_reported
     \<lparr>at_native_captured = False, at_native_usage = None, at_provider = ''openai'', at_model = ''gpt'',
      at_deployment_key = [], at_pool = [], at_policy = ''prefer_upstream'', at_status = ''completed'',
      at_usage = unknown_usage, at_cost = unknown_cost, at_pricing = None, at_warnings = []\<rparr> ''0.5'' ''usage.cost''"

definition sample_collector :: collector where
  "sample_collector = \<lparr>col_record = (col_record (new_collector [] [] None))\<lparr>rec_attempts := [sample_attempt, sample_attempt]\<rparr>,
     col_current = 1\<rparr>"

lemma sample_reported: "reported_exact sample_attempt"
  unfolding sample_attempt_def
  by (rule set_reported_exact) (simp add: reported_exact_def unknown_cost_def)

theorem snapshot_amount_exact_witness:
  "let r = snapshot sample_collector True;
       amounts = present (map (\<lambda>a. ac_amount (at_cost (price a))) (rec_attempts (col_record sample_collector)))
   in (case ac_amount (rec_cost r) of
         None \<Rightarrow> amounts = [] \<and> rec_coverage r = ''unknown''
       | Some v \<Rightarrow> dval v = sum_list (map dval amounts)
           \<and> (rec_coverage r = ''complete'') = (length amounts = length (rec_attempts (col_record sample_collector))
                \<and> list_all (\<lambda>a. \<not> estimate_at_risk True a) (rec_attempts (col_record sample_collector))))"
  by (rule snapshot_amount_exact) (simp add: sample_collector_def sample_reported)

end
