(* ===== verification/Settlement.thy ===== *)
theory Settlement
  imports Accounting Keystore Router_Config "HOL-Library.Multiset"
begin

text \<open>
  Settling a request: the durable accounting rows and background jobs of the database
  (\<open>internal/storage/sqlstore/accounting.go\<close>, \<open>responses.go\<close>, \<open>internal/storage/accounting.go\<close>), the
  accounting of a call in a handler (\<open>internal/api/handler/accounting.go\<close>), and the completion of background
  jobs (\<open>internal/responses\<close>, \<open>CancelResponseJob\<close> of \<open>internal/api/handler/responses.go\<close>).

  \<^item> The database is the record \<open>proxy_db\<close>. A statement that fails is the argument \<open>fault\<close>; a transaction that
    fails leaves the database as it was.
  \<^item> A record stored as JSON loses the members the code does not marshal; \<open>stored_copy\<close> is what is read back.
  \<^item> The state in memory that a settlement changes is \<open>proxy_world\<close>: the spend totals of the keys and the
    router, whose budget manager is credited and whose health is reported to.
\<close>

section \<open>Logs, rows and jobs\<close>

record request_log =
  lg_accounting_id :: string
  lg_cost_source :: string
  lg_cost_known :: "bool option"
  lg_cost_coverage :: string
  lg_usage_known :: bool
  lg_request_id :: string
  lg_session_id :: string
  lg_key_id :: "int option"
  lg_model :: string
  lg_provider :: string
  lg_endpoint :: string
  lg_input_tokens :: int
  lg_output_tokens :: int
  lg_total_cost :: f64
  lg_status_code :: int
  lg_latency_ms :: int
  lg_request_time :: time
  lg_is_streaming :: bool
  lg_deployment_key :: string
  lg_pool_name :: string
  lg_ttft_ms :: "int option"
  lg_req_snippet :: "string option"
  lg_resp_snippet :: string
  lg_cache_read :: int
  lg_cache_write :: int

record responses_job =
  job_accounting_id :: string
  job_session_id :: string
  job_id :: string
  job_key_id :: "int option"
  job_deployment_key :: string
  job_model_name :: string
  job_pool_name :: string
  job_status :: string
  job_request_json :: string
  job_response_json :: "string option"
  job_error_json :: "string option"
  job_created_at :: time
  job_updated_at :: time
  job_completed_at :: "time option"

record acct_row =
  row_key_id :: "int option"
  row_request_id :: string
  row_state :: string
  row_record :: acct_record

record proxy_db =
  db_accounting :: "(string \<times> acct_row) list"
  db_logs :: "request_log list"
  db_jobs :: "(string \<times> responses_job) list"

text \<open>\<open>accounting.Float\<close>: \<open>ParseFloat\<close> rounds the exact value of a decimal once.\<close>

definition acct_float :: "string option \<Rightarrow> f64" where
  "acct_float s = (case s of None \<Rightarrow> 0 | Some v \<Rightarrow> rnd64 (dval v))"

text \<open>\<open>Duration.Milliseconds\<close> truncates towards zero.\<close>

definition milliseconds :: "duration \<Rightarrow> int" where
  "milliseconds d = (if d < 0 then - ((- d) div 1000000) else d div 1000000)"

definition accounting_log :: "acct_record \<Rightarrow> string \<Rightarrow> string \<Rightarrow> time \<Rightarrow> time \<Rightarrow> request_log option" where
  "accounting_log r model_id endpoint started now =
     (if rec_attempts r = [] then None
      else
        let l = last (rec_attempts r); u = rec_usage r in Some \<lparr>
          lg_accounting_id = rec_id r, lg_cost_source = ac_source (rec_cost r),
          lg_cost_known = Some (ac_amount (rec_cost r) \<noteq> None), lg_cost_coverage = rec_coverage r,
          lg_usage_known = (au_input u \<noteq> None \<and> au_output u \<noteq> None),
          lg_request_id = rec_request_id r, lg_session_id = [], lg_key_id = rec_key_id r,
          lg_model = model_id, lg_provider = at_provider l, lg_endpoint = endpoint,
          lg_input_tokens = count_or_zero (au_input u), lg_output_tokens = count_or_zero (au_output u),
          lg_total_cost = acct_float (ac_amount (rec_cost r)), lg_status_code = 200,
          lg_latency_ms = milliseconds (now - started), lg_request_time = started, lg_is_streaming = False,
          lg_deployment_key = at_deployment_key l, lg_pool_name = at_pool l, lg_ttft_ms = None,
          lg_req_snippet = None, lg_resp_snippet = [],
          lg_cache_read = count_or_zero (au_cache_read u), lg_cache_write = count_or_zero (au_cache_write u)\<rparr>)"

definition stored_copy :: "acct_record \<Rightarrow> acct_record" where
  "stored_copy r = r\<lparr>rec_key_id := None,
     rec_attempts := map (\<lambda>a. a\<lparr>at_native_captured := False\<rparr>) (rec_attempts r)\<rparr>"

section \<open>Statements\<close>

definition put_accounting :: "goerror option \<Rightarrow> acct_record \<Rightarrow> proxy_db \<Rightarrow> goerror option \<times> proxy_db" where
  "put_accounting fault r db =
     (if fault \<noteq> None then (fault, db)
      else (None, case map_of (db_accounting db) (rec_id r) of
          None \<Rightarrow> db\<lparr>db_accounting := alist_put (rec_id r) \<lparr>row_key_id = rec_key_id r,
                     row_request_id = rec_request_id r, row_state = rec_state r, row_record = stored_copy r\<rparr>
                     (db_accounting db)\<rparr>
        | Some row \<Rightarrow>
            if row_state row = ''pending''
            then db\<lparr>db_accounting := alist_put (rec_id r) (row\<lparr>row_record := stored_copy r\<rparr>) (db_accounting db)\<rparr>
            else db))"

definition get_accounting :: "goerror option \<Rightarrow> string \<Rightarrow> proxy_db \<Rightarrow> goerror + acct_record option" where
  "get_accounting fault i db =
     (case fault of Some e \<Rightarrow> Inl e
      | None \<Rightarrow> Inr (map_option (\<lambda>row. (row_record row)\<lparr>rec_key_id := row_key_id row\<rparr>)
                   (map_of (db_accounting db) i)))"

definition set_job ::
  "string \<Rightarrow> string \<Rightarrow> string option \<Rightarrow> string option \<Rightarrow> time option \<Rightarrow> time \<Rightarrow> proxy_db \<Rightarrow> proxy_db" where
  "set_job i status body err completed now db =
     (case map_of (db_jobs db) i of None \<Rightarrow> db
      | Some j \<Rightarrow> db\<lparr>db_jobs := alist_put i (j\<lparr>job_status := status, job_response_json := body,
                 job_error_json := err, job_completed_at := completed, job_updated_at := now\<rparr>) (db_jobs db)\<rparr>)"

text \<open>\<open>finalizeAccounting\<close>: one transaction; the answer says whether this caller won.\<close>

definition finalize_accounting ::
  "goerror option \<Rightarrow> acct_record \<Rightarrow> request_log option \<Rightarrow> responses_job option \<Rightarrow> time \<Rightarrow> proxy_db
   \<Rightarrow> (goerror + bool) \<times> proxy_db" where
  "finalize_accounting fault r entry job now db =
     (case fault of Some e \<Rightarrow> (Inl e, db)
      | None \<Rightarrow>
        (let row = (case map_of (db_accounting db) (rec_id r) of Some row \<Rightarrow> row
               | None \<Rightarrow> \<lparr>row_key_id = rec_key_id r, row_request_id = rec_request_id r, row_state = ''pending'',
                          row_record = stored_copy r\<rparr>)
         in if row_state row \<noteq> ''pending'' then (Inr False, db)
            else
              let db1 = db\<lparr>db_accounting := alist_put (rec_id r)
                          (row\<lparr>row_state := ''final'', row_record := stored_copy r\<rparr>) (db_accounting db)\<rparr>;
                  db2 = (case entry of None \<Rightarrow> db1 | Some l \<Rightarrow> db1\<lparr>db_logs := db_logs db1 @ [l]\<rparr>);
                  db3 = (case job of None \<Rightarrow> db2
                         | Some j \<Rightarrow> set_job (job_id j) (job_status j) (job_response_json j) (job_error_json j)
                                       (job_completed_at j) now db2)
              in (Inr True, db3)))"

definition insert_request_log :: "goerror option \<Rightarrow> request_log \<Rightarrow> proxy_db \<Rightarrow> goerror option \<times> proxy_db" where
  "insert_request_log fault l db =
     (if fault \<noteq> None then (fault, db) else (None, db\<lparr>db_logs := db_logs db @ [l]\<rparr>))"

definition is_terminal_status :: "string \<Rightarrow> bool" where
  "is_terminal_status s \<longleftrightarrow> s \<in> {''completed'', ''failed'', ''cancelled'', ''incomplete''}"

text \<open>The job's id is the primary key: a second insert with it fails.\<close>

definition create_responses_job :: "goerror option \<Rightarrow> responses_job \<Rightarrow> proxy_db \<Rightarrow> goerror option \<times> proxy_db" where
  "create_responses_job fault j db =
     (if fault \<noteq> None then (fault, db)
      else if map_of (db_jobs db) (job_id j) \<noteq> None
      then (Some (PlainError (''creating responses job '' @ job_id j)), db)
      else (None, db\<lparr>db_jobs := alist_put (job_id j) j (db_jobs db)\<rparr>))"

definition get_responses_job :: "goerror option \<Rightarrow> string \<Rightarrow> proxy_db \<Rightarrow> goerror + responses_job option" where
  "get_responses_job fault i db = (case fault of Some e \<Rightarrow> Inl e | None \<Rightarrow> Inr (map_of (db_jobs db) i))"

definition update_responses_job ::
  "goerror option \<Rightarrow> string \<Rightarrow> string \<Rightarrow> string option \<Rightarrow> string option \<Rightarrow> time option \<Rightarrow> time \<Rightarrow> proxy_db
   \<Rightarrow> goerror option \<times> proxy_db" where
  "update_responses_job fault i status body err completed now db =
     (if fault \<noteq> None then (fault, db) else (None, set_job i status body err completed now db))"

definition list_pending_responses_jobs :: "proxy_db \<Rightarrow> responses_job list" where
  "list_pending_responses_jobs db =
     sort_key job_created_at (filter (\<lambda>j. \<not> is_terminal_status (job_status j)) (map snd (db_jobs db)))"

section \<open>The accounting of a call\<close>

record proxy_world =
  pw_db :: proxy_db
  pw_spend :: "spend_accumulator option"
  pw_router :: router

text \<open>Whether the handler has a store, and whether that store keeps accounting records.\<close>

datatype store_kind = NoStore | PlainStore | AcctStore

record log_params =
  prm_total_cost :: f64
  prm_cost_known :: bool
  prm_pool_name :: string
  prm_key_id :: "int option"
  prm_deployment :: deployment
  prm_endpoint :: string
  prm_usage :: "usage option"
  prm_status :: int
  prm_start :: time
  prm_is_streaming :: bool
  prm_request_id :: string
  prm_session_id :: string
  prm_ttft_ms :: "int option"
  prm_resp_snippet :: string
  prm_req_snippet :: "string option"

text \<open>\<open>ca_attempt\<close> is the attempt its context carries, \<open>ca_reconcile\<close> the reservation of the deferred finish.\<close>

record call_accounting =
  ca_reconcile :: "capacity_reservation option option"
  ca_collector :: collector
  ca_attempt :: "nat option"
  ca_store :: store_kind
  ca_inline :: bool
  ca_streaming :: bool
  ca_background :: bool
  ca_done :: bool
  ca_model :: string
  ca_endpoint :: string
  ca_session :: string
  ca_start :: time
  ca_deployment :: "deployment option"
  ca_log_params :: "log_params option"
  ca_err :: "goerror option"
  ca_record :: "acct_record option"

text \<open>The headers of \<open>setAccountingHeaders\<close> in the order they are set.\<close>

definition accounting_headers :: "golib \<Rightarrow> acct_record \<Rightarrow> (string \<times> string) list" where
  "accounting_headers lib r =
     [(''X-LLM-Accounting-ID'', rec_id r), (''X-LLM-Accounting-State'', rec_state r),
      (''X-LLM-Accounting-Coverage'', rec_coverage r)]
     @ (if rec_state r \<noteq> ''final'' then []
        else (case ac_amount (rec_cost r) of None \<Rightarrow> []
              | Some v \<Rightarrow> [(''X-LLM-Cost-USD'', v), (''X-LLM-Cost-Source'', ac_source (rec_cost r)),
                           (''x-litellm-response-cost'', v)])
           @ (case au_total (rec_usage r) of None \<Rightarrow> []
              | Some n \<Rightarrow> [(''x-litellm-total-tokens'', itoa lib n)]))"

definition start_accounting ::
  "golib \<Rightarrow> string \<Rightarrow> string \<Rightarrow> int option \<Rightarrow> store_kind \<Rightarrow> bool \<Rightarrow> bool \<Rightarrow> string \<Rightarrow> string \<Rightarrow> string \<Rightarrow> time
   \<Rightarrow> goerror option \<Rightarrow> proxy_db \<Rightarrow> call_accounting \<times> (string \<times> string) list \<times> proxy_db" where
  "start_accounting lib uuid request_id key store inl stream model_id endpoint session now fault db =
     (let c = new_collector uuid request_id key; pending = snapshot c False
      in (\<lparr>ca_reconcile = None, ca_collector = c, ca_attempt = None, ca_store = store, ca_inline = inl,
           ca_streaming = stream, ca_background = False, ca_done = False, ca_model = model_id,
           ca_endpoint = endpoint, ca_session = session, ca_start = now, ca_deployment = None,
           ca_log_params = None, ca_err = None, ca_record = None\<rparr>,
          accounting_headers lib pending,
          if store = AcctStore then snd (put_accounting fault pending db) else db))"

definition save_pending :: "goerror option \<Rightarrow> call_accounting \<Rightarrow> proxy_db \<Rightarrow> proxy_db" where
  "save_pending fault s db =
     (if ca_store s = AcctStore then snd (put_accounting fault (snapshot (ca_collector s) False) db) else db)"

text \<open>The hooks of \<open>options\<close>; a streaming call defers the reconciliation of its reservation.\<close>

definition before_attempt_hook ::
  "acct_lib \<Rightarrow> (acct_pricing \<Rightarrow> string) \<Rightarrow> cost_manager option \<Rightarrow> deployment \<Rightarrow> string \<Rightarrow> call_accounting \<Rightarrow> call_accounting" where
  "before_attempt_hook al digest cm d pname s =
     (let c = begin_attempt al digest (ca_collector s) (provider_name d) (model_name d) (actual_model d)
                (deployment_key d) pname (cost_policy d) cm
      in s\<lparr>ca_deployment := Some d, ca_collector := c, ca_attempt := Some (nat (col_current c))\<rparr>)"

definition end_current :: "call_accounting \<Rightarrow> goerror option \<Rightarrow> call_accounting" where
  "end_current s err =
     (case ca_attempt s of None \<Rightarrow> s
      | Some i \<Rightarrow> s\<lparr>ca_collector := on_attempt (ca_collector s) i (\<lambda>a. end_attempt a (err \<noteq> None))\<rparr>)"

definition observe_current :: "golib \<Rightarrow> call_accounting \<Rightarrow> usage option \<Rightarrow> call_accounting" where
  "observe_current lib s uo =
     (case (ca_attempt s, uo) of
        (Some i, Some u) \<Rightarrow> s\<lparr>ca_collector := on_attempt (ca_collector s) i (\<lambda>a. observe_usage lib a u)\<rparr>
      | _ \<Rightarrow> s)"

definition after_attempt_hook ::
  "golib \<Rightarrow> chat_response option \<Rightarrow> goerror option \<Rightarrow> goerror option \<Rightarrow> call_accounting \<times> proxy_db
   \<Rightarrow> call_accounting \<times> proxy_db" where
  "after_attempt_hook lib resp err fault x =
     (case x of (s, db) \<Rightarrow>
       (let s1 = (case resp of None \<Rightarrow> s | Some r \<Rightarrow> observe_current lib s (resp_usage r));
            s2 = (if err \<noteq> None \<or> \<not> ca_streaming s1 then end_current s1 err else s1)
        in (s2, save_pending fault s2 db)))"

text \<open>The hooks a run of Route calls, in the order of its events.\<close>

fun run_hooks ::
  "golib \<Rightarrow> acct_lib \<Rightarrow> (acct_pricing \<Rightarrow> string) \<Rightarrow> cost_manager option \<Rightarrow> (nat \<Rightarrow> goerror option) \<Rightarrow> route_event list
   \<Rightarrow> call_accounting \<times> proxy_db \<Rightarrow> call_accounting \<times> proxy_db" where
  "run_hooks lib al digest cm faults [] x = x"
| "run_hooks lib al digest cm faults (e # es) x =
     run_hooks lib al digest cm (\<lambda>n. faults (Suc n)) es
       (case e of
          BeforeAttempt d pname \<Rightarrow> (before_attempt_hook al digest cm d pname (fst x), snd x)
        | UpstreamCall d \<Rightarrow> x
        | AfterAttempt resp err \<Rightarrow> after_attempt_hook lib resp err (faults 0) x
        | DeferReconcile res \<Rightarrow> ((fst x)\<lparr>ca_reconcile := Some res\<rparr>, snd x))"

definition call_cost :: "golib \<Rightarrow> call_accounting \<Rightarrow> usage option \<Rightarrow> f64 \<times> call_accounting" where
  "call_cost lib s uo =
     (let s' = s\<lparr>ca_collector := collector_observe_usage lib (ca_collector s) uo\<rparr>
      in (acct_float (ac_amount (rec_cost (snapshot (ca_collector s') False))), s'))"

definition has_cost :: "call_accounting \<Rightarrow> bool" where
  "has_cost s =
     (case ca_record s of Some r \<Rightarrow> ac_amount (rec_cost r) \<noteq> None
      | None \<Rightarrow> ac_amount (rec_cost (snapshot (ca_collector s) False)) \<noteq> None)"

definition log_entry :: "call_accounting \<Rightarrow> acct_record \<Rightarrow> time \<Rightarrow> request_log option" where
  "log_entry s r now =
     map_option (\<lambda>l.
       let l1 = l\<lparr>lg_session_id := ca_session s, lg_is_streaming := ca_streaming s\<rparr>;
           l2 = (case ca_log_params s of None \<Rightarrow> l1
                 | Some p \<Rightarrow> l1\<lparr>lg_ttft_ms := prm_ttft_ms p, lg_req_snippet := prm_req_snippet p,
                     lg_resp_snippet := prm_resp_snippet p, lg_request_time := prm_start p,
                     lg_latency_ms := milliseconds (now - prm_start p)\<rparr>);
           l3 = (case ca_err s of None \<Rightarrow> l2
                 | Some e \<Rightarrow> l2\<lparr>lg_status_code := (case Option.bind (as_upstream e) http_status of
                       Some st \<Rightarrow> st | None \<Rightarrow> 502)\<rparr>);
           l4 = (case ca_deployment s of None \<Rightarrow> l3
                 | Some d \<Rightarrow> l3\<lparr>lg_provider := provider_name d, lg_deployment_key := deployment_key d\<rparr>)
       in l4\<lparr>lg_pool_name := at_pool (last (rec_attempts r))\<rparr>)
       (accounting_log r (ca_model s) (ca_endpoint s) (ca_start s) now)"

section \<open>Settling a call\<close>

text \<open>Each credit of a pool reads the date; \<open>today i\<close> is the \<open>i\<close>-th reading.\<close>

fun credit_pools :: "(nat \<Rightarrow> string) \<Rightarrow> acct_attempt list \<Rightarrow> budget_manager \<Rightarrow> budget_manager" where
  "credit_pools today [] b = b"
| "credit_pools today (a # as) b =
     (let v = acct_float (ac_amount (at_cost a))
      in if 0 < v \<and> at_pool a \<noteq> []
         then credit_pools (\<lambda>n. today (Suc n)) as (budget_credit b (at_pool a) v (today 0))
         else credit_pools today as b)"

definition credit_key :: "acct_record \<Rightarrow> spend_accumulator option \<Rightarrow> spend_accumulator option" where
  "credit_key r sa =
     (case (rec_key_id r, sa) of
        (Some k, Some t) \<Rightarrow> (let v = acct_float (ac_amount (rec_cost r)) in Some (if 0 < v then key_credit t k v else t))
      | _ \<Rightarrow> sa)"

definition credit_accounting :: "(nat \<Rightarrow> string) \<Rightarrow> acct_record \<Rightarrow> proxy_world \<Rightarrow> proxy_world" where
  "credit_accounting today r w =
     w\<lparr>pw_spend := credit_key r (pw_spend w),
       pw_router := (pw_router w)\<lparr>rt_budget := credit_pools today (rec_attempts r) (rt_budget (pw_router w))\<rparr>\<rparr>"

text \<open>What \<open>complete\<close> asks of the store: whether this caller won, and the database afterwards.\<close>

definition finalize_call ::
  "call_accounting \<Rightarrow> acct_record \<Rightarrow> goerror option \<Rightarrow> time \<Rightarrow> proxy_db \<Rightarrow> bool \<times> proxy_db" where
  "finalize_call s r fault now db =
     (let entry = log_entry s r now in
      case ca_store s of
        AcctStore \<Rightarrow> (case finalize_accounting fault r entry None now db of (res, db') \<Rightarrow> (res = Inr True, db'))
      | PlainStore \<Rightarrow> (case entry of None \<Rightarrow> (True, db)
           | Some l \<Rightarrow> (case insert_request_log fault l db of (e, db') \<Rightarrow> (e = None, db')))
      | NoStore \<Rightarrow> (True, db))"

definition reconcile_call :: "call_accounting \<Rightarrow> router \<Rightarrow> router" where
  "reconcile_call s r =
     (case ca_reconcile s of None \<Rightarrow> r
      | Some res \<Rightarrow> r\<lparr>rt_capacity := snd (finish (rt_capacity r) res (collector_current_usage (ca_collector s)))\<rparr>)"

definition complete_call ::
  "goerror option \<Rightarrow> time \<Rightarrow> (nat \<Rightarrow> string) \<Rightarrow> call_accounting \<times> proxy_world \<Rightarrow> call_accounting \<times> proxy_world" where
  "complete_call fault now today x =
     (case x of (s, w) \<Rightarrow>
       if ca_done s then (s, w)
       else
         let s1 = end_current (s\<lparr>ca_done := True\<rparr>) (ca_err s);
             r = snapshot (ca_collector s1) True;
             s2 = s1\<lparr>ca_record := Some r\<rparr>;
             w1 = w\<lparr>pw_router := reconcile_call s2 (pw_router w)\<rparr>;
             (won, db') = finalize_call s2 r fault now (pw_db w1);
             w2 = w1\<lparr>pw_db := db'\<rparr>
         in (s2, if won then credit_accounting today r w2 else w2))"

text \<open>The headers \<open>complete\<close> sets the first time it runs.\<close>

definition complete_headers :: "golib \<Rightarrow> call_accounting \<Rightarrow> (string \<times> string) list" where
  "complete_headers lib s =
     (if ca_done s \<or> ca_streaming s then []
      else accounting_headers lib (snapshot (ca_collector (end_current (s\<lparr>ca_done := True\<rparr>) (ca_err s))) True))"

definition close_call ::
  "goerror option \<Rightarrow> time \<Rightarrow> (nat \<Rightarrow> string) \<Rightarrow> call_accounting \<times> proxy_world \<Rightarrow> call_accounting \<times> proxy_world" where
  "close_call fault now today x =
     (if \<not> ca_done (fst x) \<and> \<not> ca_background (fst x) then complete_call fault now today x else x)"

definition inline_record ::
  "goerror option \<Rightarrow> time \<Rightarrow> (nat \<Rightarrow> string) \<Rightarrow> call_accounting \<times> proxy_world
   \<Rightarrow> acct_record option \<times> call_accounting \<times> proxy_world" where
  "inline_record fault now today x =
     (let y = complete_call fault now today x in (if ca_inline (fst y) then ca_record (fst y) else None, y))"

text \<open>What \<open>emitStream\<close> writes: the record as a chunk, or as an event of its own.\<close>

datatype accounting_output = AccountingChunk acct_record | AccountingEvent acct_record

definition emit_stream ::
  "bool \<Rightarrow> goerror option \<Rightarrow> time \<Rightarrow> (nat \<Rightarrow> string) \<Rightarrow> call_accounting \<times> proxy_world
   \<Rightarrow> accounting_output option \<times> call_accounting \<times> proxy_world" where
  "emit_stream as_event fault now today x =
     (let y = complete_call fault now today x
      in (if ca_inline (fst y)
          then map_option (if as_event then AccountingEvent else AccountingChunk) (ca_record (fst y)) else None, y))"

section \<open>Reading a record\<close>

definition accounting_detail ::
  "bool \<Rightarrow> bool option \<Rightarrow> cached_key option \<Rightarrow> store_kind \<Rightarrow> goerror option \<Rightarrow> string \<Rightarrow> proxy_db
   \<Rightarrow> goerror + acct_record" where
  "accounting_detail admin user_admin key store fault i db =
     (if store \<noteq> AcctStore then Inl (err_not_found ''accounting unavailable'')
      else if admin \<and> user_admin \<noteq> Some True then Inl (err_forbidden ''admin access required'')
      else case get_accounting fault i db of
             Inl e \<Rightarrow> Inl (err_internal ''failed to read accounting'')
           | Inr ro \<Rightarrow>
             (let visible = (case (ro, key) of
                  (Some r, Some k) \<Rightarrow> if \<not> admin \<and> rec_key_id r \<noteq> Some (key_id (ck_key k)) then None else ro
                | _ \<Rightarrow> ro)
              in case visible of None \<Rightarrow> Inl (err_not_found ''accounting not found'') | Some r \<Rightarrow> Inr r))"

section \<open>Background jobs\<close>

record responses_response =
  rs_id :: string
  rs_model :: string
  rs_status :: string
  rs_usage :: "usage option"
  rs_error :: "json option"

text \<open>The JSON of a response, of its error and of an upstream error.\<close>

record settle_lib =
  marshal_response :: "responses_response \<Rightarrow> string"
  marshal_error :: "json \<Rightarrow> string"
  marshal_api_error :: "goerror \<Rightarrow> string"

definition is_terminal :: "responses_response \<Rightarrow> bool" where
  "is_terminal r = is_terminal_status (rs_status r)"

definition responses_job_accessible :: "cached_key option \<Rightarrow> responses_job \<Rightarrow> bool" where
  "responses_job_accessible key j =
     (case key of None \<Rightarrow> True | Some k \<Rightarrow> job_key_id j = Some (key_id (ck_key k)))"

definition persist_responses_job ::
  "settle_lib \<Rightarrow> goerror option \<Rightarrow> responses_response \<Rightarrow> deployment \<Rightarrow> string \<Rightarrow> int option \<Rightarrow> string \<Rightarrow> string
   \<Rightarrow> string \<Rightarrow> time \<Rightarrow> proxy_db \<Rightarrow> goerror option \<times> proxy_db" where
  "persist_responses_job sl fault resp d pname key req_json session acct_id now db =
     (case create_responses_job fault \<lparr>job_accounting_id = acct_id, job_session_id = session, job_id = rs_id resp,
          job_key_id = key, job_deployment_key = deployment_key d, job_model_name = model_name d,
          job_pool_name = pname, job_status = rs_status resp, job_request_json = req_json,
          job_response_json = Some (marshal_response sl resp), job_error_json = None,
          job_created_at = now, job_updated_at = now, job_completed_at = None\<rparr> db of
        (None, db') \<Rightarrow> (None, db')
      | (Some e, db') \<Rightarrow> (Some (WrapError ''creating responses job: '' e), db'))"

text \<open>
  \<open>ResumeAccounting\<close>: no collector for a store without accounting or a job without a record, an error
  when the record cannot be read or has no attempt.
\<close>

definition resume_accounting ::
  "store_kind \<Rightarrow> goerror option \<Rightarrow> responses_job \<Rightarrow> proxy_db \<Rightarrow> goerror + collector option" where
  "resume_accounting store fault j db =
     (if store \<noteq> AcctStore \<or> job_accounting_id j = [] then Inr None
      else case get_accounting fault (job_accounting_id j) db of
             Inl e \<Rightarrow> Inl e
           | Inr None \<Rightarrow> Inl (PlainError ''background accounting record unavailable'')
           | Inr (Some r) \<Rightarrow>
               if rec_attempts r = [] then Inl (PlainError ''background accounting record unavailable'')
               else Inr (Some (restore_collector r)))"

text \<open>The record and the job a terminal response settles with.\<close>

definition finished_record :: "golib \<Rightarrow> responses_response \<Rightarrow> collector \<Rightarrow> acct_record" where
  "finished_record lib resp c =
     (let i = nat (col_current c);
          c1 = (case rs_usage resp of None \<Rightarrow> c | Some u \<Rightarrow> on_attempt c i (\<lambda>a. observe_usage lib a u))
      in snapshot (on_attempt c1 i (\<lambda>a. end_attempt a (rs_status resp \<noteq> ''completed''))) True)"

definition finished_log :: "responses_job \<Rightarrow> responses_response \<Rightarrow> acct_record \<Rightarrow> time \<Rightarrow> request_log option" where
  "finished_log j resp r now =
     map_option (\<lambda>l. let l1 = l\<lparr>lg_session_id := job_session_id j\<rparr>
                     in if rs_status resp \<noteq> ''completed'' then l1\<lparr>lg_status_code := 502\<rparr> else l1)
       (accounting_log r (job_model_name j) ''/v1/responses'' (job_created_at j) now)"

definition finished_job :: "settle_lib \<Rightarrow> responses_job \<Rightarrow> responses_response \<Rightarrow> time \<Rightarrow> responses_job" where
  "finished_job sl j resp now =
     (let j1 = j\<lparr>job_status := rs_status resp, job_response_json := Some (marshal_response sl resp),
                job_completed_at := Some now\<rparr>
      in case rs_error resp of None \<Rightarrow> j1 | Some e \<Rightarrow> j1\<lparr>job_error_json := Some (marshal_error sl e)\<rparr>)"

text \<open>\<open>FinishAccounting\<close>: \<open>None\<close> when it did not handle the job, else its error.\<close>

definition finish_accounting ::
  "golib \<Rightarrow> settle_lib \<Rightarrow> store_kind \<Rightarrow> goerror option \<Rightarrow> responses_job \<Rightarrow> responses_response \<Rightarrow> collector option
   \<Rightarrow> time \<Rightarrow> (nat \<Rightarrow> string) \<Rightarrow> proxy_world \<Rightarrow> goerror option option \<times> proxy_world" where
  "finish_accounting lib sl store fault j resp co now today w =
     (if store \<noteq> AcctStore then (None, w)
      else case co of None \<Rightarrow> (None, w)
      | Some c \<Rightarrow>
        (let r = finished_record lib resp c;
             (res, db') = finalize_accounting fault r (finished_log j resp r now)
                            (Some (finished_job sl j resp now)) now (pw_db w);
             w1 = w\<lparr>pw_db := db'\<rparr>
         in case res of
              Inl e \<Rightarrow> (Some (Some e), w1)
            | Inr won \<Rightarrow> (Some None, if won then credit_accounting today r w1 else w1)))"

subsection \<open>The polling worker\<close>

text \<open>What a poll of one job reads from outside: the provider's answer, faults of the statements, clock and dates.\<close>

record poll_env =
  pv_supports :: "deployment \<Rightarrow> bool"
  pv_response :: "string \<Rightarrow> goerror + responses_response"
  pv_read_fault :: "goerror option"
  pv_put_fault :: "goerror option"
  pv_final_fault :: "goerror option"
  pv_update_fault :: "goerror option"
  pv_log_fault :: "goerror option"
  pv_detail_fault :: "goerror option"
  pv_now :: time
  pv_today :: "nat \<Rightarrow> string"
  pv_rand :: nat

definition report_outcome :: "time \<Rightarrow> deployment \<Rightarrow> responses_response \<Rightarrow> proxy_world \<Rightarrow> proxy_world" where
  "report_outcome now d resp w =
     w\<lparr>pw_router := (if rs_status resp = ''completed'' then report_success (pw_router w) d
         else (pw_router w)\<lparr>rt_cooldown := cooldown_failure (rt_cooldown (pw_router w)) d now\<rparr>)\<rparr>"

text \<open>The cost of a usage at the model's price, in floating point: every sum and product rounds.\<close>

definition usage_cost :: "model_spec \<Rightarrow> usage \<Rightarrow> f64" where
  "usage_cost sp u =
     fadd (fadd (fadd (fmul (rnd64 (of_int (prompt_tokens u))) (spec_input_cost sp))
                      (fmul (rnd64 (of_int (completion_tokens u))) (spec_output_cost sp)))
                (fmul (rnd64 (of_int (cache_read_tokens u))) (spec_cache_read_cost sp)))
          (fmul (rnd64 (of_int (cache_write_tokens u))) (spec_cache_creation_cost sp))"

definition job_cost :: "cost_manager option \<Rightarrow> responses_job \<Rightarrow> deployment \<Rightarrow> usage \<Rightarrow> f64" where
  "job_cost cm j d u =
     (case cm of None \<Rightarrow> 0
      | Some m \<Rightarrow> usage_cost (es_spec (get_effective_spec m (job_model_name j) [actual_model d])) u)"

text \<open>\<open>logCompletion\<close>: the path of a job without an accounting record; it credits whether or not the log was written.\<close>

definition log_completion ::
  "poll_env \<Rightarrow> cost_manager option \<Rightarrow> store_kind \<Rightarrow> responses_job \<Rightarrow> deployment \<Rightarrow> responses_response
   \<Rightarrow> proxy_world \<Rightarrow> proxy_world" where
  "log_completion env cm store j d resp w =
     (case rs_usage resp of None \<Rightarrow> w
      | Some u \<Rightarrow>
        if store = NoStore then w
        else
          let cost = job_cost cm j d u;
              l = \<lparr>lg_accounting_id = [], lg_cost_source = [], lg_cost_known = None, lg_cost_coverage = [],
                   lg_usage_known = False, lg_request_id = ''responses-'' @ job_id j, lg_session_id = job_session_id j,
                   lg_key_id = job_key_id j, lg_model = job_model_name j, lg_provider = provider_name d,
                   lg_endpoint = ''/v1/responses'', lg_input_tokens = prompt_tokens u,
                   lg_output_tokens = completion_tokens u, lg_total_cost = cost,
                   lg_status_code = (if rs_status resp \<noteq> ''completed'' then 502 else 200),
                   lg_latency_ms = milliseconds (pv_now env - job_created_at j), lg_request_time = job_created_at j,
                   lg_is_streaming = False, lg_deployment_key = deployment_key d, lg_pool_name = job_pool_name j,
                   lg_ttft_ms = None, lg_req_snippet = None, lg_resp_snippet = [],
                   lg_cache_read = cache_read_tokens u, lg_cache_write = cache_write_tokens u\<rparr>;
              w1 = w\<lparr>pw_db := snd (insert_request_log (pv_log_fault env) l (pw_db w))\<rparr>;
              w2 = (case (job_key_id j, pw_spend w1) of
                      (Some k, Some t) \<Rightarrow> if 0 < cost then w1\<lparr>pw_spend := Some (key_credit t k cost)\<rparr> else w1
                    | _ \<Rightarrow> w1)
          in if job_pool_name j \<noteq> [] \<and> 0 < cost
             then w2\<lparr>pw_router := (pw_router w2)\<lparr>rt_budget :=
                    budget_credit (rt_budget (pw_router w2)) (job_pool_name j) cost (pv_today env 0)\<rparr>\<rparr>
             else w2)"

text \<open>A poll writes its answer in steps of its own; other requests run between the read and the write.\<close>

definition poll_store ::
  "golib \<Rightarrow> settle_lib \<Rightarrow> cost_manager option \<Rightarrow> store_kind \<Rightarrow> poll_env \<Rightarrow> responses_job \<Rightarrow> deployment
   \<Rightarrow> responses_response \<Rightarrow> collector option \<Rightarrow> proxy_world \<Rightarrow> proxy_world" where
  "poll_store lib sl cm store env j d resp co w =
     (let body = Some (marshal_response sl resp);
          err = map_option (marshal_error sl) (rs_error resp)
      in if \<not> is_terminal resp then
           (let (e, db1) = (case co of None \<Rightarrow> (None, pw_db w)
                  | Some c \<Rightarrow> if store = AcctStore then put_accounting (pv_put_fault env) (snapshot c False) (pw_db w)
                              else (None, pw_db w))
            in if e \<noteq> None then w\<lparr>pw_db := db1\<rparr>
               else w\<lparr>pw_db := snd (update_responses_job (pv_update_fault env) (job_id j) (rs_status resp) body err
                               None (pv_now env) db1)\<rparr>)
         else
           (case finish_accounting lib sl store (pv_final_fault env) j resp co (pv_now env) (pv_today env) w of
              (Some (Some e), w1) \<Rightarrow> w1
            | (Some None, w1) \<Rightarrow> report_outcome (pv_now env) d resp w1
            | (None, w1) \<Rightarrow>
                (case update_responses_job (pv_update_fault env) (job_id j) (rs_status resp) body err
                        (Some (pv_now env)) (pv_now env) (pw_db w1) of
                   (Some e, db2) \<Rightarrow> w1\<lparr>pw_db := db2\<rparr>
                 | (None, db2) \<Rightarrow> log_completion env cm store j d resp
                                    (report_outcome (pv_now env) d resp (w1\<lparr>pw_db := db2\<rparr>)))))"

definition poll_job ::
  "golib \<Rightarrow> settle_lib \<Rightarrow> cost_manager option \<Rightarrow> store_kind \<Rightarrow> poll_env \<Rightarrow> responses_job \<Rightarrow> proxy_world \<Rightarrow> proxy_world" where
  "poll_job lib sl cm store env j w =
     (case get_deployment_by_key (pw_router w) (job_model_name j) (job_deployment_key j) of
        Inl e \<Rightarrow> w
      | Inr d \<Rightarrow>
        if \<not> pv_supports env d then w
        else case resume_accounting store (pv_read_fault env) j (pw_db w) of
          Inl e \<Rightarrow> w
        | Inr co \<Rightarrow>
          (case pv_response env (job_id j) of
             Inl e \<Rightarrow> (case as_rate_limit e of
                 Some (l, retry_after) \<Rightarrow> w\<lparr>pw_router := (pw_router w)\<lparr>rt_backoff :=
                    report_rate_limit (rt_backoff (pw_router w)) (deployment_key d) retry_after (pv_rand env) (pv_now env)\<rparr>\<rparr>
               | None \<Rightarrow> w)
           | Inr resp \<Rightarrow> poll_store lib sl cm store env j d resp co w))"

text \<open>\<open>pollOnce\<close>: the pending jobs are listed once, then polled in that order.\<close>

fun poll_jobs ::
  "golib \<Rightarrow> settle_lib \<Rightarrow> cost_manager option \<Rightarrow> store_kind \<Rightarrow> (nat \<Rightarrow> poll_env) \<Rightarrow> responses_job list
   \<Rightarrow> proxy_world \<Rightarrow> proxy_world" where
  "poll_jobs lib sl cm store envs [] w = w"
| "poll_jobs lib sl cm store envs (j # js) w =
     poll_jobs lib sl cm store (\<lambda>n. envs (Suc n)) js (poll_job lib sl cm store (envs 0) j w)"

definition poll_once ::
  "golib \<Rightarrow> settle_lib \<Rightarrow> cost_manager option \<Rightarrow> store_kind \<Rightarrow> goerror option \<Rightarrow> (nat \<Rightarrow> poll_env) \<Rightarrow> proxy_world \<Rightarrow> proxy_world" where
  "poll_once lib sl cm store list_fault envs w =
     (if list_fault \<noteq> None then w
      else poll_jobs lib sl cm store envs (list_pending_responses_jobs (pw_db w)) w)"

subsection \<open>Reading and cancelling a job\<close>

text \<open>\<open>setJobAccounting\<close>: the job's record, when it can be read; its headers are \<open>accounting_headers\<close>.\<close>

definition job_record :: "store_kind \<Rightarrow> goerror option \<Rightarrow> responses_job \<Rightarrow> proxy_db \<Rightarrow> acct_record option" where
  "job_record store fault j db =
     (if store \<noteq> AcctStore \<or> job_accounting_id j = [] then None
      else case get_accounting fault (job_accounting_id j) db of Inl e \<Rightarrow> None | Inr ro \<Rightarrow> ro)"

datatype job_answer = StoredJob responses_job "acct_record option" | FreshResponse responses_response "acct_record option"

definition get_response_job ::
  "golib \<Rightarrow> store_kind \<Rightarrow> cached_key option \<Rightarrow> goerror option \<Rightarrow> goerror option \<Rightarrow> string \<Rightarrow> proxy_db \<Rightarrow> goerror + job_answer" where
  "get_response_job lib store key fault acct_fault i db =
     (let missing = Inl (err_not_found (''response not found: '' @ i)) in
      if store = NoStore then missing
      else case get_responses_job fault i db of
             Inl e \<Rightarrow> Inl (err_internal (''failed to look up response: '' @ error_text lib e))
           | Inr None \<Rightarrow> missing
           | Inr (Some j) \<Rightarrow> if \<not> responses_job_accessible key j then missing
                            else Inr (StoredJob j (job_record store acct_fault j db)))"

text \<open>\<open>CancelResponseJob\<close> once the provider has answered; \<open>co\<close> is the resumed collector.\<close>

definition cancel_store ::
  "golib \<Rightarrow> settle_lib \<Rightarrow> store_kind \<Rightarrow> poll_env \<Rightarrow> responses_job \<Rightarrow> responses_response \<Rightarrow> collector option
   \<Rightarrow> proxy_world \<Rightarrow> (goerror + job_answer) \<times> proxy_world" where
  "cancel_store lib sl store env j resp co w =
     (case (if is_terminal resp
            then finish_accounting lib sl store (pv_final_fault env) j resp co (pv_now env) (pv_today env) w
            else (None, w)) of
        (Some (Some e), w1) \<Rightarrow> (Inl (err_internal ''failed to finalize cancelled response''), w1)
      | (Some None, w1) \<Rightarrow> (Inr (FreshResponse resp (job_record store (pv_detail_fault env) j (pw_db w1))), w1)
      | (None, w1) \<Rightarrow>
        (let (e, db1) = (case co of None \<Rightarrow> (None, pw_db w1)
               | Some c \<Rightarrow> if store = AcctStore then put_accounting (pv_put_fault env) (snapshot c False) (pw_db w1)
                           else (None, pw_db w1))
         in if e \<noteq> None then (Inl (err_internal ''failed to save cancellation accounting''), w1\<lparr>pw_db := db1\<rparr>)
            else (Inr (FreshResponse resp None),
                  w1\<lparr>pw_db := snd (update_responses_job (pv_update_fault env) (job_id j) (rs_status resp)
                        (Some (marshal_response sl resp)) None
                        (if is_terminal resp then Some (pv_now env) else None) (pv_now env) db1)\<rparr>)))"

definition cancel_response_job ::
  "golib \<Rightarrow> settle_lib \<Rightarrow> store_kind \<Rightarrow> poll_env \<Rightarrow> goerror option \<Rightarrow> cached_key option \<Rightarrow> string
   \<Rightarrow> proxy_world \<Rightarrow> (goerror + job_answer) \<times> proxy_world" where
  "cancel_response_job lib sl store env job_fault key i w =
     (let missing = (Inl (err_not_found (''response not found: '' @ i)), w) in
      if store = NoStore then missing
      else case get_responses_job job_fault i (pw_db w) of
        Inl e \<Rightarrow> (Inl (err_internal (''failed to look up response: '' @ error_text lib e)), w)
      | Inr None \<Rightarrow> missing
      | Inr (Some j) \<Rightarrow>
        if \<not> responses_job_accessible key j then missing
        else if is_terminal_status (job_status j)
        then (Inr (StoredJob j (job_record store (pv_detail_fault env) j (pw_db w))), w)
        else case get_deployment_by_key (pw_router w) (job_model_name j) (job_deployment_key j) of
          Inl m \<Rightarrow> (Inl (err_internal (''cannot resolve deployment for cancellation: '' @ m)), w)
        | Inr d \<Rightarrow>
          if \<not> pv_supports env d then (Inl (err_bad_request ''model does not support the Responses API''), w)
          else case resume_accounting store (pv_read_fault env) j (pw_db w) of
            Inl e \<Rightarrow> (Inl (err_internal ''cannot resume accounting''), w)
          | Inr co \<Rightarrow>
            (case pv_response env i of
               Inl e \<Rightarrow> (Inl (err_provider_error lib (marshal_api_error sl) (provider_name d) e), w)
             | Inr resp \<Rightarrow> cancel_store lib sl store env j resp co w))"

end
