(* ===== verification/Settlement_Properties.thy ===== *)
theory Settlement_Properties
  imports Settlement
begin

text \<open>
  The settlement protocol as a step relation, the refinement of the code's settling operations to it, and
  what follows: every request is charged at most once, whatever runs at the same time.
\<close>

section \<open>The protocol\<close>

text \<open>
  A state has the world, the records whose finalization won but whose credit is still to come, and the
  records credited so far. Each constructor is one atomic step of some request or worker: a statement of the
  database, a credit in memory, or any other change of the router that leaves the budgets alone.
\<close>

type_synonym settle_state = "proxy_world \<times> acct_record list \<times> acct_record list"

inductive settle_step :: "settle_state \<Rightarrow> settle_state \<Rightarrow> bool" where
  put: "settle_step (w, won, cr) (w\<lparr>pw_db := snd (put_accounting f r (pw_db w))\<rparr>, won, cr)"
| update: "settle_step (w, won, cr) (w\<lparr>pw_db := snd (update_responses_job f i st b e c now (pw_db w))\<rparr>, won, cr)"
| finalize: "finalize_accounting f r entry job now (pw_db w) = (res, db) \<Longrightarrow>
    settle_step (w, won, cr) (w\<lparr>pw_db := db\<rparr>, if res = Inr True then r # won else won, cr)"
| credit: "r \<in> set won \<Longrightarrow>
    settle_step (w, won, cr) (credit_accounting today r w, remove1 r won, cr @ [r])"
| router: "rt_budget rt = rt_budget (pw_router w) \<Longrightarrow>
    settle_step (w, won, cr) (w\<lparr>pw_router := rt\<rparr>, won, cr)"

abbreviation settle_steps :: "settle_state \<Rightarrow> settle_state \<Rightarrow> bool" where
  "settle_steps \<equiv> settle_step\<^sup>*\<^sup>*"

inductive_cases settle_stepE: "settle_step (w, won, cr) s"

text \<open>The credits of a list of records, as entries of the ledger of keys.\<close>

definition key_charge :: "acct_record \<Rightarrow> (int \<times> f64) list" where
  "key_charge r =
     (case rec_key_id r of None \<Rightarrow> []
      | Some k \<Rightarrow> (let v = acct_float (ac_amount (rec_cost r)) in if 0 < v then [(k, v)] else []))"

definition key_charges :: "acct_record list \<Rightarrow> (int \<times> f64) list" where
  "key_charges rs = concat (map key_charge rs)"

abbreviation key_credits :: "spend_accumulator \<Rightarrow> (int \<times> f64) list \<Rightarrow> spend_accumulator" where
  "key_credits sa cs \<equiv> foldl (\<lambda>l (k, c). key_credit l k c) sa cs"

definition settled_row :: "proxy_db \<Rightarrow> acct_record \<Rightarrow> bool" where
  "settled_row db r =
     (case map_of (db_accounting db) (rec_id r) of None \<Rightarrow> False
      | Some row \<Rightarrow> row_state row = ''final'' \<and> row_record row = stored_copy r)"

definition settle_inv :: "proxy_world \<Rightarrow> settle_state \<Rightarrow> bool" where
  "settle_inv w0 s =
     (case s of (w, won, cr) \<Rightarrow>
        distinct (map rec_id (cr @ won)) \<and> (\<forall>r \<in> set (cr @ won). settled_row (pw_db w) r)
        \<and> pw_spend w = map_option (\<lambda>t. key_credits t (key_charges cr)) (pw_spend w0))"

section \<open>Lemmas\<close>

lemma credit_key_charge: "credit_key r sa = map_option (\<lambda>t. key_credits t (key_charge r)) sa"
  by (cases "rec_key_id r"; cases sa) (simp_all add: credit_key_def key_charge_def Let_def)

lemma credit_accounting_fields [simp]:
  "pw_db (credit_accounting today r w) = pw_db w"
  "pw_spend (credit_accounting today r w) = credit_key r (pw_spend w)"
  by (simp_all add: credit_accounting_def)

lemma set_job_accounting [simp]: "db_accounting (set_job i st b e c now db) = db_accounting db"
  by (simp add: set_job_def split: option.splits)

lemma update_job_accounting [simp]:
  "db_accounting (snd (update_responses_job f i st b e c now db)) = db_accounting db"
  by (simp add: update_responses_job_def)

lemma put_keeps_settled: "settled_row db r \<Longrightarrow> settled_row (snd (put_accounting f r' db)) r"
  by (auto simp: put_accounting_def settled_row_def split: option.splits if_splits)

lemma finalize_cases:
  assumes "finalize_accounting f r entry job now db = (res, db')"
  shows "(res \<noteq> Inr True \<and> db' = db)
    \<or> (res = Inr True \<and> (\<forall>row. map_of (db_accounting db) (rec_id r) = Some row \<longrightarrow> row_state row = ''pending'')
        \<and> settled_row db' r \<and> (\<forall>i. i \<noteq> rec_id r \<longrightarrow> map_of (db_accounting db') i = map_of (db_accounting db) i))"
  using assms
  by (auto simp: finalize_accounting_def settled_row_def Let_def split: option.splits if_splits)

lemma finalize_keeps_settled:
  assumes "finalize_accounting f r entry job now db = (res, db')" "settled_row db x"
  shows "settled_row db' x"
proof (cases "db' = db")
  case True
  then show ?thesis using assms(2) by simp
next
  case False
  then have "rec_id x \<noteq> rec_id r" "map_of (db_accounting db') (rec_id x) = map_of (db_accounting db) (rec_id x)
      \<or> rec_id x = rec_id r"
    using finalize_cases [OF assms(1)] assms(2) by (auto simp: settled_row_def split: option.splits)
  then show ?thesis using assms(2) by (simp add: settled_row_def)
qed

lemma finalize_wins_fresh:
  assumes "finalize_accounting f r entry job now db = (Inr True, db')" "settled_row db x"
  shows "rec_id x \<noteq> rec_id r"
  using finalize_cases [OF assms(1)] assms(2) by (auto simp: settled_row_def split: option.splits)

lemma settle_inv_step:
  assumes "settle_step s s'" "settle_inv w0 s"
  shows "settle_inv w0 s'"
  using assms
proof (induction rule: settle_step.induct)
  case (finalize f r entry job now w res db won cr)
  note keep = finalize_keeps_settled [OF finalize.hyps]
  show ?case
  proof (cases "res = Inr True")
    case True
    then have "settled_row db r" "\<forall>x \<in> set (cr @ won). rec_id x \<noteq> rec_id r"
      using finalize_cases [OF finalize.hyps] finalize_wins_fresh [of f r entry job now "pw_db w" db]
        finalize.hyps finalize.prems by (auto simp: settle_inv_def)
    then show ?thesis using finalize.prems keep True by (auto simp: settle_inv_def)
  next
    case False
    then show ?thesis using finalize.prems keep by (auto simp: settle_inv_def)
  qed
next
  case (credit r won w cr today)
  have "distinct (map rec_id ((cr @ [r]) @ remove1 r won))" "set ((cr @ [r]) @ remove1 r won) = set (cr @ won)"
    using credit
    by (auto simp: settle_inv_def distinct_map distinct_remove1 dest: inj_onD intro: inj_on_diff)
  then show ?case
    using credit.prems
    by (auto simp: settle_inv_def credit_key_charge key_charges_def option.map_comp o_def)
qed (auto simp: settle_inv_def put_keeps_settled, auto simp: settled_row_def)

lemma settle_inv_steps: "settle_steps s s' \<Longrightarrow> settle_inv w0 s \<Longrightarrow> settle_inv w0 s'"
  by (induction rule: rtranclp_induct) (auto intro: settle_inv_step)

section \<open>The code settles by the protocol\<close>

text \<open>
  \<open>settles w w'\<close>: steps of the protocol lead from \<open>w\<close> to \<open>w'\<close>, whatever others have won and credited, and
  leave nothing of their own to credit.
\<close>

definition settles :: "proxy_world \<Rightarrow> proxy_world \<Rightarrow> bool" where
  "settles w w' \<longleftrightarrow> (\<forall>won cr. \<exists>cr'. settle_steps (w, won, cr) (w', won, cr @ cr'))"

named_theorems settle_intros

lemma settles_refl [simp, settle_intros]: "settles w w"
  unfolding settles_def by (metis append_Nil2 rtranclp.rtrancl_refl)

lemma settles_trans:
  assumes "settles w w'" "settles w' w''"
  shows "settles w w''"
  unfolding settles_def
proof (intro allI)
  fix won cr
  obtain cr1 where 1: "settle_steps (w, won, cr) (w', won, cr @ cr1)"
    using assms(1) unfolding settles_def by blast
  obtain cr2 where 2: "settle_steps (w', won, cr @ cr1) (w'', won, (cr @ cr1) @ cr2)"
    using assms(2) unfolding settles_def by blast
  show "\<exists>cr'. settle_steps (w, won, cr) (w'', won, cr @ cr')"
    using rtranclp_trans [OF 1 2] by (intro exI [of _ "cr1 @ cr2"]) simp
qed

lemma settles_step: "(\<And>won cr. settle_step (w, won, cr) (w', won, cr)) \<Longrightarrow> settles w w'"
  unfolding settles_def by (metis append_Nil2 r_into_rtranclp)

lemma settles_put [settle_intros]: "settles w (w\<lparr>pw_db := snd (put_accounting f r (pw_db w))\<rparr>)"
  by (rule settles_step) (rule settle_step.put)

lemma settles_update [settle_intros]:
  "settles w (w\<lparr>pw_db := snd (update_responses_job f i st b e c now (pw_db w))\<rparr>)"
  by (rule settles_step) (rule settle_step.update)

lemma settles_router [settle_intros]: "rt_budget rt = rt_budget (pw_router w) \<Longrightarrow> settles w (w\<lparr>pw_router := rt\<rparr>)"
  by (rule settles_step) (rule settle_step.router)

lemma settles_finalize:
  assumes "finalize_accounting f r entry job now (pw_db w) = (res, db)"
  shows "settles w (if res = Inr True then credit_accounting today r (w\<lparr>pw_db := db\<rparr>) else w\<lparr>pw_db := db\<rparr>)"
proof (cases "res = Inr True")
  case True
  have "settle_steps (w, won, cr) (credit_accounting today r (w\<lparr>pw_db := db\<rparr>), won, cr @ [r])" for won cr
  proof -
    have "settle_step (w, won, cr) (w\<lparr>pw_db := db\<rparr>, r # won, cr)"
      using settle_step.finalize [OF assms, of won cr] True by simp
    moreover have "settle_step (w\<lparr>pw_db := db\<rparr>, r # won, cr) (credit_accounting today r (w\<lparr>pw_db := db\<rparr>), won, cr @ [r])"
      using settle_step.credit [of r "r # won" "w\<lparr>pw_db := db\<rparr>" cr today] by simp
    ultimately show ?thesis by (meson r_into_rtranclp rtranclp.rtrancl_into_rtrancl)
  qed
  then show ?thesis using True unfolding settles_def by auto
next
  case False
  then show ?thesis using settle_step.finalize [OF assms] by (intro settles_step) simp
qed

lemma reconcile_call_budget [simp]: "rt_budget (reconcile_call s r) = rt_budget r"
  by (simp add: reconcile_call_def split: option.splits)

lemma settles_complete:
  assumes "ca_store s = AcctStore"
  shows "settles w (snd (complete_call f now today (s, w)))"
proof (cases "ca_done s")
  case True
  then show ?thesis by (simp add: complete_call_def)
next
  case False
  let ?s1 = "end_current (s\<lparr>ca_done := True\<rparr>) (ca_err s)"
  let ?r = "snapshot (ca_collector ?s1) True"
  let ?s2 = "?s1\<lparr>ca_record := Some ?r\<rparr>"
  let ?w1 = "w\<lparr>pw_router := reconcile_call ?s2 (pw_router w)\<rparr>"
  obtain res db where fin: "finalize_accounting f ?r (log_entry ?s2 ?r now) None now (pw_db ?w1) = (res, db)"
    by (metis surj_pair)
  have store: "ca_store ?s2 = AcctStore" using assms by (simp add: end_current_def split: option.splits)
  have "settles w ?w1" by (rule settles_router) simp
  moreover have "settles ?w1 (if res = Inr True then credit_accounting today ?r (?w1\<lparr>pw_db := db\<rparr>) else ?w1\<lparr>pw_db := db\<rparr>)"
    by (rule settles_finalize [OF fin])
  moreover have "snd (complete_call f now today (s, w))
      = (if res = Inr True then credit_accounting today ?r (?w1\<lparr>pw_db := db\<rparr>) else ?w1\<lparr>pw_db := db\<rparr>)"
    using False store fin by (simp add: complete_call_def Let_def finalize_call_def)
  ultimately show ?thesis by (simp only: settles_trans)
qed

lemma settles_finish: "settles w (snd (finish_accounting lib sl AcctStore f j resp (Some c) now today w))"
proof -
  let ?r = "finished_record lib resp c"
  obtain res db where fin: "finalize_accounting f ?r (finished_log j resp ?r now) (Some (finished_job sl j resp now)) now
      (pw_db w) = (res, db)" by (metis surj_pair)
  have "snd (finish_accounting lib sl AcctStore f j resp (Some c) now today w)
      = (if res = Inr True then credit_accounting today ?r (w\<lparr>pw_db := db\<rparr>) else w\<lparr>pw_db := db\<rparr>)"
    using fin by (cases res) (simp_all add: finish_accounting_def Let_def)
  then show ?thesis using settles_finalize [OF fin, of today] by simp
qed

lemma finish_handled:
  "\<exists>e. fst (finish_accounting lib sl AcctStore f j resp (Some c) now today w) = Some e"
  by (simp add: finish_accounting_def Let_def split: prod.splits sum.splits)

lemma report_outcome_budget [simp]: "rt_budget (pw_router (report_outcome now d resp w)) = rt_budget (pw_router w)"
  by (simp add: report_outcome_def report_success_def)

lemma settles_outcome [settle_intros]: "settles w (report_outcome now d resp w)"
  unfolding report_outcome_def by (rule settles_router) (simp add: report_success_def)

lemma settles_put_update:
  "settles w (let (e, db1) = put_accounting f r (pw_db w)
              in if e \<noteq> None then w\<lparr>pw_db := db1\<rparr>
                 else w\<lparr>pw_db := snd (update_responses_job g i st b er c now db1)\<rparr>)"
proof -
  obtain e db1 where p: "put_accounting f r (pw_db w) = (e, db1)" by (metis surj_pair)
  have "settles w (w\<lparr>pw_db := db1\<rparr>)" using settles_put [of w f r] p by simp
  moreover have "settles (w\<lparr>pw_db := db1\<rparr>) (w\<lparr>pw_db := snd (update_responses_job g i st b er c now db1)\<rparr>)"
    using settles_update [of "w\<lparr>pw_db := db1\<rparr>" g i st b er c now] by simp
  ultimately show ?thesis using p by (simp add: settles_trans)
qed

lemma settles_poll: "settles w (poll_store lib sl cm AcctStore env j d resp (Some c) w)"
proof (cases "is_terminal resp")
  case True
  obtain e w1 where fin: "finish_accounting lib sl AcctStore (pv_final_fault env) j resp (Some c) (pv_now env)
      (pv_today env) w = (Some e, w1)"
    using finish_handled [of lib sl "pv_final_fault env" j resp c "pv_now env" "pv_today env" w] by (metis surjective_pairing)
  have "settles w w1" using settles_finish [of w lib sl "pv_final_fault env" j resp c "pv_now env" "pv_today env"] fin by simp
  then show ?thesis
    using True fin settles_trans [OF _ settles_outcome] by (cases e) (simp_all add: poll_store_def)
next
  case False
  then show ?thesis using settles_put_update by (simp add: poll_store_def Let_def)
qed

lemma settles_cancel: "settles w (snd (cancel_store lib sl AcctStore env j resp (Some c) w))"
proof (cases "is_terminal resp")
  case True
  obtain e w1 where fin: "finish_accounting lib sl AcctStore (pv_final_fault env) j resp (Some c) (pv_now env)
      (pv_today env) w = (Some e, w1)"
    using finish_handled [of lib sl "pv_final_fault env" j resp c "pv_now env" "pv_today env" w] by (metis surjective_pairing)
  have "settles w w1" using settles_finish [of w lib sl "pv_final_fault env" j resp c "pv_now env" "pv_today env"] fin by simp
  then show ?thesis using True fin by (cases e) (simp_all add: cancel_store_def)
next
  case False
  then have "snd (cancel_store lib sl AcctStore env j resp (Some c) w)
      = (let (e, db1) = put_accounting (pv_put_fault env) (snapshot c False) (pw_db w)
         in if e \<noteq> None then w\<lparr>pw_db := db1\<rparr>
            else w\<lparr>pw_db := snd (update_responses_job (pv_update_fault env) (job_id j) (rs_status resp)
                  (Some (marshal_response sl resp)) None None (pv_now env) db1)\<rparr>)"
    by (simp add: cancel_store_def Let_def split: prod.splits)
  then show ?thesis using settles_put_update by simp
qed

section \<open>A job under a race\<close>

definition no_faults :: "poll_env \<Rightarrow> bool" where
  "no_faults env \<longleftrightarrow> pv_put_fault env = None \<and> pv_final_fault env = None \<and> pv_update_fault env = None"

text \<open>The identity and the state of a collector's record survive every operation of a settlement.\<close>

lemma on_attempt_id [simp]: "rec_id (col_record (on_attempt c i f)) = rec_id (col_record c)"
  by (simp add: on_attempt_def)

lemma snapshot_id [simp]: "rec_id (snapshot c final) = rec_id (col_record c)"
  by (simp add: snapshot_def Let_def)

lemma finished_record_id [simp]: "rec_id (finished_record lib resp c) = rec_id (col_record c)"
  by (simp add: finished_record_def Let_def split: option.splits)

definition pending_row :: "proxy_db \<Rightarrow> string \<Rightarrow> bool" where
  "pending_row db i = (case map_of (db_accounting db) i of None \<Rightarrow> True | Some row \<Rightarrow> row_state row = ''pending'')"

definition final_row :: "proxy_db \<Rightarrow> string \<Rightarrow> bool" where
  "final_row db i = (case map_of (db_accounting db) i of None \<Rightarrow> False | Some row \<Rightarrow> row_state row = ''final'')"

lemma put_final: "final_row db (rec_id r) \<Longrightarrow> put_accounting None r db = (None, db)"
  by (auto simp: put_accounting_def final_row_def split: option.splits)

lemma finalize_pending:
  assumes "pending_row db (rec_id r)"
  shows "\<exists>db'. finalize_accounting None r entry job now db = (Inr True, db') \<and> final_row db' (rec_id r)
    \<and> db_jobs db' = (case job of None \<Rightarrow> db_jobs db
        | Some j \<Rightarrow> db_jobs (set_job (job_id j) (job_status j) (job_response_json j) (job_error_json j)
                               (job_completed_at j) now db))"
  using assms
  by (auto simp: finalize_accounting_def pending_row_def final_row_def Let_def set_job_def split: option.splits)

lemma finalize_final: "final_row db (rec_id r) \<Longrightarrow> finalize_accounting None r entry job now db = (Inr False, db)"
  by (auto simp: finalize_accounting_def final_row_def Let_def split: option.splits)

lemma set_job_status:
  "map_of (db_jobs db) i \<noteq> None \<Longrightarrow>
   map_option job_status (map_of (db_jobs (set_job i st b e c now db)) i) = Some st"
  by (auto simp: set_job_def)

lemma credit_accounting_cooldown [simp]: "rt_cooldown (pw_router (credit_accounting today r w)) = rt_cooldown (pw_router w)"
  by (simp add: credit_accounting_def)

text \<open>A cancellation that settles the job.\<close>

lemma cancel_settles:
  fixes lib :: golib and sl :: settle_lib
  assumes "no_faults env" "is_terminal fin" "pending_row (pw_db w) (rec_id (col_record c))"
    "map_of (db_jobs (pw_db w)) (job_id j) \<noteq> None"
  defines "w1 \<equiv> snd (cancel_store lib sl AcctStore env j fin (Some c) w)"
  shows "final_row (pw_db w1) (rec_id (col_record c))
    \<and> map_option job_status (map_of (db_jobs (pw_db w1)) (job_id j)) = Some (rs_status fin)"
proof -
  let ?r = "finished_record lib fin c" and ?j = "finished_job sl j fin (pv_now env)"
  obtain db' where fin: "finalize_accounting None ?r (finished_log j fin ?r (pv_now env)) (Some ?j) (pv_now env) (pw_db w)
      = (Inr True, db')" "final_row db' (rec_id (col_record c))"
    "db_jobs db' = db_jobs (set_job (job_id ?j) (job_status ?j) (job_response_json ?j) (job_error_json ?j)
        (job_completed_at ?j) (pv_now env) (pw_db w))"
    using finalize_pending [of "pw_db w" ?r] assms(3) by fastforce
  have "pw_db w1 = db'"
    using fin(1) assms(1,2) unfolding w1_def by (simp add: cancel_store_def finish_accounting_def Let_def no_faults_def)
  moreover have "job_id ?j = job_id j" "job_status ?j = rs_status fin"
    by (simp_all add: finished_job_def Let_def split: option.splits)
  ultimately show ?thesis using fin(2,3) set_job_status assms(4) by metis
qed

text \<open>A poll whose answer is older than the settlement writes its status over the settled one.\<close>

lemma stale_poll_overwrites:
  fixes lib :: golib and sl :: settle_lib and cm :: "cost_manager option" and d :: deployment
  assumes "no_faults env" "\<not> is_terminal resp" "final_row (pw_db w) (rec_id (col_record c))"
    "map_of (db_jobs (pw_db w)) (job_id j) \<noteq> None"
  defines "w1 \<equiv> poll_store lib sl cm AcctStore env j d resp (Some c) w"
  shows "final_row (pw_db w1) (rec_id (col_record c))
    \<and> map_option job_status (map_of (db_jobs (pw_db w1)) (job_id j)) = Some (rs_status resp)"
proof -
  have "put_accounting None (snapshot c False) (pw_db w) = (None, pw_db w)" using assms(3) by (simp add: put_final)
  then have "pw_db w1 = set_job (job_id j) (rs_status resp) (Some (marshal_response sl resp))
      (map_option (marshal_error sl) (rs_error resp)) None (pv_now env) (pw_db w)"
    using assms(1,2) unfolding w1_def
    by (simp add: poll_store_def no_faults_def Let_def update_responses_job_def)
  then show ?thesis using assms(3,4) set_job_status by (simp add: final_row_def)
qed

text \<open>A poll of a job whose record is already final settles nothing: it only reports to the router.\<close>

lemma poll_of_settled:
  assumes "no_faults env" "is_terminal resp" "final_row (pw_db w) (rec_id (col_record c))"
  shows "poll_store lib sl cm AcctStore env j d resp (Some c) w = report_outcome (pv_now env) d resp w"
proof -
  have "finalize_accounting None (finished_record lib resp c) entry job now (pw_db w) = (Inr False, pw_db w)" for entry job now
    using assms(3) by (simp add: finalize_final)
  then show ?thesis using assms(1,2) by (simp add: poll_store_def finish_accounting_def no_faults_def Let_def)
qed

lemma report_outcome_db [simp]: "pw_db (report_outcome now d resp w) = pw_db w"
  by (simp add: report_outcome_def)

section \<open>Properties\<close>

text \<open>
  C14. A request is charged at most once. Whatever handlers, polls, cancellations and retries run against one
  database, and in whatever order their statements and credits interleave: no two records of one accounting id
  win, every record that won is the one the final row holds, and the spend of a key is its spend before plus
  exactly the positive amounts of the credited records of that key.
\<close>

theorem settlement_charges_once:
  assumes "settle_steps (w0, [], []) (w, won, credited)"
  shows "distinct (map rec_id (credited @ won)) \<and> list_all (settled_row (pw_db w)) (credited @ won)
    \<and> map_option (\<lambda>t. key_spend t k) (pw_spend w)
        = map_option (\<lambda>t. fsum (key_spend t k) (credits_of k (key_charges credited))) (pw_spend w0)"
proof -
  have "settle_inv w0 (w0, [], [])" by (simp add: settle_inv_def key_charges_def option.map_ident)
  then have "settle_inv w0 (w, won, credited)" using settle_inv_steps [OF assms] by blast
  then show ?thesis
    by (simp add: settle_inv_def list_all_iff option.map_comp o_def key_ledger.spent_after)
qed

definition sample_record :: acct_record where
  "sample_record = (snapshot sample_collector True)\<lparr>rec_key_id := Some 7\<rparr>"

definition sample_world :: proxy_world where
  "sample_world = \<lparr>pw_db = \<lparr>db_accounting = [], db_logs = [], db_jobs = []\<rparr>, pw_spend = Some [],
     pw_router = \<lparr>rt_deployments = [], rt_strategy = 0, rt_strategies = (\<lambda>_. Shuffle),
       rt_cooldown = new_cooldown_manager 0 0, rt_backoff = new_backoff_manager,
       rt_settings = cfg_router sample_cfg, rt_pools = [], rt_model_to_pool = Map.empty,
       rt_sticky = new_sticky_session_manager False, rt_capacity = Map.empty, rt_budget = new_pool_budget_manager\<rparr>\<rparr>"

definition sample_settled :: proxy_world where
  "sample_settled = credit_accounting (\<lambda>_. ''2025-01-01'') sample_record
     (sample_world\<lparr>pw_db := snd (finalize_accounting None sample_record None None 0 (pw_db sample_world))\<rparr>)"

lemma sample_wins: "fst (finalize_accounting None sample_record None None 0 (pw_db sample_world)) = Inr True"
  by (simp add: finalize_accounting_def sample_world_def Let_def)

lemma sample_run: "settle_steps (sample_world, [], []) (sample_settled, [], [sample_record])"
proof -
  let ?db = "snd (finalize_accounting None sample_record None None 0 (pw_db sample_world))"
  have "settle_step (sample_world, [], []) (sample_world\<lparr>pw_db := ?db\<rparr>, [sample_record], [])"
    using settle_step.finalize [of None sample_record None None 0 sample_world "Inr True" ?db "[]" "[]"] sample_wins
    by (simp add: prod_eq_iff)
  moreover have "settle_step (sample_world\<lparr>pw_db := ?db\<rparr>, [sample_record], []) (sample_settled, [], [sample_record])"
    using settle_step.credit [of sample_record "[sample_record]" "sample_world\<lparr>pw_db := ?db\<rparr>" "[]"]
    by (simp add: sample_settled_def)
  ultimately show ?thesis by (meson r_into_rtranclp rtranclp.rtrancl_into_rtrancl)
qed

theorem settlement_charges_once_witness:
  "distinct (map rec_id ([sample_record] @ [])) \<and> list_all (settled_row (pw_db sample_settled)) ([sample_record] @ [])
    \<and> map_option (\<lambda>t. key_spend t 7) (pw_spend sample_settled)
        = map_option (\<lambda>t. fsum (key_spend t 7) (credits_of 7 (key_charges [sample_record]))) (pw_spend sample_world)"
  by (rule settlement_charges_once [OF sample_run])

text \<open>
  C15. The code settles by that protocol. With an accounting store, completing a call, saving its pending
  record, storing the answer of a poll and storing a cancellation, with any fault of any statement, are runs
  of the protocol that credit exactly what they won, whatever others have won in the meantime.
\<close>

theorem settlement_refines_protocol:
  "settles w (snd (complete_call fault now today (s\<lparr>ca_store := AcctStore\<rparr>, w)))
   \<and> settles w (w\<lparr>pw_db := save_pending fault s (pw_db w)\<rparr>)
   \<and> settles w (poll_store lib sl cm AcctStore env j d resp (Some c) w)
   \<and> settles w (snd (cancel_store lib sl AcctStore env j resp (Some c) w))"
  using settles_put [of w fault "snapshot (ca_collector s) False"]
  by (simp add: settles_complete settles_poll settles_cancel save_pending_def)

text \<open>
  C16. A stale poll revives a settled job for ever. A poll reads its answer, then the job is cancelled and settled,
  then the poll stores the older, unfinished status over the settled one: \<open>UpdateResponsesJob\<close> has no guard.
  (Later polls resume their own collector \<open>c2\<close> from the same record.)
  From then on the job is pending again, and every later poll that sees the terminal answer leaves it pending, since
  the accounting record is already final, and reports the outcome to the router: a failure of the deployment
  each time when the job was not completed.
\<close>

theorem stale_poll_revives_job:
  assumes "no_faults env" "is_terminal fin" "\<not> is_terminal stale"
    "pending_row (pw_db w) (rec_id (col_record c))" "map_of (db_jobs (pw_db w)) (job_id j) \<noteq> None"
    "rec_id (col_record c2) = rec_id (col_record c)"
  shows "let w1 = snd (cancel_store lib sl AcctStore env j fin (Some c) w);
             w2 = poll_store lib sl cm AcctStore env j d stale (Some c) w1;
             wn = ((\<lambda>w. poll_store lib sl cm AcctStore env j d fin (Some c2) w) ^^ n) w2
         in map_option job_status (map_of (db_jobs (pw_db w1)) (job_id j)) = Some (rs_status fin)
            \<and> map_option job_status (map_of (db_jobs (pw_db wn)) (job_id j)) = Some (rs_status stale)
            \<and> wn = (report_outcome (pv_now env) d fin ^^ n) w2"
proof -
  define w1 where "w1 = snd (cancel_store lib sl AcctStore env j fin (Some c) w)"
  define w2 where "w2 = poll_store lib sl cm AcctStore env j d stale (Some c) w1"
  have 1: "final_row (pw_db w1) (rec_id (col_record c))"
    "map_option job_status (map_of (db_jobs (pw_db w1)) (job_id j)) = Some (rs_status fin)"
    using cancel_settles [OF assms(1,2,4,5)] unfolding w1_def by blast+
  have 2: "final_row (pw_db w2) (rec_id (col_record c))"
    "map_option job_status (map_of (db_jobs (pw_db w2)) (job_id j)) = Some (rs_status stale)"
    using stale_poll_overwrites [OF assms(1,3) 1(1)] 1(2) unfolding w2_def by fastforce+
  have "((\<lambda>w. poll_store lib sl cm AcctStore env j d fin (Some c2) w) ^^ n) w2
        = (report_outcome (pv_now env) d fin ^^ n) w2
      \<and> pw_db ((report_outcome (pv_now env) d fin ^^ n) w2) = pw_db w2"
    using poll_of_settled [OF assms(1,2), of _ c2] assms(6) 2(1) by (induction n) simp_all
  then show ?thesis using 1(2) 2(2) by (simp add: w1_def w2_def Let_def)
qed

definition sample_env :: poll_env where
  "sample_env = \<lparr>pv_supports = (\<lambda>_. True), pv_response = (\<lambda>_. Inl (PlainError [])), pv_read_fault = None,
     pv_put_fault = None, pv_final_fault = None, pv_update_fault = None, pv_log_fault = None,
     pv_detail_fault = None, pv_now = 0, pv_today = (\<lambda>_. ''2025-01-01''), pv_rand = 0\<rparr>"

definition sample_job :: responses_job where
  "sample_job = \<lparr>job_accounting_id = ''acct_'', job_session_id = [], job_id = ''resp_1'', job_key_id = Some 7,
     job_deployment_key = ''openai:gpt:'', job_model_name = ''gpt'', job_pool_name = [], job_status = ''queued'',
     job_request_json = [], job_response_json = None, job_error_json = None, job_created_at = 0,
     job_updated_at = 0, job_completed_at = None\<rparr>"

definition sample_response :: "string \<Rightarrow> responses_response" where
  "sample_response st = \<lparr>rs_id = ''resp_1'', rs_model = ''gpt'', rs_status = st, rs_usage = None, rs_error = None\<rparr>"

definition sample_job_world :: proxy_world where
  "sample_job_world = sample_world\<lparr>pw_db := (pw_db sample_world)\<lparr>db_jobs := [(''resp_1'', sample_job)]\<rparr>\<rparr>"

definition sample_settle_lib :: settle_lib where
  "sample_settle_lib = \<lparr>marshal_response = (\<lambda>r. rs_status r), marshal_error = (\<lambda>_. []), marshal_api_error = (\<lambda>_. [])\<rparr>"

theorem stale_poll_revives_job_witness:
  "let w1 = snd (cancel_store sample_lib sample_settle_lib AcctStore sample_env sample_job (sample_response ''cancelled'') (Some sample_collector)
                   sample_job_world);
       w2 = poll_store sample_lib sample_settle_lib None AcctStore sample_env sample_job sample_limited (sample_response ''in_progress'')
              (Some sample_collector) w1;
       wn = ((\<lambda>w. poll_store sample_lib sample_settle_lib None AcctStore sample_env sample_job sample_limited (sample_response ''cancelled'')
                (Some (restore_collector (snapshot sample_collector True))) w) ^^ 3) w2
   in map_option job_status (map_of (db_jobs (pw_db w1)) (job_id sample_job)) = Some (rs_status (sample_response ''cancelled''))
      \<and> map_option job_status (map_of (db_jobs (pw_db wn)) (job_id sample_job)) = Some (rs_status (sample_response ''in_progress''))
      \<and> wn = (report_outcome (pv_now sample_env) sample_limited (sample_response ''cancelled'') ^^ 3) w2"
  by (rule stale_poll_revives_job)
    (simp_all add: no_faults_def sample_env_def is_terminal_def is_terminal_status_def sample_response_def
      pending_row_def sample_job_world_def sample_world_def sample_job_def restore_collector_def Let_def)

text \<open>
  C17. An application key sees only its own requests: an accounting record it reads is one it was charged for, and a
  background job it reads or cancels is one it created; to any other key the job does not exist.
\<close>

theorem key_reads_only_its_own:
  "(case accounting_detail False u (Some k) store f i db of
      Inl e \<Rightarrow> True | Inr r \<Rightarrow> rec_key_id r = Some (key_id (ck_key k)))
   \<and> (case get_response_job lib store (Some k) f g i db of
        Inr (StoredJob j r) \<Rightarrow> job_key_id j = Some (key_id (ck_key k)) | _ \<Rightarrow> True)
   \<and> (if map_of (db_jobs (pw_db w)) i = Some j \<and> job_key_id j \<noteq> Some (key_id (ck_key k))
      then cancel_response_job lib sl AcctStore env None (Some k) i w
             = (Inl (err_not_found (''response not found: '' @ i)), w)
      else True)"
  by (auto simp: accounting_detail_def get_response_job_def cancel_response_job_def get_responses_job_def
      responses_job_accessible_def Let_def split: sum.splits option.splits job_answer.splits)

end
