(* ===== verification/Webhook.thy ===== *)
theory Webhook
  imports Router_Config
begin

text \<open>
  Webhooks: the events of a routed request (\<open>internal/webhook/event.go\<close>, \<open>emitRoutingEvents\<close> of
  \<open>internal/api/handler/chat.go\<close>), the dispatcher with its queue, retries and delivery rows
  (\<open>internal/webhook/dispatcher.go\<close>, \<open>signing.go\<close>), the tables behind it
  (\<open>internal/storage/sqlstore/webhooks.go\<close>) and their administration (\<open>internal/api/handler/webhooks.go\<close>).

  \<^item> The channel is the list \<open>d_queue\<close>. The two goroutines and \<open>Close\<close> are operations on the state; a delivery reads
    its answers, faults and interruptions from \<open>hook_env\<close> by a position that counts the readings.
  \<^item> \<open>hook_lib\<close> holds the JSON of an event and HMAC-SHA256 in hexadecimal.
  \<^item> Row ids are positive and given in order, as an autoincrement column does.
\<close>

section \<open>Events\<close>

record hook_event =
  ev_type :: string
  ev_timestamp :: time
  ev_value1 :: string
  ev_value2 :: string
  ev_value3 :: string
  ev_context :: "(string \<times> json) list"

record hook_lib =
  marshal_event :: "hook_event \<Rightarrow> string option"
  hmac_hex :: "string \<Rightarrow> string \<Rightarrow> string"

definition json_strings :: "string list \<Rightarrow> json" where
  "json_strings ss = JArr (map JStr ss)"

definition used_name :: "deployment \<Rightarrow> string" where
  "used_name d = provider_name d @ ''/'' @ actual_model d"

fun join_with :: "string \<Rightarrow> string list \<Rightarrow> string" where
  "join_with sep [] = []"
| "join_with sep [x] = x"
| "join_with sep (x # y # xs) = x @ sep @ join_with sep (y # xs)"

definition new_provider_failover_event :: "string \<Rightarrow> route_result \<Rightarrow> time \<Rightarrow> hook_event" where
  "new_provider_failover_event m res now =
     (let tried = map used_name (rr_tried res);
          used = (case rr_used res of None \<Rightarrow> [] | Some d \<Rightarrow> used_name d);
          reasons = map failover_reason_text (rr_reasons res)
      in \<lparr>ev_type = ''provider_failover'', ev_timestamp = now, ev_value1 = m,
          ev_value2 = join_with '' -> '' tried, ev_value3 = join_with '', '' reasons,
          ev_context = [(''model'', JStr m), (''pool_name'', JStr (rr_pool res)),
            (''providers_tried'', json_strings tried), (''provider_used'', JStr used),
            (''failover_reasons'', json_strings reasons)]\<rparr>)"

definition new_budget_exhausted_event :: "string \<Rightarrow> route_result \<Rightarrow> time \<Rightarrow> hook_event" where
  "new_budget_exhausted_event m res now =
     \<lparr>ev_type = ''budget_exhausted'', ev_timestamp = now, ev_value1 = m, ev_value2 = rr_pool res,
      ev_value3 = ''daily budget exhausted'',
      ev_context = [(''model'', JStr m), (''pool_name'', JStr (rr_pool res)),
        (''failover_reasons'', json_strings (map failover_reason_text (rr_reasons res))), (''budget_remaining'', JNull)]\<rparr>"

definition new_pool_cooldown_event :: "golib \<Rightarrow> string \<Rightarrow> deployment list \<Rightarrow> time \<Rightarrow> hook_event" where
  "new_pool_cooldown_event lib pname ms now =
     (let keys = map deployment_key ms
      in \<lparr>ev_type = ''pool_cooldown'', ev_timestamp = now, ev_value1 = pname, ev_value2 = join_with '', '' keys,
          ev_value3 = ''all members in cooldown'',
          ev_context = [(''pool_name'', JStr pname), (''members'', json_strings keys),
            (''member_count'', JNum (itoa lib (int (length ms))))]\<rparr>)"

definition with_request_id :: "string \<Rightarrow> hook_event \<Rightarrow> hook_event" where
  "with_request_id rid e = e\<lparr>ev_context := alist_put ''request_id'' (JStr rid) (ev_context e)\<rparr>"

text \<open>
  \<open>emitRoutingEvents\<close>: the events in order, and the world whose cooldowns it has read. The failover and the budget
  event have the same clock reading.
\<close>

definition routing_events ::
  "golib \<Rightarrow> route_env \<Rightarrow> route_world \<Rightarrow> route_result \<Rightarrow> string \<Rightarrow> string \<Rightarrow> hook_event list \<times> route_world" where
  "routing_events lib env w res m rid =
     (let failover = (if rr_reasons res \<noteq> [] \<and> rr_error res = None
            then [with_request_id rid (new_provider_failover_event m res (clock env w))] else []);
          budget = (if FailoverBudgetExhausted \<in> set (rr_reasons res)
            then [with_request_id rid (new_budget_exhausted_event m res (clock env w))] else []);
          po = (if rr_pool res \<noteq> [] then get_pool w (rr_pool res) else None);
          (cooled, w') = is_pool_fully_cooled env w po;
          pool = (case po of Some p \<Rightarrow> if cooled
                    then [with_request_id rid (new_pool_cooldown_event lib (pool_name p) (pool_members p) (clock env w'))]
                    else []
                  | None \<Rightarrow> [])
      in (failover @ budget @ pool, w'))"

section \<open>Signatures\<close>

definition sign :: "hook_lib \<Rightarrow> string \<Rightarrow> string \<Rightarrow> string" where
  "sign hl payload secret = ''sha256='' @ hmac_hex hl secret payload"

definition verify :: "hook_lib \<Rightarrow> string \<Rightarrow> string \<Rightarrow> string \<Rightarrow> bool" where
  "verify hl payload secret signature \<longleftrightarrow> sign hl payload secret = signature"

section \<open>Tables\<close>

record subscription =
  sub_id :: int
  sub_url :: string
  sub_events :: "string list"
  sub_secret :: string
  sub_enabled :: bool
  sub_created_at :: time

record notification =
  nt_id :: int
  nt_type :: string
  nt_payload :: string
  nt_created_at :: time

record delivery =
  dv_id :: int
  dv_sub :: "int option"
  dv_event :: int
  dv_status :: string
  dv_code :: "int option"
  dv_attempts :: int

record hook_db =
  hd_subs :: "subscription list"
  hd_events :: "notification list"
  hd_deliveries :: "delivery list"
  hd_next :: int

definition create_subscription :: "bool \<Rightarrow> subscription \<Rightarrow> time \<Rightarrow> hook_db \<Rightarrow> subscription option \<times> hook_db" where
  "create_subscription fault s now db =
     (if fault then (None, db)
      else let s' = s\<lparr>sub_id := hd_next db, sub_created_at := now\<rparr>
           in (Some s', db\<lparr>hd_subs := hd_subs db @ [s'], hd_next := hd_next db + 1\<rparr>))"

definition update_subscription :: "bool \<Rightarrow> subscription \<Rightarrow> hook_db \<Rightarrow> bool \<times> hook_db" where
  "update_subscription fault s db =
     (if fault then (False, db)
      else (True, db\<lparr>hd_subs := map (\<lambda>x. if sub_id x = sub_id s
             then x\<lparr>sub_url := sub_url s, sub_events := sub_events s, sub_secret := sub_secret s, sub_enabled := sub_enabled s\<rparr>
             else x) (hd_subs db)\<rparr>))"

text \<open>Deleting a subscription or an event deletes its deliveries: both foreign keys cascade.\<close>

definition delete_subscription :: "bool \<Rightarrow> int \<Rightarrow> hook_db \<Rightarrow> bool \<times> hook_db" where
  "delete_subscription fault i db =
     (if fault then (False, db)
      else (True, db\<lparr>hd_subs := filter (\<lambda>s. sub_id s \<noteq> i) (hd_subs db),
                     hd_deliveries := filter (\<lambda>d. dv_sub d \<noteq> Some i) (hd_deliveries db)\<rparr>))"

definition enabled_by_event :: "string \<Rightarrow> hook_db \<Rightarrow> subscription list" where
  "enabled_by_event t db = filter (\<lambda>s. sub_enabled s \<and> t \<in> set (sub_events s)) (hd_subs db)"

text \<open>The id is 0 when the insert fails, as the code's result then is.\<close>

definition insert_notification :: "bool \<Rightarrow> string \<Rightarrow> string \<Rightarrow> time \<Rightarrow> hook_db \<Rightarrow> int \<times> hook_db" where
  "insert_notification fault t payload now db =
     (if fault then (0, db)
      else (hd_next db, db\<lparr>hd_events := hd_events db @ [\<lparr>nt_id = hd_next db, nt_type = t, nt_payload = payload,
                             nt_created_at = now\<rparr>], hd_next := hd_next db + 1\<rparr>))"

definition delete_old_notifications :: "bool \<Rightarrow> time \<Rightarrow> hook_db \<Rightarrow> int option \<times> hook_db" where
  "delete_old_notifications fault cutoff db =
     (if fault then (None, db)
      else let old = filter (\<lambda>n. nt_created_at n < cutoff) (hd_events db)
           in (Some (int (length old)),
               db\<lparr>hd_events := filter (\<lambda>n. \<not> nt_created_at n < cutoff) (hd_events db),
                  hd_deliveries := filter (\<lambda>d. dv_event d \<notin> nt_id ` set old) (hd_deliveries db)\<rparr>))"

text \<open>An insert whose event or subscription does not exist violates a foreign key.\<close>

definition insert_delivery :: "bool \<Rightarrow> int option \<Rightarrow> int \<Rightarrow> hook_db \<Rightarrow> int \<times> hook_db" where
  "insert_delivery fault sub event db =
     (if fault \<or> event \<notin> nt_id ` set (hd_events db)
         \<or> (case sub of None \<Rightarrow> False | Some i \<Rightarrow> i \<notin> sub_id ` set (hd_subs db)) then (0, db)
      else (hd_next db, db\<lparr>hd_deliveries := hd_deliveries db @ [\<lparr>dv_id = hd_next db, dv_sub = sub, dv_event = event,
                             dv_status = ''pending'', dv_code = None, dv_attempts = 0\<rparr>], hd_next := hd_next db + 1\<rparr>))"

definition update_delivery :: "bool \<Rightarrow> int \<Rightarrow> string \<Rightarrow> int \<Rightarrow> int \<Rightarrow> hook_db \<Rightarrow> hook_db" where
  "update_delivery fault i status code n db =
     (if fault then db
      else db\<lparr>hd_deliveries := map (\<lambda>d. if dv_id d = i
             then d\<lparr>dv_status := status, dv_code := Some code, dv_attempts := n\<rparr> else d) (hd_deliveries db)\<rparr>)"

section \<open>The dispatcher\<close>

record target =
  tg_sub :: "int option"
  tg_url :: string
  tg_secret :: string
  tg_events :: "string list"

text \<open>\<open>NoAnswer\<close>: the HTTP call failed.\<close>

datatype hook_answer = NoAnswer | Answer int

record hook_env =
  he_store :: bool
  he_fault :: "nat \<Rightarrow> bool"
  he_valid_url :: "string \<Rightarrow> bool"
  he_answer :: "nat \<Rightarrow> hook_answer"
  he_interrupt :: "nat \<Rightarrow> bool"
  he_rand :: "nat \<Rightarrow> nat"
  he_now :: "nat \<Rightarrow> time"

text \<open>A request that was sent: URL, payload, signature header, and its answer.\<close>

record post =
  post_url :: string
  post_payload :: string
  post_signature :: "string option"
  post_answer :: hook_answer

record hook_world = hook_db +
  hw_pos :: nat
  hw_posts :: "post list"
  hw_waits :: "duration list"

record dispatcher =
  d_queue :: "hook_event list"
  d_hooks :: "webhook_config list"
  d_stopped :: bool

definition channel_buffer_size :: nat where
  "channel_buffer_size = 256"

definition max_delivery_attempts :: nat where
  "max_delivery_attempts = 5"

definition new_dispatcher :: "webhook_config list \<Rightarrow> dispatcher" where
  "new_dispatcher hooks = \<lparr>d_queue = [], d_hooks = hooks, d_stopped = False\<rparr>"

text \<open>\<open>Emit\<close> never blocks: an event that finds the channel full is dropped.\<close>

definition emit_event :: "dispatcher \<Rightarrow> hook_event \<Rightarrow> dispatcher" where
  "emit_event d e = (if length (d_queue d) < channel_buffer_size then d\<lparr>d_queue := d_queue d @ [e]\<rparr> else d)"

definition status_for_attempt :: "nat \<Rightarrow> string" where
  "status_for_attempt n = (if max_delivery_attempts \<le> n then ''failed'' else ''pending'')"

definition webhook_backoff :: "nat \<Rightarrow> nat \<Rightarrow> duration" where
  "webhook_backoff attempt r =
     (let cap = wrap64 (second * wrap64 (2 ^ attempt));
          cap' = (if 60 * second < cap \<or> cap \<le> 0 then 60 * second else cap)
      in int r mod cap')"

definition collect_targets :: "hook_env \<Rightarrow> webhook_config list \<Rightarrow> string \<Rightarrow> hook_world \<Rightarrow> target list \<times> hook_world" where
  "collect_targets env hooks t w =
     (let yaml = map (\<lambda>h. \<lparr>tg_sub = None, tg_url = wc_url h, tg_secret = wc_secret h, tg_events = wc_events h\<rparr>)
                   (filter (\<lambda>h. wc_enabled h \<and> t \<in> set (wc_events h)) hooks)
      in if \<not> he_store env then (yaml, w)
         else (yaml @ (if he_fault env (hw_pos w) then []
                 else map (\<lambda>s. \<lparr>tg_sub = Some (sub_id s), tg_url = sub_url s, tg_secret = sub_secret s,
                                 tg_events = sub_events s\<rparr>) (enabled_by_event t (hook_db.truncate w))),
               w\<lparr>hw_pos := Suc (hw_pos w)\<rparr>))"

text \<open>A database operation of the dispatcher: it uses one fault reading and leaves the rest of the world.\<close>

definition on_db :: "hook_env \<Rightarrow> (bool \<Rightarrow> hook_db \<Rightarrow> 'a \<times> hook_db) \<Rightarrow> hook_world \<Rightarrow> 'a \<times> hook_world" where
  "on_db env f w =
     (case f (he_fault env (hw_pos w)) (hook_db.truncate w) of
        (x, db) \<Rightarrow> (x, w\<lparr>hd_subs := hd_subs db, hd_events := hd_events db, hd_deliveries := hd_deliveries db,
                         hd_next := hd_next db, hw_pos := Suc (hw_pos w)\<rparr>))"

definition record_delivery_status ::
  "hook_env \<Rightarrow> int \<Rightarrow> string \<Rightarrow> int \<Rightarrow> nat \<Rightarrow> hook_world \<Rightarrow> hook_world" where
  "record_delivery_status env i status code n w =
     (if \<not> he_store env \<or> i = 0 then w
      else snd (on_db env (\<lambda>fault db. ((), update_delivery fault i status code (int n) db)) w))"

definition successful :: "hook_answer \<Rightarrow> bool" where
  "successful a = (case a of NoAnswer \<Rightarrow> False | Answer st \<Rightarrow> 200 \<le> st \<and> st < 300)"

definition answer_code :: "hook_answer \<Rightarrow> int" where
  "answer_code a = (case a of NoAnswer \<Rightarrow> 0 | Answer st \<Rightarrow> st)"

text \<open>One attempt: its row, the request if it can be built, and the row's status. The answer is \<open>None\<close> without a request.\<close>

definition attempt_delivery ::
  "hook_lib \<Rightarrow> hook_env \<Rightarrow> target \<Rightarrow> string \<Rightarrow> int \<Rightarrow> nat \<Rightarrow> hook_world \<Rightarrow> hook_answer option \<times> hook_world" where
  "attempt_delivery hl env t payload event n w =
     (let (i, w1) = (if he_store env then on_db env (\<lambda>fault. insert_delivery fault (tg_sub t) event) w else (0, w))
      in if \<not> he_valid_url env (tg_url t) then (None, record_delivery_status env i ''failed'' 0 n w1)
         else
           let sig = (if tg_secret t = [] then None else Some (sign hl payload (tg_secret t)));
               a = he_answer env (hw_pos w1);
               w2 = w1\<lparr>hw_pos := Suc (hw_pos w1), hw_posts := hw_posts w1 @
                       [\<lparr>post_url = tg_url t, post_payload = payload, post_signature = sig, post_answer = a\<rparr>]\<rparr>;
               status = (if successful a then ''delivered'' else status_for_attempt n)
           in (Some a, record_delivery_status env i status (answer_code a) n w2))"

text \<open>The loop of \<open>deliverWithRetry\<close> from attempt \<open>n\<close> on.\<close>

function deliver_from ::
  "hook_lib \<Rightarrow> hook_env \<Rightarrow> target \<Rightarrow> string \<Rightarrow> int \<Rightarrow> nat \<Rightarrow> hook_world \<Rightarrow> hook_world" where
  "deliver_from hl env t payload event n w =
     (if max_delivery_attempts < n then w
      else case attempt_delivery hl env t payload event n w of
             (None, w1) \<Rightarrow> w1
           | (Some a, w1) \<Rightarrow>
               if successful a \<or> max_delivery_attempts \<le> n then w1
               else
                 let w2 = w1\<lparr>hw_pos := Suc (hw_pos w1),
                            hw_waits := hw_waits w1 @ [webhook_backoff n (he_rand env (hw_pos w1))]\<rparr>
                 in if he_interrupt env (hw_pos w1) then w2
                    else deliver_from hl env t payload event (Suc n) w2)"
  by pat_completeness auto
termination
  by (relation "measure (\<lambda>(hl, env, t, payload, event, n, w). Suc max_delivery_attempts - n)")
    (simp_all add: max_delivery_attempts_def)

declare deliver_from.simps [simp del]

definition deliver_with_retry ::
  "hook_lib \<Rightarrow> hook_env \<Rightarrow> target \<Rightarrow> string \<Rightarrow> int \<Rightarrow> hook_world \<Rightarrow> hook_world" where
  "deliver_with_retry hl env t payload event w = deliver_from hl env t payload event 1 w"

definition process_event :: "hook_lib \<Rightarrow> hook_env \<Rightarrow> webhook_config list \<Rightarrow> hook_event \<Rightarrow> hook_world \<Rightarrow> hook_world" where
  "process_event hl env hooks e w =
     (case marshal_event hl e of None \<Rightarrow> w
      | Some payload \<Rightarrow>
        (let (i, w1) = (if he_store env
               then on_db env (\<lambda>fault. insert_notification fault (ev_type e) payload (he_now env (hw_pos w))) w
               else (0, w));
             (ts, w2) = collect_targets env hooks (ev_type e) w1
         in foldl (\<lambda>w t. deliver_with_retry hl env t payload i w) w2 ts))"

text \<open>One turn of the delivery loop, and the drain of \<open>Close\<close>, which stops at the timeout: after \<open>n\<close> events.\<close>

definition delivery_turn :: "hook_lib \<Rightarrow> hook_env \<Rightarrow> dispatcher \<times> hook_world \<Rightarrow> dispatcher \<times> hook_world" where
  "delivery_turn hl env x =
     (case x of (d, w) \<Rightarrow>
       (case d_queue d of [] \<Rightarrow> (d, w)
        | e # q \<Rightarrow> if d_stopped d then (d, w) else (d\<lparr>d_queue := q\<rparr>, process_event hl env (d_hooks d) e w)))"

definition close_dispatcher :: "hook_lib \<Rightarrow> hook_env \<Rightarrow> nat \<Rightarrow> dispatcher \<times> hook_world \<Rightarrow> dispatcher \<times> hook_world" where
  "close_dispatcher hl env n x =
     (case x of (d, w) \<Rightarrow>
       (d\<lparr>d_stopped := True, d_queue := drop n (d_queue d)\<rparr>,
        foldl (\<lambda>w e. process_event hl env (d_hooks d) e w) w (take n (d_queue d))))"

definition cleanup_events :: "hook_env \<Rightarrow> hook_world \<Rightarrow> hook_world" where
  "cleanup_events env w =
     (if \<not> he_store env then w
      else snd (on_db env (\<lambda>fault. delete_old_notifications fault (he_now env (hw_pos w) - 30 * day)) w))"

section \<open>Administration\<close>

record webhook_body =
  wb_url :: string
  wb_events :: "string list"
  wb_secret :: string
  wb_enabled :: "bool option"

definition body_subscription :: "int \<Rightarrow> webhook_body \<Rightarrow> goerror + subscription" where
  "body_subscription i b =
     (if wb_url b = [] then Inl (err_bad_request ''url is required'')
      else if wb_events b = [] then Inl (err_bad_request ''events must be a non-empty array'')
      else Inr \<lparr>sub_id = i, sub_url = wb_url b, sub_events = wb_events b, sub_secret = wb_secret b,
                sub_enabled = (case wb_enabled b of Some e \<Rightarrow> e | None \<Rightarrow> True), sub_created_at = 0\<rparr>)"

text \<open>\<open>None\<close> is a body that is not JSON.\<close>

definition admin_create_webhook ::
  "goerror option \<Rightarrow> webhook_body option \<Rightarrow> time \<Rightarrow> hook_db \<Rightarrow> (goerror + subscription) \<times> hook_db" where
  "admin_create_webhook fault body now db =
     (case body of None \<Rightarrow> (Inl (err_bad_request ''invalid JSON body''), db)
      | Some b \<Rightarrow>
        (case body_subscription 0 b of Inl e \<Rightarrow> (Inl e, db)
         | Inr s \<Rightarrow>
           (case create_subscription (fault \<noteq> None) s now db of
              (None, db') \<Rightarrow> (Inl (err_internal_server ''failed to create webhook'' fault), db')
            | (Some s', db') \<Rightarrow> (Inr s', db'))))"

definition admin_update_webhook ::
  "goerror option \<Rightarrow> string \<Rightarrow> webhook_body option \<Rightarrow> hook_db \<Rightarrow> goerror option \<times> hook_db" where
  "admin_update_webhook fault id_text body db =
     (case atoi id_text of None \<Rightarrow> (Some (err_bad_request ''invalid webhook id''), db)
      | Some i \<Rightarrow>
        if i < 0 then (Some (err_forbidden ''YAML webhooks are read-only and cannot be modified''), db)
        else (case body of None \<Rightarrow> (Some (err_bad_request ''invalid JSON body''), db)
         | Some b \<Rightarrow>
           (case body_subscription i b of Inl e \<Rightarrow> (Some e, db)
            | Inr s \<Rightarrow> (case update_subscription (fault \<noteq> None) s db of
                (ok, db') \<Rightarrow> (if ok then None else Some (err_internal_server ''failed to update webhook'' fault), db')))))"

definition admin_delete_webhook :: "goerror option \<Rightarrow> string \<Rightarrow> hook_db \<Rightarrow> goerror option \<times> hook_db" where
  "admin_delete_webhook fault id_text db =
     (case atoi id_text of None \<Rightarrow> (Some (err_bad_request ''invalid webhook id''), db)
      | Some i \<Rightarrow>
        if i < 0 then (Some (err_forbidden ''YAML webhooks are read-only and cannot be deleted''), db)
        else (case delete_subscription (fault \<noteq> None) i db of
                (ok, db') \<Rightarrow> (if ok then None else Some (err_internal_server ''failed to delete webhook'' fault), db')))"

record webhook_response =
  wr_id :: int
  wr_url :: string
  wr_events :: "string list"
  wr_enabled :: bool
  wr_source :: string
  wr_read_only :: bool
  wr_created_at :: "time option"

text \<open>The webhooks of the file come first, with ids \<open>-1, -2, \<dots>\<close>; secrets are not listed.\<close>

definition admin_list_webhooks :: "goerror option \<Rightarrow> webhook_config list \<Rightarrow> hook_db \<Rightarrow> goerror + webhook_response list" where
  "admin_list_webhooks fault hooks db =
     (if fault \<noteq> None then Inl (err_internal_server ''failed to list webhooks'' fault)
      else Inr (map (\<lambda>(i, h). \<lparr>wr_id = - (int i + 1), wr_url = wc_url h, wr_events = wc_events h, wr_enabled = wc_enabled h,
                   wr_source = ''yaml'', wr_read_only = True, wr_created_at = None\<rparr>) (enumerate 0 hooks)
         @ map (\<lambda>s. \<lparr>wr_id = sub_id s, wr_url = sub_url s, wr_events = sub_events s, wr_enabled = sub_enabled s,
                   wr_source = ''ui'', wr_read_only = False, wr_created_at = Some (sub_created_at s)\<rparr>)
             (rev (sort_key sub_created_at (hd_subs db)))))"

section \<open>Lemmas\<close>

lemma webhook_backoff_bounds: "0 \<le> webhook_backoff n r" "webhook_backoff n r < 60 * second"
  by (simp_all add: webhook_backoff_def Let_def second_def)
    (smt (verit) pos_mod_bound)

text \<open>The queue keeps the oldest events in order and drops what does not fit.\<close>

lemma emit_events_queue:
  assumes "length (d_queue d) \<le> channel_buffer_size"
  shows "d_queue (foldl emit_event d es) = take channel_buffer_size (d_queue d @ es)"
  using assms
proof (induction es arbitrary: d)
  case Nil
  then show ?case by simp
next
  case (Cons e es)
  show ?case
  proof (cases "length (d_queue d) < channel_buffer_size")
    case True
    then show ?thesis using Cons.IH [of "emit_event d e"] by (simp add: emit_event_def)
  next
    case False
    then show ?thesis using Cons.IH [of d] Cons.prems by (simp add: emit_event_def)
  qed
qed

text \<open>A store that answers: no faults, the event and the subscription exist, ids are fresh.\<close>

definition fresh_ids :: "hook_world \<Rightarrow> bool" where
  "fresh_ids w \<longleftrightarrow> 0 < hd_next w \<and> (\<forall>d \<in> set (hd_deliveries w). dv_id d < hd_next w)"

definition delivery_ready :: "hook_env \<Rightarrow> target \<Rightarrow> int \<Rightarrow> hook_world \<Rightarrow> bool" where
  "delivery_ready env t event w \<longleftrightarrow>
     he_store env \<and> (\<forall>i. \<not> he_fault env i) \<and> he_valid_url env (tg_url t)
     \<and> event \<in> nt_id ` set (hd_events w)
     \<and> (case tg_sub t of None \<Rightarrow> True | Some i \<Rightarrow> i \<in> sub_id ` set (hd_subs w)) \<and> fresh_ids w"

definition post_of :: "hook_lib \<Rightarrow> target \<Rightarrow> string \<Rightarrow> hook_answer \<Rightarrow> post" where
  "post_of hl t payload a = \<lparr>post_url = tg_url t, post_payload = payload,
     post_signature = (if tg_secret t = [] then None else Some (sign hl payload (tg_secret t))), post_answer = a\<rparr>"

definition row_of :: "target \<Rightarrow> int \<Rightarrow> int \<Rightarrow> nat \<Rightarrow> hook_answer \<Rightarrow> delivery" where
  "row_of t event i n a = \<lparr>dv_id = i, dv_sub = tg_sub t, dv_event = event,
     dv_status = (if successful a then ''delivered'' else status_for_attempt n),
     dv_code = Some (answer_code a), dv_attempts = int n\<rparr>"

lemma update_fresh:
  assumes "\<forall>d \<in> set ds. dv_id d < i"
  shows "map (\<lambda>d. if dv_id d = i then f d else d) (ds @ [r]) = ds @ [if dv_id r = i then f r else r]"
proof -
  have "map (\<lambda>d. if dv_id d = i then f d else d) ds = ds" by (rule map_idI) (use assms in force)
  then show ?thesis by simp
qed

lemma insert_ready:
  assumes "delivery_ready env t event w"
  shows "on_db env (\<lambda>fault. insert_delivery fault (tg_sub t) event) w
    = (hd_next w, w\<lparr>hd_deliveries := hd_deliveries w @ [\<lparr>dv_id = hd_next w, dv_sub = tg_sub t, dv_event = event,
         dv_status = ''pending'', dv_code = None, dv_attempts = 0\<rparr>], hd_next := hd_next w + 1, hw_pos := Suc (hw_pos w)\<rparr>)"
  using assms
  by (cases "tg_sub t") (simp_all add: delivery_ready_def on_db_def insert_delivery_def hook_db.defs)

lemma status_ready:
  assumes "he_store env" "\<And>i. \<not> he_fault env i" "i \<noteq> 0"
  shows "record_delivery_status env i status code n w
    = w\<lparr>hd_deliveries := map (\<lambda>d. if dv_id d = i
          then d\<lparr>dv_status := status, dv_code := Some code, dv_attempts := int n\<rparr> else d) (hd_deliveries w),
        hw_pos := Suc (hw_pos w)\<rparr>"
  using assms by (simp add: record_delivery_status_def on_db_def update_delivery_def hook_db.defs)

lemma attempt_ready:
  assumes "delivery_ready env t event w"
  shows "\<exists>a w1. attempt_delivery hl env t payload event n w = (Some a, w1)
    \<and> hw_posts w1 = hw_posts w @ [post_of hl t payload a]
    \<and> hd_deliveries w1 = hd_deliveries w @ [row_of t event (hd_next w) n a]
    \<and> hw_waits w1 = hw_waits w \<and> delivery_ready env t event w1"
proof -
  have prems: "he_store env" "\<And>i. \<not> he_fault env i" "he_valid_url env (tg_url t)"
    "0 < hd_next w" "\<forall>d \<in> set (hd_deliveries w). dv_id d < hd_next w"
    using assms by (auto simp: delivery_ready_def fresh_ids_def)
  define a where "a = he_answer env (Suc (hw_pos w))"
  define w1 where "w1 = w\<lparr>hd_deliveries := hd_deliveries w @ [row_of t event (hd_next w) n a], hd_next := hd_next w + 1,
    hw_posts := hw_posts w @ [post_of hl t payload a], hw_pos := Suc (Suc (Suc (hw_pos w)))\<rparr>"
  have "attempt_delivery hl env t payload event n w = (Some a, w1)"
    unfolding attempt_delivery_def insert_ready [OF assms]
    using prems by (simp add: status_ready update_fresh Let_def a_def w1_def post_of_def row_of_def del: map_append)
  moreover have "delivery_ready env t event w1"
    using assms by (cases "tg_sub t") (auto simp: delivery_ready_def fresh_ids_def w1_def row_of_def)
  ultimately show ?thesis by (intro exI [of _ a] exI [of _ w1]) (simp add: w1_def)
qed

lemma delivery_ready_wait [simp]:
  "delivery_ready env t event (w\<lparr>hw_pos := p, hw_waits := q\<rparr>) = delivery_ready env t event w"
  by (cases "tg_sub t") (simp_all add: delivery_ready_def fresh_ids_def)

text \<open>The rows of attempts \<open>n, n + 1, \<dots>\<close> with the answers \<open>as\<close>.\<close>

fun rows_of :: "target \<Rightarrow> int \<Rightarrow> nat \<Rightarrow> hook_answer list \<Rightarrow> (string \<times> int) list" where
  "rows_of t event n [] = []"
| "rows_of t event n (a # as) =
     (if successful a then ''delivered'' else status_for_attempt n, int n) # rows_of t event (Suc n) as"

abbreviation row_states :: "hook_world \<Rightarrow> (string \<times> int) list" where
  "row_states w \<equiv> map (\<lambda>d. (dv_status d, dv_attempts d)) (hd_deliveries w)"

definition answers_of_run :: "nat \<Rightarrow> hook_answer list \<Rightarrow> bool" where
  "answers_of_run n as \<longleftrightarrow> as \<noteq> [] \<and> length as \<le> Suc max_delivery_attempts - n \<and> (\<forall>a \<in> set (butlast as). \<not> successful a)
     \<and> (successful (last as) \<or> length as = Suc max_delivery_attempts - n)"

lemma deliver_from_run:
  assumes "delivery_ready env t event w" "\<And>i. \<not> he_interrupt env i" "n \<le> max_delivery_attempts"
  shows "\<exists>as. answers_of_run n as
    \<and> hw_posts (deliver_from hl env t payload event n w) = hw_posts w @ map (post_of hl t payload) as
    \<and> row_states (deliver_from hl env t payload event n w) = row_states w @ rows_of t event n as
    \<and> length (hw_waits (deliver_from hl env t payload event n w)) = length (hw_waits w) + (length as - 1)"
  using assms(1,3)
proof (induction "max_delivery_attempts - n" arbitrary: n w)
  case (0 n w)
  then have n: "n = max_delivery_attempts" by simp
  obtain a w1 where a: "attempt_delivery hl env t payload event n w = (Some a, w1)"
    "hw_posts w1 = hw_posts w @ [post_of hl t payload a]"
    "hd_deliveries w1 = hd_deliveries w @ [row_of t event (hd_next w) n a]" "hw_waits w1 = hw_waits w"
    using attempt_ready [OF "0.prems"(1)] by blast
  have "deliver_from hl env t payload event n w = w1" using a(1) n by (simp add: deliver_from.simps)
  then show ?case
    using a n by (intro exI [of _ "[a]"]) (simp add: answers_of_run_def row_of_def)
next
  case (Suc k n w)
  obtain a w1 where a: "attempt_delivery hl env t payload event n w = (Some a, w1)"
    "hw_posts w1 = hw_posts w @ [post_of hl t payload a]"
    "hd_deliveries w1 = hd_deliveries w @ [row_of t event (hd_next w) n a]" "hw_waits w1 = hw_waits w"
    "delivery_ready env t event w1"
    using attempt_ready [OF Suc.prems(1)] by blast
  have n: "n < max_delivery_attempts" using Suc.hyps(2) by simp
  show ?case
  proof (cases "successful a")
    case True
    then have "deliver_from hl env t payload event n w = w1" using a(1) n by (simp add: deliver_from.simps)
    then show ?thesis
      using a n True by (intro exI [of _ "[a]"]) (simp add: answers_of_run_def row_of_def)
  next
    case False
    let ?w2 = "w1\<lparr>hw_pos := Suc (hw_pos w1), hw_waits := hw_waits w1 @ [webhook_backoff n (he_rand env (hw_pos w1))]\<rparr>"
    have eq: "deliver_from hl env t payload event n w = deliver_from hl env t payload event (Suc n) ?w2"
      using a(1) n False assms(2) by (simp add: deliver_from.simps [of _ _ _ _ _ n] Let_def)
    have "k = max_delivery_attempts - Suc n" "Suc n \<le> max_delivery_attempts" using Suc.hyps(2) n by simp_all
    then obtain as where as: "answers_of_run (Suc n) as"
      "hw_posts (deliver_from hl env t payload event (Suc n) ?w2) = hw_posts ?w2 @ map (post_of hl t payload) as"
      "row_states (deliver_from hl env t payload event (Suc n) ?w2) = row_states ?w2 @ rows_of t event (Suc n) as"
      "length (hw_waits (deliver_from hl env t payload event (Suc n) ?w2)) = length (hw_waits ?w2) + (length as - 1)"
      using Suc.hyps(1) [of "Suc n" ?w2] a(5) by fastforce
    have "answers_of_run n (a # as)" using as(1) False n by (auto simp: answers_of_run_def)
    moreover have "0 < length as" using as(1) by (simp add: answers_of_run_def)
    ultimately show ?thesis
      unfolding eq using as(2-4) a(2-4) False
      by (intro exI [of _ "a # as"]) (simp add: row_of_def)
  qed
qed

lemma rows_of_states: "n + length as \<le> max_delivery_attempts \<Longrightarrow> \<forall>a \<in> set as. \<not> successful a
    \<Longrightarrow> rows_of t event n as = map (\<lambda>i. (''pending'', int i)) [n ..< n + length as]"
proof (induction as arbitrary: n)
  case Nil
  then show ?case by simp
next
  case (Cons a as)
  have "[n ..< n + length (a # as)] = n # [Suc n ..< Suc n + length as]" by (simp add: upt_rec [of n] Suc_le_eq)
  then show ?case using Cons by (simp add: status_for_attempt_def)
qed

lemma rows_of_append: "rows_of t event n (as @ bs) = rows_of t event n as @ rows_of t event (n + length as) bs"
  by (induction as arbitrary: n) simp_all

section \<open>Properties\<close>

text \<open>
  C18. A delivery makes at most five attempts, stops at the first 2xx answer and otherwise uses all five, each
  with the same payload and the signature of the target's secret. Every attempt leaves a row of its own: the
  last says whether the event was delivered, and the rows of all the earlier attempts say \<open>pending\<close> and
  are never updated again.
\<close>

theorem delivery_attempts:
  assumes "delivery_ready env t event w" "\<forall>i. \<not> he_interrupt env i"
  shows "\<exists>as. as \<noteq> [] \<and> length as \<le> 5 \<and> (\<forall>a \<in> set (butlast as). \<not> successful a)
    \<and> (successful (last as) \<or> length as = 5)
    \<and> hw_posts (deliver_with_retry hl env t payload event w) = hw_posts w @ map (post_of hl t payload) as
    \<and> row_states (deliver_with_retry hl env t payload event w)
        = row_states w @ map (\<lambda>i. (''pending'', int i)) [1 ..< length as]
          @ [(if successful (last as) then ''delivered'' else ''failed'', int (length as))]"
proof -
  obtain as where as: "answers_of_run 1 as"
    "hw_posts (deliver_from hl env t payload event 1 w) = hw_posts w @ map (post_of hl t payload) as"
    "row_states (deliver_from hl env t payload event 1 w) = row_states w @ rows_of t event 1 as"
    using deliver_from_run [of env t event w 1 hl payload] assms by (auto simp: max_delivery_attempts_def)
  have ne: "as \<noteq> []" "length as \<le> 5" "\<forall>a \<in> set (butlast as). \<not> successful a" "successful (last as) \<or> length as = 5"
    using as(1) by (auto simp: answers_of_run_def max_delivery_attempts_def)
  have "rows_of t event 1 as = rows_of t event 1 (butlast as) @ rows_of t event (1 + length (butlast as)) [last as]"
    using rows_of_append [of t event 1 "butlast as" "[last as]"] ne(1) by simp
  also have "rows_of t event 1 (butlast as) = map (\<lambda>i. (''pending'', int i)) [1 ..< length as]"
    using rows_of_states [of 1 "butlast as" t event] ne by (simp add: max_delivery_attempts_def)
  also have "rows_of t event (1 + length (butlast as)) [last as]
      = [(if successful (last as) then ''delivered'' else ''failed'', int (length as))]"
    using ne by (auto simp: status_for_attempt_def max_delivery_attempts_def)
  finally show ?thesis using as(2,3) ne unfolding deliver_with_retry_def by (intro exI [of _ as]) simp
qed

definition sample_hook_env :: hook_env where
  "sample_hook_env = \<lparr>he_store = True, he_fault = (\<lambda>_. False), he_valid_url = (\<lambda>_. True),
     he_answer = (\<lambda>n. if n < 4 then Answer 503 else Answer 200), he_interrupt = (\<lambda>_. False), he_rand = id,
     he_now = int\<rparr>"

definition sample_target :: target where
  "sample_target = \<lparr>tg_sub = None, tg_url = ''https://hooks.example'', tg_secret = [], tg_events = []\<rparr>"

definition sample_hook_world :: hook_world where
  "sample_hook_world = \<lparr>hd_subs = [], hd_events = [\<lparr>nt_id = 1, nt_type = [], nt_payload = [], nt_created_at = 0\<rparr>],
     hd_deliveries = [], hd_next = 2, hw_pos = 0, hw_posts = [], hw_waits = []\<rparr>"

definition sample_hook_lib :: hook_lib where
  "sample_hook_lib = \<lparr>marshal_event = (\<lambda>e. Some (ev_type e)), hmac_hex = (\<lambda>k s. k @ s)\<rparr>"

theorem delivery_attempts_witness:
  "\<exists>as. as \<noteq> [] \<and> length as \<le> 5 \<and> (\<forall>a \<in> set (butlast as). \<not> successful a)
    \<and> (successful (last as) \<or> length as = 5)
    \<and> hw_posts (deliver_with_retry sample_hook_lib sample_hook_env sample_target ''{}'' 1 sample_hook_world)
        = hw_posts sample_hook_world @ map (post_of sample_hook_lib sample_target ''{}'') as
    \<and> row_states (deliver_with_retry sample_hook_lib sample_hook_env sample_target ''{}'' 1 sample_hook_world)
        = row_states sample_hook_world @ map (\<lambda>i. (''pending'', int i)) [1 ..< length as]
          @ [(if successful (last as) then ''delivered'' else ''failed'', int (length as))]"
  by (rule delivery_attempts)
    (simp_all add: delivery_ready_def fresh_ids_def sample_hook_env_def sample_target_def sample_hook_world_def)


end
