(* ===== verification/Anthropic_Stream.thy ===== *)
theory Anthropic_Stream
  imports Capacity
begin

text \<open>
  Answers in the Anthropic format (\<open>internal/anthropic/stream.go\<close>, \<open>response.go\<close>): the encoder that turns the chunks
  of any provider into named server-sent events, and the translation of a complete answer.

  \<^item> \<open>s.tools\<close> and \<open>s.toolOrder\<close> share their tools, none is ever removed: one association list in the order of
    \<open>toolOrder\<close> holds both.
  \<^item> An event is a value of \<open>sse\<close>; \<open>wfail\<close> says which writes fail, by their position in the output. Time stamps
    and the random message id are left out.
\<close>

section \<open>Events and the encoder\<close>

record anthropic_usage =
  an_input :: int
  an_output :: int
  an_cache_read :: int
  an_cache_creation :: int

datatype sse =
    MessageStart string anthropic_usage
  | TextStart int
  | ToolStart int string string
  | TextDelta int string
  | JsonDelta int string
  | BlockStop int
  | MessageDelta string "string option" anthropic_usage
  | Extension string
  | MessageStop

text \<open>\<open>WriteFailed\<close> is the code's \<open>WriteError\<close>: the client is gone, the upstream is not to blame.\<close>

datatype stream_error = WriteFailed | BadStream string

record stream_tool =
  tl_index :: int
  tl_id :: string
  tl_name :: string
  tl_args :: string
  tl_started :: bool

record encoder =
  en_alias :: string
  en_started :: bool
  en_next :: int
  en_text :: int
  en_tools :: "(int \<times> stream_tool) list"
  en_finish :: string
  en_stop :: "string option"
  en_out :: "sse list"

definition new_encoder :: "string \<Rightarrow> encoder" where
  "new_encoder alias = \<lparr>en_alias = alias, en_started = False, en_next = 0, en_text = -1, en_tools = [],
     en_finish = [], en_stop = None, en_out = []\<rparr>"

definition usage_from_chat :: "usage option \<Rightarrow> anthropic_usage" where
  "usage_from_chat uo =
     (case uo of None \<Rightarrow> \<lparr>an_input = 0, an_output = 0, an_cache_read = 0, an_cache_creation = 0\<rparr>
      | Some u \<Rightarrow> \<lparr>an_input = prompt_tokens u, an_output = completion_tokens u,
                   an_cache_read = cache_read_tokens u, an_cache_creation = cache_write_tokens u\<rparr>)"

definition stop_reason :: "string \<Rightarrow> string" where
  "stop_reason r =
     (if r = ''length'' then ''max_tokens''
      else if r = ''tool_calls'' \<or> r = ''function_call'' then ''tool_use''
      else if r = ''stop_sequence'' \<or> r = ''pause_turn'' \<or> r = ''refusal'' then r
      else if r = ''content_filter'' then ''refusal''
      else ''end_turn'')"

text \<open>\<open>toolInput\<close>: the arguments, which must be a JSON object; no arguments are the empty object.\<close>

definition tool_input :: "golib \<Rightarrow> string \<Rightarrow> string option" where
  "tool_input lib args =
     (let a = (if args = [] then ''{}'' else args)
      in case unmarshal lib a of Some (JObj fs) \<Rightarrow> Some a | _ \<Rightarrow> None)"

type_synonym outcome = "stream_error option \<times> encoder"

text \<open>Go's early return on an error.\<close>

definition and_then :: "outcome \<Rightarrow> (encoder \<Rightarrow> outcome) \<Rightarrow> outcome" where
  "and_then r f = (case r of (None, s) \<Rightarrow> f s | (Some e, s) \<Rightarrow> (Some e, s))"

definition emit_sse :: "(nat \<Rightarrow> bool) \<Rightarrow> sse \<Rightarrow> encoder \<Rightarrow> outcome" where
  "emit_sse wfail e s =
     (if wfail (length (en_out s)) then (Some WriteFailed, s) else (None, s\<lparr>en_out := en_out s @ [e]\<rparr>))"

definition start_message :: "(nat \<Rightarrow> bool) \<Rightarrow> usage option \<Rightarrow> encoder \<Rightarrow> outcome" where
  "start_message wfail u s =
     (if en_started s then (None, s)
      else emit_sse wfail (MessageStart (en_alias s) ((usage_from_chat u)\<lparr>an_output := 0\<rparr>)) (s\<lparr>en_started := True\<rparr>))"

definition put_tool :: "int \<Rightarrow> stream_tool \<Rightarrow> encoder \<Rightarrow> encoder" where
  "put_tool k t s = s\<lparr>en_tools := alist_put k t (en_tools s)\<rparr>"

text \<open>\<open>startTool\<close> of the tool \<open>t\<close> at key \<open>k\<close>; the tool is returned as it then is.\<close>

definition start_tool ::
  "(nat \<Rightarrow> bool) \<Rightarrow> int \<Rightarrow> stream_tool \<Rightarrow> encoder \<Rightarrow> stream_tool \<times> outcome" where
  "start_tool wfail k t s =
     (if tl_started t then (t, None, s)
      else if tl_id t = [] \<or> tl_name t = []
      then (t, Some (BadStream ''upstream tool call is missing id or name''), s)
      else
        let t' = t\<lparr>tl_index := en_next s, tl_started := True\<rparr>
        in (t', emit_sse wfail (ToolStart (en_next s) (tl_id t) (tl_name t))
              ((put_tool k t' s)\<lparr>en_next := en_next s + 1, en_text := -1\<rparr>)))"

definition empty_tool :: stream_tool where
  "empty_tool = \<lparr>tl_index = 0, tl_id = [], tl_name = [], tl_args = [], tl_started = False\<rparr>"

definition write_text :: "(nat \<Rightarrow> bool) \<Rightarrow> string \<Rightarrow> encoder \<Rightarrow> outcome" where
  "write_text wfail text s =
     (if text = [] then (None, s)
      else and_then
        (if en_text s < 0
         then emit_sse wfail (TextStart (en_next s)) (s\<lparr>en_text := en_next s, en_next := en_next s + 1\<rparr>)
         else (None, s))
        (\<lambda>s. emit_sse wfail (TextDelta (en_text s) text) s))"

definition write_tool_call :: "(nat \<Rightarrow> bool) \<Rightarrow> tool_call \<Rightarrow> encoder \<Rightarrow> outcome" where
  "write_tool_call wfail c s =
     (let k = (case tc_index c of Some i \<Rightarrow> i | None \<Rightarrow> 0);
          t = (case map_of (en_tools s) k of Some t \<Rightarrow> t | None \<Rightarrow> empty_tool)
      in if tl_started t \<and> (tc_id c \<noteq> [] \<or> tc_name c \<noteq> [])
         then (Some (BadStream ''upstream changed tool identity after arguments started''), put_tool k t s)
         else
           let t1 = t\<lparr>tl_id := tl_id t @ tc_id c, tl_name := tl_name t @ tc_name c\<rparr>;
               s1 = put_tool k t1 s
           in if tc_args c = [] then (None, s1)
              else case start_tool wfail k t1 s1 of
                (t2, r) \<Rightarrow> and_then r (\<lambda>s2.
                   let t3 = t2\<lparr>tl_args := tl_args t2 @ tc_args c\<rparr>
                   in emit_sse wfail (JsonDelta (tl_index t3) (tc_args c)) (put_tool k t3 s2)))"

fun write_tool_calls :: "(nat \<Rightarrow> bool) \<Rightarrow> tool_call list \<Rightarrow> encoder \<Rightarrow> outcome" where
  "write_tool_calls wfail [] s = (None, s)"
| "write_tool_calls wfail (c # cs) s = and_then (write_tool_call wfail c s) (write_tool_calls wfail cs)"

definition write_choice :: "(nat \<Rightarrow> bool) \<Rightarrow> stream_choice \<Rightarrow> encoder \<Rightarrow> outcome" where
  "write_choice wfail c s =
     (if sc_index c \<noteq> 0 then (None, s)
      else
        let s1 = (if sc_finish c \<noteq> [] then s\<lparr>en_finish := sc_finish c, en_stop := sc_stop c\<rparr> else s)
        in case sc_delta c of None \<Rightarrow> (None, s1)
           | Some d \<Rightarrow> and_then (write_text wfail (sd_content d) s1) (write_tool_calls wfail (sd_tools d)))"

fun write_choices :: "(nat \<Rightarrow> bool) \<Rightarrow> stream_choice list \<Rightarrow> encoder \<Rightarrow> outcome" where
  "write_choices wfail [] s = (None, s)"
| "write_choices wfail (c # cs) s = and_then (write_choice wfail c s) (write_choices wfail cs)"

definition write_chunk :: "(nat \<Rightarrow> bool) \<Rightarrow> stream_chunk option \<Rightarrow> encoder \<Rightarrow> outcome" where
  "write_chunk wfail co s =
     (case co of None \<Rightarrow> (Some (BadStream ''upstream returned a nil stream chunk''), s)
      | Some c \<Rightarrow> and_then (start_message wfail (chunk_usage c) s) (write_choices wfail (chunk_choices c)))"

text \<open>\<open>Finish\<close> checks and starts the tools in order.\<close>

fun finish_tools :: "golib \<Rightarrow> (nat \<Rightarrow> bool) \<Rightarrow> (int \<times> stream_tool) list \<Rightarrow> encoder \<Rightarrow> outcome" where
  "finish_tools lib wfail [] s = (None, s)"
| "finish_tools lib wfail ((k, t) # ts) s =
     (if tool_input lib (tl_args t) = None
      then (Some (BadStream ''upstream returned invalid tool input: expected a JSON object''), s)
      else and_then (snd (start_tool wfail k t s)) (finish_tools lib wfail ts))"

fun emit_all :: "(nat \<Rightarrow> bool) \<Rightarrow> sse list \<Rightarrow> encoder \<Rightarrow> outcome" where
  "emit_all wfail [] s = (None, s)"
| "emit_all wfail (e # es) s = and_then (emit_sse wfail e s) (emit_all wfail es)"

text \<open>
  Everything up to the hook \<open>BeforeStop\<close>, and then the end: \<open>exts\<close> is what the hook writes; it ignores write errors.
\<close>

definition finish_blocks :: "golib \<Rightarrow> (nat \<Rightarrow> bool) \<Rightarrow> usage option \<Rightarrow> encoder \<Rightarrow> outcome" where
  "finish_blocks lib wfail u s =
     (if en_finish s = [] then (Some (BadStream ''upstream stream ended without a finish reason''), s)
      else and_then (and_then (start_message wfail u s) (\<lambda>s. finish_tools lib wfail (en_tools s) s))
        (\<lambda>s. emit_all wfail (map (\<lambda>i. BlockStop (int i)) [0 ..< nat (en_next s)]
             @ [MessageDelta (stop_reason (en_finish s)) (en_stop s) (usage_from_chat u)]) s))"

definition stop_message :: "(nat \<Rightarrow> bool) \<Rightarrow> string list \<Rightarrow> encoder \<Rightarrow> outcome" where
  "stop_message wfail exts s = emit_sse wfail MessageStop (s\<lparr>en_out := en_out s @ map Extension exts\<rparr>)"

definition finish_stream :: "golib \<Rightarrow> (nat \<Rightarrow> bool) \<Rightarrow> string list \<Rightarrow> usage option \<Rightarrow> encoder \<Rightarrow> outcome" where
  "finish_stream lib wfail exts u s = and_then (finish_blocks lib wfail u s) (stop_message wfail exts)"

text \<open>A whole stream: the chunks in order, then the end of the stream.\<close>

fun write_chunks :: "(nat \<Rightarrow> bool) \<Rightarrow> stream_chunk option list \<Rightarrow> encoder \<Rightarrow> outcome" where
  "write_chunks wfail [] s = (None, s)"
| "write_chunks wfail (c # cs) s = and_then (write_chunk wfail c s) (write_chunks wfail cs)"

definition encode_stream ::
  "golib \<Rightarrow> (nat \<Rightarrow> bool) \<Rightarrow> string list \<Rightarrow> string \<Rightarrow> stream_chunk option list \<Rightarrow> usage option \<Rightarrow> outcome" where
  "encode_stream lib wfail exts alias cs u =
     and_then (write_chunks wfail cs (new_encoder alias)) (finish_stream lib wfail exts u)"

section \<open>A complete answer\<close>

datatype message_content = NoContent | TextContent string | PartsContent "(string \<times> string) list" | OtherContent

record chat_message =
  cm_content :: message_content
  cm_tools :: "tool_call list"

datatype answer_block = AnswerText string | AnswerTool string string string

record anthropic_response =
  ar_model :: string
  ar_content :: "answer_block list"
  ar_stop_reason :: string
  ar_stop_sequence :: "string option"
  ar_usage :: anthropic_usage

fun part_blocks :: "(string \<times> string) list \<Rightarrow> string + answer_block list" where
  "part_blocks [] = Inr []"
| "part_blocks ((ty, text) # ps) =
     (if ty \<noteq> ''text'' then Inl (''unsupported upstream content type '' @ dquoted ty)
      else case part_blocks ps of Inl e \<Rightarrow> Inl e | Inr bs \<Rightarrow> Inr (AnswerText text # bs))"

definition content_blocks :: "message_content \<Rightarrow> string + answer_block list" where
  "content_blocks c =
     (case c of NoContent \<Rightarrow> Inr []
      | TextContent t \<Rightarrow> Inr (if t = [] then [] else [AnswerText t])
      | PartsContent ps \<Rightarrow> part_blocks ps
      | OtherContent \<Rightarrow> Inl ''unsupported upstream message content'')"

fun tool_blocks :: "golib \<Rightarrow> tool_call list \<Rightarrow> string + answer_block list" where
  "tool_blocks lib [] = Inr []"
| "tool_blocks lib (c # cs) =
     (if tc_id c = [] \<or> tc_name c = [] then Inl ''upstream tool call is missing id or name''
      else case tool_input lib (tc_args c) of
          None \<Rightarrow> Inl ''upstream returned invalid tool input: expected a JSON object''
        | Some input \<Rightarrow> (case tool_blocks lib cs of Inl e \<Rightarrow> Inl e
            | Inr bs \<Rightarrow> Inr (AnswerTool (tc_id c) (tc_name c) input # bs)))"

text \<open>\<open>FromChat\<close> of the first choice: its message, finish reason and stop sequence.\<close>

definition from_chat ::
  "golib \<Rightarrow> (chat_message option \<times> string \<times> string option) option \<Rightarrow> usage option \<Rightarrow> string \<Rightarrow> string + anthropic_response" where
  "from_chat lib choice u alias =
     (case choice of None \<Rightarrow> Inl ''upstream returned no assistant message''
      | Some (None, _) \<Rightarrow> Inl ''upstream returned no assistant message''
      | Some (Some m, reason, stop) \<Rightarrow>
          (case content_blocks (cm_content m) of Inl e \<Rightarrow> Inl e
           | Inr bs \<Rightarrow> (case tool_blocks lib (cm_tools m) of Inl e \<Rightarrow> Inl e
             | Inr ts \<Rightarrow> Inr \<lparr>ar_model = alias, ar_content = bs @ ts, ar_stop_reason = stop_reason reason,
                 ar_stop_sequence = (if stop_reason reason = ''stop_sequence'' then stop else None),
                 ar_usage = usage_from_chat u\<rparr>)))"

section \<open>The client\<close>

text \<open>
  A client of the protocol: it takes events one by one, collects the blocks of the message, and rejects
  (\<open>None\<close>) an event the protocol does not allow where it comes.
\<close>

datatype block = TextBlock string | ToolBlock string string string

record client =
  cl_phase :: nat
  cl_blocks :: "block list"
  cl_stopped :: nat
  cl_reason :: string

definition new_client :: client where
  "new_client = \<lparr>cl_phase = 0, cl_blocks = [], cl_stopped = 0, cl_reason = []\<rparr>"

definition open_block :: "client \<Rightarrow> int \<Rightarrow> block \<Rightarrow> client option" where
  "open_block c i b =
     (if cl_phase c = 1 \<and> cl_stopped c = 0 \<and> i = int (length (cl_blocks c))
      then Some (c\<lparr>cl_blocks := cl_blocks c @ [b]\<rparr>) else None)"

definition extend_block :: "client \<Rightarrow> int \<Rightarrow> (block \<Rightarrow> block option) \<Rightarrow> client option" where
  "extend_block c i f =
     (if cl_phase c = 1 \<and> cl_stopped c = 0 \<and> 0 \<le> i \<and> i < int (length (cl_blocks c))
      then map_option (\<lambda>b. c\<lparr>cl_blocks := (cl_blocks c)[nat i := b]\<rparr>) (f (cl_blocks c ! nat i)) else None)"

fun client_step :: "client \<Rightarrow> sse \<Rightarrow> client option" where
  "client_step c (MessageStart m u) = (if cl_phase c = 0 then Some (c\<lparr>cl_phase := 1\<rparr>) else None)"
| "client_step c (TextStart i) = open_block c i (TextBlock [])"
| "client_step c (ToolStart i tid name) = open_block c i (ToolBlock tid name [])"
| "client_step c (TextDelta i t) =
     extend_block c i (\<lambda>b. case b of TextBlock x \<Rightarrow> Some (TextBlock (x @ t)) | _ \<Rightarrow> None)"
| "client_step c (JsonDelta i t) =
     extend_block c i (\<lambda>b. case b of ToolBlock tid name x \<Rightarrow> Some (ToolBlock tid name (x @ t)) | _ \<Rightarrow> None)"
| "client_step c (BlockStop i) =
     (if cl_phase c = 1 \<and> i = int (cl_stopped c) \<and> cl_stopped c < length (cl_blocks c)
      then Some (c\<lparr>cl_stopped := Suc (cl_stopped c)\<rparr>) else None)"
| "client_step c (MessageDelta r s u) =
     (if cl_phase c = 1 \<and> cl_stopped c = length (cl_blocks c) then Some (c\<lparr>cl_phase := 2, cl_reason := r\<rparr>) else None)"
| "client_step c (Extension x) = (if cl_phase c = 2 then Some c else None)"
| "client_step c MessageStop = (if cl_phase c = 2 then Some (c\<lparr>cl_phase := 3\<rparr>) else None)"

definition client_run :: "sse list \<Rightarrow> client option" where
  "client_run es = foldl (\<lambda>co e. Option.bind co (\<lambda>c. client_step c e)) (Some new_client) es"

definition block_text :: "block \<Rightarrow> string" where
  "block_text b = (case b of TextBlock t \<Rightarrow> t | ToolBlock _ _ _ \<Rightarrow> [])"

definition client_text :: "client \<Rightarrow> string" where
  "client_text c = concat (map block_text (cl_blocks c))"

text \<open>What a stream of chunks says: the text of choice 0, and for each tool call its id, name and arguments.\<close>

definition choice_text :: "stream_choice \<Rightarrow> string" where
  "choice_text c = (if sc_index c \<noteq> 0 then [] else case sc_delta c of None \<Rightarrow> [] | Some d \<Rightarrow> sd_content d)"

definition choice_calls :: "stream_choice \<Rightarrow> tool_call list" where
  "choice_calls c = (if sc_index c \<noteq> 0 then [] else case sc_delta c of None \<Rightarrow> [] | Some d \<Rightarrow> sd_tools d)"

definition chunk_text :: "stream_chunk option \<Rightarrow> string" where
  "chunk_text co = (case co of None \<Rightarrow> [] | Some c \<Rightarrow> concat (map choice_text (chunk_choices c)))"

definition chunk_calls :: "stream_chunk option \<Rightarrow> tool_call list" where
  "chunk_calls co = (case co of None \<Rightarrow> [] | Some c \<Rightarrow> concat (map choice_calls (chunk_choices c)))"

definition call_key :: "tool_call \<Rightarrow> int" where
  "call_key c = (case tc_index c of Some i \<Rightarrow> i | None \<Rightarrow> 0)"

definition call_text :: "(tool_call \<Rightarrow> string) \<Rightarrow> int \<Rightarrow> tool_call list \<Rightarrow> string" where
  "call_text f k cs = concat (map f (filter (\<lambda>c. call_key c = k) cs))"

section \<open>Lemmas\<close>

lemma and_then_None: "and_then r f = (None, s') \<longleftrightarrow> (\<exists>s. r = (None, s) \<and> f s = (None, s'))"
  by (auto simp: and_then_def split: prod.splits option.splits)

lemma emit_sse_None: "emit_sse wfail e s = (None, s') \<Longrightarrow> s' = s\<lparr>en_out := en_out s @ [e]\<rparr>"
  by (simp add: emit_sse_def split: if_splits)

lemma client_run_snoc: "client_run (es @ [e]) = Option.bind (client_run es) (\<lambda>c. client_step c e)"
  by (simp add: client_run_def)

lemma call_text_append: "call_text f k (cs @ ds) = call_text f k cs @ call_text f k ds"
  by (simp add: call_text_def)

lemma call_text_one: "call_text f k [c] = (if call_key c = k then f c else [])"
  by (simp add: call_text_def)

subsection \<open>Tools and blocks\<close>

text \<open>
  The tools \<open>m\<close> against the blocks of the client and the calls so far: each tool holds what its calls said, a
  started tool has a block of its own that says the same, and no other block is a tool's.
\<close>

definition tool_ok :: "block list \<Rightarrow> tool_call list \<Rightarrow> int \<Rightarrow> stream_tool \<Rightarrow> bool" where
  "tool_ok bs calls k t \<longleftrightarrow>
     tl_id t = call_text tc_id k calls \<and> tl_name t = call_text tc_name k calls \<and> tl_args t = call_text tc_args k calls
     \<and> (if tl_started t
        then 0 \<le> tl_index t \<and> tl_index t < int (length bs)
             \<and> bs ! nat (tl_index t) = ToolBlock (tl_id t) (tl_name t) (tl_args t)
        else tl_args t = [])"

definition is_tool_at :: "block list \<Rightarrow> nat \<Rightarrow> bool" where
  "is_tool_at bs i \<longleftrightarrow> i < length bs \<and> (case bs ! i of ToolBlock _ _ _ \<Rightarrow> True | TextBlock _ \<Rightarrow> False)"

definition tools_inv :: "block list \<Rightarrow> tool_call list \<Rightarrow> (int \<rightharpoonup> stream_tool) \<Rightarrow> bool" where
  "tools_inv bs calls m \<longleftrightarrow>
     (\<forall>k t. m k = Some t \<longrightarrow> tool_ok bs calls k t) \<and> dom m = call_key ` set calls
     \<and> (\<forall>k k' t t'. m k = Some t \<longrightarrow> m k' = Some t' \<longrightarrow> tl_started t \<longrightarrow> tl_started t'
          \<longrightarrow> tl_index t = tl_index t' \<longrightarrow> k = k')
     \<and> (\<forall>i. is_tool_at bs i \<longrightarrow> (\<exists>k t. m k = Some t \<and> tl_started t \<and> tl_index t = int i))"

lemma tools_inv_empty: "tools_inv [] [] Map.empty"
  by (simp add: tools_inv_def is_tool_at_def)

lemma is_tool_at_snoc:
  "is_tool_at (bs @ [b]) i \<longleftrightarrow> is_tool_at bs i \<or> (i = length bs \<and> (case b of ToolBlock _ _ _ \<Rightarrow> True | TextBlock _ \<Rightarrow> False))"
  by (auto simp: is_tool_at_def nth_append)

lemma tool_ok_snoc: "tool_ok bs calls k t \<Longrightarrow> tool_ok (bs @ [b]) calls k t"
  by (auto simp: tool_ok_def nth_append split: if_splits)

lemma tools_inv_text_start: "tools_inv bs calls m \<Longrightarrow> tools_inv (bs @ [TextBlock x]) calls m"
  unfolding tools_inv_def is_tool_at_snoc by (auto intro: tool_ok_snoc)

lemma tools_inv_text:
  assumes "tools_inv (bs @ [TextBlock x]) calls m"
  shows "tools_inv (bs @ [TextBlock y]) calls m"
proof -
  have "tool_ok (bs @ [TextBlock y]) calls k t" if "tool_ok (bs @ [TextBlock x]) calls k t" for k t
    using that by (auto simp: tool_ok_def nth_append split: if_splits)
  then show ?thesis using assms unfolding tools_inv_def is_tool_at_snoc by auto
qed

lemma call_text_new: "m (k :: int) = None \<Longrightarrow> dom m = call_key ` set calls \<Longrightarrow> call_text f k calls = []"
  by (auto simp: call_text_def filter_empty_conv)

text \<open>The shared step: one tool changes, the others keep their blocks.\<close>

lemma tools_inv_update:
  assumes inv: "tools_inv bs calls m" and new: "tool_ok bs' calls' k t'"
    and other: "\<And>k1 t1. m k1 = Some t1 \<Longrightarrow> k1 \<noteq> k \<Longrightarrow> tool_ok bs' calls' k1 t1"
    and calls: "call_key ` set calls' = insert k (call_key ` set calls)"
    and keep: "\<And>t. m k = Some t \<Longrightarrow> tl_started t \<Longrightarrow> tl_started t' \<and> tl_index t' = tl_index t"
    and slot: "\<And>k1 t1. m k1 = Some t1 \<Longrightarrow> k1 \<noteq> k \<Longrightarrow> tl_started t1 \<Longrightarrow> tl_started t' \<Longrightarrow> tl_index t1 \<noteq> tl_index t'"
    and blocks: "\<And>i. is_tool_at bs' i \<Longrightarrow> is_tool_at bs i \<or> (tl_started t' \<and> tl_index t' = int i)"
  shows "tools_inv bs' calls' (m(k \<mapsto> t'))"
proof -
  let ?m = "m(k \<mapsto> t')"
  have oks: "tool_ok bs' calls' k1 t1" if "?m k1 = Some t1" for k1 t1
    using that new other by (cases "k1 = k") auto
  have known: "dom ?m = call_key ` set calls'" using calls inv unfolding tools_inv_def by simp
  have slots: "k1 = k2" if "?m k1 = Some t1" "?m k2 = Some t2" "tl_started t1" "tl_started t2" "tl_index t1 = tl_index t2"
    for k1 k2 t1 t2
  proof -
    consider "k1 = k" "k2 = k" | "k1 = k" "k2 \<noteq> k" | "k1 \<noteq> k" "k2 = k" | "k1 \<noteq> k" "k2 \<noteq> k" by blast
    then show ?thesis
    proof cases
      case 1
      then show ?thesis by simp
    next
      case 2
      then show ?thesis using slot [of k2 t2] that by auto
    next
      case 3
      then show ?thesis using slot [of k1 t1] that by auto
    next
      case 4
      then have "m k1 = Some t1" "m k2 = Some t2" using that by auto
      then show ?thesis using inv that(3-5) unfolding tools_inv_def by blast
    qed
  qed
  have owned: "\<exists>k1 t1. ?m k1 = Some t1 \<and> tl_started t1 \<and> tl_index t1 = int i" if i: "is_tool_at bs' i" for i
  proof (cases "is_tool_at bs i")
    case True
    then obtain k1 t1 where 1: "m k1 = Some t1" "tl_started t1" "tl_index t1 = int i"
      using inv unfolding tools_inv_def by blast
    show ?thesis
    proof (cases "k1 = k")
      case True
      then show ?thesis using keep 1 by auto
    next
      case False
      then show ?thesis using 1 by auto
    qed
  next
    case False
    then show ?thesis using blocks [OF i] by auto
  qed
  show ?thesis unfolding tools_inv_def using oks known slots owned by blast
qed

text \<open>A call without arguments: the tool, possibly new, gets its id and name.\<close>

lemma tools_inv_name:
  assumes inv: "tools_inv bs calls m" and key: "call_key c = k" and args: "tc_args c = []"
    and t: "t = (case m k of Some t \<Rightarrow> t | None \<Rightarrow> empty_tool)"
    and same: "tl_started t \<Longrightarrow> tc_id c = [] \<and> tc_name c = []"
  shows "tools_inv bs (calls @ [c]) (m(k \<mapsto> t\<lparr>tl_id := tl_id t @ tc_id c, tl_name := tl_name t @ tc_name c\<rparr>))"
proof -
  have t_ok: "tool_ok bs calls k t"
  proof (cases "m k")
    case None
    then have "call_text f k calls = []" for f using inv call_text_new unfolding tools_inv_def by blast
    then show ?thesis using None t by (simp add: tool_ok_def empty_tool_def)
  next
    case (Some t')
    then show ?thesis using inv t unfolding tools_inv_def by simp
  qed
  have new: "tool_ok bs (calls @ [c]) k (t\<lparr>tl_id := tl_id t @ tc_id c, tl_name := tl_name t @ tc_name c\<rparr>)"
    using t_ok key args same by (auto simp: tool_ok_def call_text_append call_text_one)
  have other: "tool_ok bs (calls @ [c]) k' t'" if "m k' = Some t'" "k' \<noteq> k" for k' t'
  proof -
    have "tool_ok bs calls k' t'" using inv that(1) unfolding tools_inv_def by blast
    then show ?thesis using that(2) key by (auto simp: tool_ok_def call_text_append call_text_one)
  qed
  have started: "m k = Some t" if "tl_started t"
    using that t by (cases "m k") (simp_all add: empty_tool_def)
  have slot: "tl_index t1 \<noteq> tl_index t" if "m k1 = Some t1" "k1 \<noteq> k" "tl_started t1" "tl_started t" for k1 t1
    using inv that started [OF that(4)] unfolding tools_inv_def by blast
  show ?thesis
    by (rule tools_inv_update [OF inv new other]) (use key t slot in auto)
qed

text \<open>Starting a tool opens a block for it.\<close>

lemma tools_inv_start:
  assumes inv: "tools_inv bs calls m" and t: "m k = Some t" "\<not> tl_started t"
  shows "tools_inv (bs @ [ToolBlock (tl_id t) (tl_name t) []]) calls
    (m(k \<mapsto> t\<lparr>tl_index := int (length bs), tl_started := True\<rparr>))"
proof -
  have ok: "tool_ok bs calls k t" using inv t unfolding tools_inv_def by blast
  then have new: "tool_ok (bs @ [ToolBlock (tl_id t) (tl_name t) []]) calls k
      (t\<lparr>tl_index := int (length bs), tl_started := True\<rparr>)"
    using t(2) by (auto simp: tool_ok_def)
  have below: "tl_index t' < int (length bs)" if "m k' = Some t'" "tl_started t'" for k' t'
    using inv that unfolding tools_inv_def tool_ok_def by fastforce
  show ?thesis
  proof (rule tools_inv_update [OF inv new])
    show "tool_ok (bs @ [ToolBlock (tl_id t) (tl_name t) []]) calls k1 t1" if "m k1 = Some t1" for k1 t1
      using inv that unfolding tools_inv_def by (blast intro: tool_ok_snoc)
    show "tl_index t1 \<noteq> tl_index (t\<lparr>tl_index := int (length bs), tl_started := True\<rparr>)"
      if "m k1 = Some t1" "tl_started t1" for k1 t1
      using below [OF that] by simp
    have "k \<in> call_key ` set calls" using inv t(1) unfolding tools_inv_def by blast
    then show "call_key ` set calls = insert k (call_key ` set calls)" by blast
  qed (use t in \<open>auto simp: is_tool_at_snoc\<close>)
qed

text \<open>Arguments of a started tool extend its block.\<close>

lemma tools_inv_args:
  assumes inv: "tools_inv bs calls m" and t: "m k = Some t" "tl_started t"
    and c: "call_key c = k" "tc_id c = []" "tc_name c = []"
  shows "tools_inv (bs[nat (tl_index t) := ToolBlock (tl_id t) (tl_name t) (tl_args t @ tc_args c)]) (calls @ [c])
    (m(k \<mapsto> t\<lparr>tl_args := tl_args t @ tc_args c\<rparr>))"
proof -
  let ?bs = "bs[nat (tl_index t) := ToolBlock (tl_id t) (tl_name t) (tl_args t @ tc_args c)]"
  have ok: "tool_ok bs calls k t" using inv t(1) unfolding tools_inv_def by blast
  have new: "tool_ok ?bs (calls @ [c]) k (t\<lparr>tl_args := tl_args t @ tc_args c\<rparr>)"
    using ok t(2) c by (auto simp: tool_ok_def call_text_append call_text_one)
  have other: "tool_ok ?bs (calls @ [c]) k' t'" if k': "m k' = Some t'" "k' \<noteq> k" for k' t'
  proof -
    have "tool_ok bs calls k' t'" using inv k'(1) unfolding tools_inv_def by blast
    moreover have "nat (tl_index t') \<noteq> nat (tl_index t)" if "tl_started t'"
    proof -
      have "tl_index t' \<noteq> tl_index t" using inv t k' that unfolding tools_inv_def by metis
      moreover have "0 \<le> tl_index t'" "0 \<le> tl_index t"
        using \<open>tool_ok bs calls k' t'\<close> ok t(2) that by (auto simp: tool_ok_def)
      ultimately show ?thesis by simp
    qed
    ultimately show ?thesis using k'(2) c by (auto simp: tool_ok_def call_text_append call_text_one)
  qed
  have "bs ! nat (tl_index t) = ToolBlock (tl_id t) (tl_name t) (tl_args t)" "nat (tl_index t) < length bs"
    using ok t(2) by (auto simp: tool_ok_def)
  then have same: "is_tool_at ?bs i \<longleftrightarrow> is_tool_at bs i" for i
    by (cases "i = nat (tl_index t)") (auto simp: is_tool_at_def)
  have slot: "tl_index t1 \<noteq> tl_index t" if "m k1 = Some t1" "k1 \<noteq> k" "tl_started t1" for k1 t1
    using inv that t unfolding tools_inv_def by blast
  show ?thesis
    by (rule tools_inv_update [OF inv new other]) (use t c slot same in auto)
qed

text \<open>A call with arguments is a call that names the tool followed by one that has only the arguments.\<close>

lemma call_text_split:
  "call_text f k (calls @ [c\<lparr>tc_args := []\<rparr>, c\<lparr>tc_id := [], tc_name := []\<rparr>])
   = call_text f k (calls @ [c])" if "f \<in> {tc_id, tc_name, tc_args}"
  using that by (auto simp: call_text_def call_key_def)

lemma tools_inv_split:
  "tools_inv bs (calls @ [c\<lparr>tc_args := []\<rparr>, c\<lparr>tc_id := [], tc_name := []\<rparr>]) m = tools_inv bs (calls @ [c]) m"
  unfolding tools_inv_def tool_ok_def by (simp add: call_text_split) (simp add: call_key_def)

subsection \<open>The invariant of a stream\<close>

text \<open>
  The encoder \<open>s\<close> against the client \<open>c\<close> that has read its output, when the chunks so far have said \<open>text\<close>
  and made the tool calls \<open>calls\<close>.
\<close>

definition stream_inv :: "string \<Rightarrow> tool_call list \<Rightarrow> encoder \<Rightarrow> client \<Rightarrow> bool" where
  "stream_inv text calls s c \<longleftrightarrow>
     client_run (en_out s) = Some c \<and> cl_phase c = (if en_started s then 1 else 0) \<and> cl_stopped c = 0
     \<and> en_next s = int (length (cl_blocks c)) \<and> client_text c = text
     \<and> (0 \<le> en_text s \<longrightarrow> (\<exists>bs x. cl_blocks c = bs @ [TextBlock x] \<and> en_text s = int (length bs)))
     \<and> tools_inv (cl_blocks c) calls (map_of (en_tools s)) \<and> distinct (map fst (en_tools s))"

lemma stream_inv_new: "stream_inv [] [] (new_encoder alias) new_client"
  by (simp add: stream_inv_def new_encoder_def new_client_def client_run_def client_text_def tools_inv_empty)

lemma start_message_inv:
  assumes "start_message wfail u s = (None, s')" "stream_inv text calls s c"
  shows "\<exists>c'. stream_inv text calls s' c' \<and> en_started s' \<and> en_tools s' = en_tools s \<and> en_next s' = en_next s
    \<and> en_finish s' = en_finish s"
proof (cases "en_started s")
  case True
  then show ?thesis using assms by (auto simp: start_message_def)
next
  case False
  then have "s' = s\<lparr>en_started := True, en_out := en_out s @
      [MessageStart (en_alias s) ((usage_from_chat u)\<lparr>an_output := 0\<rparr>)]\<rparr>"
    using assms(1) by (auto simp: start_message_def dest: emit_sse_None)
  then show ?thesis
    using assms(2) False
    by (intro exI [of _ "c\<lparr>cl_phase := 1\<rparr>"]) (simp add: stream_inv_def client_run_snoc client_text_def)
qed

lemma emit_text_inv:
  assumes inv: "stream_inv text calls s c" and start: "en_started s" and open_text: "0 \<le> en_text s"
    and emit: "emit_sse wfail (TextDelta (en_text s) x) s = (None, s')"
  shows "\<exists>c'. stream_inv (text @ x) calls s' c' \<and> en_started s'"
proof -
  obtain bs y where bs: "cl_blocks c = bs @ [TextBlock y]" "en_text s = int (length bs)"
    using inv open_text unfolding stream_inv_def by blast
  have s': "s' = s\<lparr>en_out := en_out s @ [TextDelta (en_text s) x]\<rparr>" using emit_sse_None [OF emit] .
  let ?c = "c\<lparr>cl_blocks := bs @ [TextBlock (y @ x)]\<rparr>"
  have "client_step c (TextDelta (en_text s) x) = Some ?c"
    using inv start bs by (simp add: stream_inv_def extend_block_def)
  moreover have "client_text ?c = text @ x"
    using inv bs by (simp add: stream_inv_def client_text_def block_text_def)
  moreover have "tools_inv (bs @ [TextBlock (y @ x)]) calls (map_of (en_tools s))"
    using inv bs(1) tools_inv_text unfolding stream_inv_def by metis
  ultimately show ?thesis
    using inv start bs s' by (intro exI [of _ ?c]) (simp add: stream_inv_def client_run_snoc)
qed

lemma write_text_inv:
  assumes "write_text wfail x s = (None, s')" "stream_inv text calls s c" "en_started s"
  shows "\<exists>c'. stream_inv (text @ x) calls s' c' \<and> en_started s'"
proof (cases "x = []")
  case True
  then show ?thesis using assms by (auto simp: write_text_def)
next
  case False
  show ?thesis
  proof (cases "en_text s < 0")
    case True
    let ?s1 = "s\<lparr>en_text := en_next s, en_next := en_next s + 1, en_out := en_out s @ [TextStart (en_next s)]\<rparr>"
    let ?c1 = "c\<lparr>cl_blocks := cl_blocks c @ [TextBlock []]\<rparr>"
    obtain s1 where s1: "emit_sse wfail (TextStart (en_next s)) (s\<lparr>en_text := en_next s, en_next := en_next s + 1\<rparr>) = (None, s1)"
      "emit_sse wfail (TextDelta (en_text s1) x) s1 = (None, s')"
      using assms(1) False True by (auto simp: write_text_def and_then_None)
    have "s1 = ?s1" using emit_sse_None [OF s1(1)] by simp
    with s1(2) have emit: "emit_sse wfail (TextDelta (en_text ?s1) x) ?s1 = (None, s')" by simp
    have "stream_inv text calls ?s1 ?c1"
      using assms(2,3) tools_inv_text_start [of "cl_blocks c" calls "map_of (en_tools s)" "[]"]
      by (simp add: stream_inv_def client_run_snoc open_block_def client_text_def block_text_def)
    then show ?thesis
      by (rule emit_text_inv [OF _ _ _ emit]) (use assms(2,3) in \<open>simp_all add: stream_inv_def\<close>)
  next
    case nonneg: False
    then show ?thesis
      using assms False nonneg emit_text_inv [of "text" calls s c wfail x s'] by (simp add: write_text_def and_then_None)
  qed
qed

lemma stream_inv_tools:
  "stream_inv text calls s c \<Longrightarrow> tools_inv (cl_blocks c) calls (map_of (en_tools s))"
  by (simp add: stream_inv_def)

lemma put_tool_inv:
  assumes "stream_inv text calls s c" "tools_inv (cl_blocks c) calls' ((map_of (en_tools s))(k \<mapsto> t))"
  shows "stream_inv text calls' (put_tool k t s) c"
  using assms by (simp add: stream_inv_def put_tool_def distinct_alist_put)

lemma start_tool_inv:
  assumes "start_tool wfail k t s = (t', None, s')" "stream_inv text calls s c" "en_started s"
    "map_of (en_tools s) k = Some t"
  shows "\<exists>c'. stream_inv text calls s' c' \<and> en_started s' \<and> tl_started t' \<and> map_of (en_tools s') k = Some t'
    \<and> (\<forall>k'. k' \<noteq> k \<longrightarrow> map_of (en_tools s') k' = map_of (en_tools s) k') \<and> en_finish s' = en_finish s"
proof (cases "tl_started t")
  case True
  then show ?thesis using assms by (auto simp: start_tool_def)
next
  case False
  let ?t = "t\<lparr>tl_index := en_next s, tl_started := True\<rparr>"
  let ?c = "c\<lparr>cl_blocks := cl_blocks c @ [ToolBlock (tl_id t) (tl_name t) []]\<rparr>"
  have eqs: "t' = ?t" "emit_sse wfail (ToolStart (en_next s) (tl_id t) (tl_name t))
      ((put_tool k ?t s)\<lparr>en_next := en_next s + 1, en_text := -1\<rparr>) = (None, s')"
    using assms(1) False by (auto simp: start_tool_def Let_def split: if_splits)
  have s': "s' = (put_tool k ?t s)\<lparr>en_next := en_next s + 1, en_text := -1,
      en_out := en_out s @ [ToolStart (en_next s) (tl_id t) (tl_name t)]\<rparr>"
    using emit_sse_None [OF eqs(2)] by (simp add: put_tool_def)
  have next_eq: "en_next s = int (length (cl_blocks c))" using assms(2) by (simp add: stream_inv_def)
  have "tools_inv (cl_blocks ?c) calls ((map_of (en_tools s))(k \<mapsto> ?t))"
    using tools_inv_start [OF stream_inv_tools [OF assms(2)] assms(4) False] by (simp add: next_eq)
  then have "stream_inv text calls s' ?c"
    using assms(2,3) s'
    by (simp add: stream_inv_def client_run_snoc open_block_def client_text_def block_text_def put_tool_def
        distinct_alist_put)
  then show ?thesis using s' eqs(1) assms(3) by (intro exI [of _ ?c]) (simp add: put_tool_def)
qed

lemma write_args_inv:
  assumes emit: "emit_sse wfail (JsonDelta (tl_index t) (tc_args d)) (put_tool k (t\<lparr>tl_args := tl_args t @ tc_args d\<rparr>) s)
      = (None, s')"
    and inv: "stream_inv text calls s c" "en_started s" and t: "map_of (en_tools s) k = Some t" "tl_started t"
    and d: "call_key d = k" "tc_id d = []" "tc_name d = []"
  shows "\<exists>c'. stream_inv text (calls @ [d]) s' c' \<and> en_started s' \<and> en_finish s' = en_finish s"
proof -
  let ?t = "t\<lparr>tl_args := tl_args t @ tc_args d\<rparr>"
  let ?i = "nat (tl_index t)"
  let ?c = "c\<lparr>cl_blocks := (cl_blocks c)[?i := ToolBlock (tl_id t) (tl_name t) (tl_args t @ tc_args d)]\<rparr>"
  have s': "s' = (put_tool k ?t s)\<lparr>en_out := en_out s @ [JsonDelta (tl_index t) (tc_args d)]\<rparr>"
    using emit_sse_None [OF emit] by (simp add: put_tool_def)
  have ok: "tool_ok (cl_blocks c) calls k t"
    using stream_inv_tools [OF inv(1)] t(1) unfolding tools_inv_def by blast
  then have i: "0 \<le> tl_index t" "?i < length (cl_blocks c)"
    "cl_blocks c ! ?i = ToolBlock (tl_id t) (tl_name t) (tl_args t)"
    using t(2) by (auto simp: tool_ok_def)
  have step: "client_step c (JsonDelta (tl_index t) (tc_args d)) = Some ?c"
    using inv i by (simp add: stream_inv_def extend_block_def)
  have same_text: "client_text ?c = client_text c"
  proof -
    have "map block_text (cl_blocks ?c) = map block_text (cl_blocks c)"
      using i by (simp add: map_update block_text_def list_update_same_conv)
    then show ?thesis by (simp add: client_text_def)
  qed
  have last_text: "\<exists>bs x. cl_blocks ?c = bs @ [TextBlock x] \<and> en_text s = int (length bs)" if pos: "0 \<le> en_text s"
  proof -
    obtain bs x where bs: "cl_blocks c = bs @ [TextBlock x]" "en_text s = int (length bs)"
      using inv(1) pos unfolding stream_inv_def by blast
    have "?i < length bs" using i bs(1) by (cases "?i = length bs") auto
    then show ?thesis using bs by (intro exI [of _ "bs[?i := ToolBlock (tl_id t) (tl_name t) (tl_args t @ tc_args d)]"]) (simp add: list_update_append)
  qed
  have "tools_inv (cl_blocks ?c) (calls @ [d]) ((map_of (en_tools s))(k \<mapsto> ?t))"
    using tools_inv_args [OF stream_inv_tools [OF inv(1)] t d] by simp
  then have "stream_inv text (calls @ [d]) s' ?c"
    using inv step same_text last_text s' by (simp add: stream_inv_def client_run_snoc put_tool_def distinct_alist_put)
  then show ?thesis using s' inv(2) by (intro exI [of _ ?c]) (simp add: put_tool_def)
qed

lemma write_tool_call_inv:
  assumes run: "write_tool_call wfail d s = (None, s')" and inv: "stream_inv text calls s c" "en_started s"
  shows "\<exists>c'. stream_inv text (calls @ [d]) s' c' \<and> en_started s'"
proof -
  define k where "k = call_key d"
  define t where "t = (case map_of (en_tools s) k of Some t \<Rightarrow> t | None \<Rightarrow> empty_tool)"
  define t1 where "t1 = t\<lparr>tl_id := tl_id t @ tc_id d, tl_name := tl_name t @ tc_name d\<rparr>"
  define r where "r = start_tool wfail k t1 (put_tool k t1 s)"
  let ?head = "d\<lparr>tc_args := []\<rparr>" and ?tail = "d\<lparr>tc_id := [], tc_name := []\<rparr>"
  have same: "tc_id d = [] \<and> tc_name d = []" if "tl_started t"
    using run that unfolding write_tool_call_def k_def t_def call_key_def Let_def by (auto split: if_splits)
  have body: "(if tc_args d = [] then (None, put_tool k t1 s) else case r of (t2, r) \<Rightarrow> and_then r (\<lambda>s2.
      emit_sse wfail (JsonDelta (tl_index t2) (tc_args d)) (put_tool k (t2\<lparr>tl_args := tl_args t2 @ tc_args d\<rparr>) s2)))
    = (None, s')"
    using run same unfolding write_tool_call_def r_def t1_def k_def t_def call_key_def Let_def
    by (auto split: if_splits)
  have named: "tools_inv (cl_blocks c) (calls @ [?head]) ((map_of (en_tools s))(k \<mapsto> t1))"
    unfolding t1_def using tools_inv_name [OF stream_inv_tools [OF inv(1)], of ?head k t] same
    by (simp add: k_def t_def call_key_def)
  then have inv1: "stream_inv text (calls @ [?head]) (put_tool k t1 s) c" by (rule put_tool_inv [OF inv(1)])
  show ?thesis
  proof (cases "tc_args d = []")
    case True
    then have "?head = d" by simp
    then have "stream_inv text (calls @ [d]) (put_tool k t1 s) c" using inv1 by (simp only:)
    moreover have "s' = put_tool k t1 s" using body True by simp
    ultimately show ?thesis using inv(2) by (auto simp: put_tool_def)
  next
    case False
    then obtain t2 s2 where r: "r = (t2, None, s2)"
      and emit: "emit_sse wfail (JsonDelta (tl_index t2) (tc_args d)) (put_tool k (t2\<lparr>tl_args := tl_args t2 @ tc_args d\<rparr>) s2)
        = (None, s')"
      using body by (auto simp: and_then_None split: prod.splits)
    obtain c2 where c2: "stream_inv text (calls @ [?head]) s2 c2" "en_started s2" "tl_started t2"
      "map_of (en_tools s2) k = Some t2"
      using start_tool_inv [OF r [unfolded r_def] inv1] inv(2) by (auto simp: put_tool_def)
    obtain c3 where c3: "stream_inv text ((calls @ [?head]) @ [?tail]) s' c3" "en_started s'"
      using write_args_inv [of wfail t2 ?tail k s2 s', OF _ c2(1,2,4,3)] emit by (auto simp: k_def call_key_def)
    have "stream_inv text (calls @ [d]) s' c3"
      using c3(1) unfolding stream_inv_def by (simp add: tools_inv_split)
    then show ?thesis using c3(2) by blast
  qed
qed

lemma write_tool_calls_inv:
  assumes "write_tool_calls wfail ds s = (None, s')" "stream_inv text calls s c" "en_started s"
  shows "\<exists>c'. stream_inv text (calls @ ds) s' c' \<and> en_started s'"
  using assms
proof (induction ds arbitrary: s calls c)
  case Nil
  then show ?case by auto
next
  case (Cons d ds)
  obtain s1 where s1: "write_tool_call wfail d s = (None, s1)" "write_tool_calls wfail ds s1 = (None, s')"
    using Cons.prems(1) by (auto simp: and_then_None)
  obtain c1 where "stream_inv text (calls @ [d]) s1 c1" "en_started s1"
    using write_tool_call_inv [OF s1(1) Cons.prems(2,3)] by blast
  then show ?case using Cons.IH [OF s1(2)] by fastforce
qed

lemma stream_inv_finish: "stream_inv text calls (s\<lparr>en_finish := f, en_stop := x\<rparr>) c = stream_inv text calls s c"
  by (simp add: stream_inv_def)

lemma write_choice_inv:
  assumes "write_choice wfail d s = (None, s')" "stream_inv text calls s c" "en_started s"
  shows "\<exists>c'. stream_inv (text @ choice_text d) (calls @ choice_calls d) s' c' \<and> en_started s'"
proof -
  define s1 where "s1 = (if sc_finish d \<noteq> [] then s\<lparr>en_finish := sc_finish d, en_stop := sc_stop d\<rparr> else s)"
  have s1: "stream_inv text calls s1 c" "en_started s1"
    using assms(2,3) by (simp_all add: s1_def stream_inv_finish)
  show ?thesis
  proof (cases "sc_index d = 0 \<and> sc_delta d \<noteq> None")
    case False
    then show ?thesis
      using assms s1 by (auto simp: write_choice_def choice_text_def choice_calls_def s1_def split: option.splits if_splits)
  next
    case True
    then obtain x where x: "sc_delta d = Some x" by blast
    obtain s2 where s2: "write_text wfail (sd_content x) s1 = (None, s2)" "write_tool_calls wfail (sd_tools x) s2 = (None, s')"
      using assms(1) True x by (auto simp: write_choice_def Let_def and_then_None s1_def)
    obtain c2 where "stream_inv (text @ sd_content x) calls s2 c2" "en_started s2"
      using write_text_inv [OF s2(1) s1] by blast
    then show ?thesis
      using write_tool_calls_inv [OF s2(2)] True x by (simp add: choice_text_def choice_calls_def)
  qed
qed

lemma write_choices_inv:
  assumes "write_choices wfail ds s = (None, s')" "stream_inv text calls s c" "en_started s"
  shows "\<exists>c'. stream_inv (text @ concat (map choice_text ds)) (calls @ concat (map choice_calls ds)) s' c' \<and> en_started s'"
  using assms
proof (induction ds arbitrary: s "text" calls c)
  case Nil
  then show ?case by auto
next
  case (Cons d ds)
  obtain s1 where s1: "write_choice wfail d s = (None, s1)" "write_choices wfail ds s1 = (None, s')"
    using Cons.prems(1) by (auto simp: and_then_None)
  obtain c1 where "stream_inv (text @ choice_text d) (calls @ choice_calls d) s1 c1" "en_started s1"
    using write_choice_inv [OF s1(1) Cons.prems(2,3)] by blast
  then show ?case using Cons.IH [OF s1(2)] by fastforce
qed

lemma write_chunk_inv:
  assumes "write_chunk wfail d s = (None, s')" "stream_inv text calls s c"
  shows "\<exists>c'. stream_inv (text @ chunk_text d) (calls @ chunk_calls d) s' c'"
proof -
  obtain x where x: "d = Some x" using assms(1) by (cases d) (simp_all add: write_chunk_def)
  obtain s1 where s1: "start_message wfail (chunk_usage x) s = (None, s1)"
    "write_choices wfail (chunk_choices x) s1 = (None, s')"
    using assms(1) x by (auto simp: write_chunk_def and_then_None)
  obtain c1 where "stream_inv text calls s1 c1" "en_started s1"
    using start_message_inv [OF s1(1) assms(2)] by blast
  then show ?thesis
    using write_choices_inv [OF s1(2)] x by (fastforce simp: chunk_text_def chunk_calls_def)
qed

lemma write_chunks_inv:
  assumes "write_chunks wfail ds s = (None, s')" "stream_inv text calls s c"
  shows "\<exists>c'. stream_inv (text @ concat (map chunk_text ds)) (calls @ concat (map chunk_calls ds)) s' c'"
  using assms
proof (induction ds arbitrary: s "text" calls c)
  case Nil
  then show ?case by auto
next
  case (Cons d ds)
  obtain s1 where s1: "write_chunk wfail d s = (None, s1)" "write_chunks wfail ds s1 = (None, s')"
    using Cons.prems(1) by (auto simp: and_then_None)
  obtain c1 where "stream_inv (text @ chunk_text d) (calls @ chunk_calls d) s1 c1"
    using write_chunk_inv [OF s1(1) Cons.prems(2)] by blast
  then show ?case using Cons.IH [OF s1(2)] by fastforce
qed

subsection \<open>The end of a stream\<close>

lemma finish_tools_inv:
  assumes "finish_tools lib wfail ts s = (None, s')" "stream_inv text calls s c" "en_started s"
    "distinct (map fst ts)" "\<forall>(k, t) \<in> set ts. map_of (en_tools s) k = Some t"
  shows "\<exists>c'. stream_inv text calls s' c' \<and> en_started s'
    \<and> (\<forall>k. if k \<in> fst ` set ts
           then \<exists>t. map_of (en_tools s') k = Some t \<and> tl_started t
           else map_of (en_tools s') k = map_of (en_tools s) k)"
  using assms
proof (induction ts arbitrary: s c)
  case Nil
  then show ?case by auto
next
  case (Cons kt ts)
  obtain k t where kt: "kt = (k, t)" by (cases kt)
  obtain t1 s1 where s1: "start_tool wfail k t s = (t1, None, s1)" "finish_tools lib wfail ts s1 = (None, s')"
    using Cons.prems(1) by (cases "start_tool wfail k t s") (auto simp: kt and_then_None split: if_splits)
  obtain c1 where c1: "stream_inv text calls s1 c1" "en_started s1" "tl_started t1" "map_of (en_tools s1) k = Some t1"
    and same: "\<And>k'. k' \<noteq> k \<Longrightarrow> map_of (en_tools s1) k' = map_of (en_tools s) k'"
    using start_tool_inv [OF s1(1) Cons.prems(2,3)] Cons.prems(5) by (auto simp: kt)
  have k: "k \<notin> fst ` set ts" and "distinct (map fst ts)" using Cons.prems(4) by (auto simp: kt)
  have current: "\<forall>(k', t') \<in> set ts. map_of (en_tools s1) k' = Some t'"
  proof clarify
    fix k' t' assume in_ts: "(k', t') \<in> set ts"
    then have "k' \<noteq> k" using k by force
    then show "map_of (en_tools s1) k' = Some t'" using same Cons.prems(5) in_ts by fastforce
  qed
  obtain c' where c': "stream_inv text calls s' c'" "en_started s'"
    and tools: "\<And>k'. if k' \<in> fst ` set ts then \<exists>t. map_of (en_tools s') k' = Some t \<and> tl_started t
      else map_of (en_tools s') k' = map_of (en_tools s1) k'"
    using Cons.IH [OF s1(2) c1(1,2) \<open>distinct (map fst ts)\<close> current] by blast
  have "if k' \<in> fst ` set (kt # ts) then \<exists>t. map_of (en_tools s') k' = Some t \<and> tl_started t
      else map_of (en_tools s') k' = map_of (en_tools s) k'" for k'
    using tools [of k'] c1(3,4) same [of k'] k by (cases "k' = k") (auto simp: kt)
  then show ?case using c' by blast
qed

lemma emit_all_None: "emit_all wfail es s = (None, s') \<Longrightarrow> s' = s\<lparr>en_out := en_out s @ es\<rparr>"
proof (induction es arbitrary: s)
  case Nil
  then show ?case by simp
next
  case (Cons e es)
  obtain s1 where s1: "emit_sse wfail e s = (None, s1)" "emit_all wfail es s1 = (None, s')"
    using Cons.prems by (auto simp: and_then_None)
  show ?case using Cons.IH [OF s1(2)] emit_sse_None [OF s1(1)] by simp
qed

lemma client_run_append:
  "client_run (es @ fs) = foldl (\<lambda>co e. Option.bind co (\<lambda>c. client_step c e)) (client_run es) fs"
  by (simp add: client_run_def)

lemma client_run_stops:
  assumes "client_run es = Some c" "cl_phase c = 1" "cl_stopped c = 0" "n \<le> length (cl_blocks c)"
  shows "client_run (es @ map (\<lambda>i. BlockStop (int i)) [0 ..< n]) = Some (c\<lparr>cl_stopped := n\<rparr>)"
  using assms(4)
proof (induction n)
  case 0
  then show ?case using assms(1,3) by simp
next
  case (Suc n)
  then show ?case using assms(2) by (simp add: client_run_snoc flip: append_assoc)
qed

lemma client_run_extensions:
  "client_run es = Some c \<Longrightarrow> cl_phase c = 2 \<Longrightarrow> client_run (es @ map Extension xs) = Some c"
  by (induction xs rule: rev_induct) (simp_all add: client_run_snoc flip: append_assoc)

text \<open>The finish reason of a stream: the last one choice 0 gives.\<close>

definition choice_finish :: "string \<Rightarrow> stream_choice \<Rightarrow> string" where
  "choice_finish r c = (if sc_index c = 0 \<and> sc_finish c \<noteq> [] then sc_finish c else r)"

definition chunk_finish :: "string \<Rightarrow> stream_chunk option \<Rightarrow> string" where
  "chunk_finish r co = (case co of None \<Rightarrow> r | Some c \<Rightarrow> foldl choice_finish r (chunk_choices c))"

lemma and_then_finish:
  assumes "and_then r f = (None, s')" "en_finish (snd r) = x" "\<And>s s'. f s = (None, s') \<Longrightarrow> en_finish s' = en_finish s"
  shows "en_finish s' = x"
  using assms by (auto simp: and_then_None)

lemma emit_finish: "emit_sse wfail e s = (None, s') \<Longrightarrow> en_finish s' = en_finish s"
  by (drule emit_sse_None) simp

lemma start_message_finish: "start_message wfail u s = (None, s') \<Longrightarrow> en_finish s' = en_finish s"
  by (auto simp: start_message_def dest: emit_finish split: if_splits)

lemma start_tool_finish: "start_tool wfail k t s = (t', None, s') \<Longrightarrow> en_finish s' = en_finish s"
  by (auto simp: start_tool_def put_tool_def Let_def dest: emit_finish split: if_splits)

lemma write_text_finish: "write_text wfail x s = (None, s') \<Longrightarrow> en_finish s' = en_finish s"
  by (auto simp: write_text_def and_then_None dest!: emit_finish split: if_splits)

lemma write_tool_call_finish: "write_tool_call wfail d s = (None, s') \<Longrightarrow> en_finish s' = en_finish s"
  by (auto simp: write_tool_call_def Let_def and_then_None put_tool_def
      dest!: emit_finish start_tool_finish split: if_splits prod.splits)

lemma write_tool_calls_finish: "write_tool_calls wfail ds s = (None, s') \<Longrightarrow> en_finish s' = en_finish s"
  by (induction ds arbitrary: s) (fastforce simp: and_then_None dest: write_tool_call_finish)+

lemma write_choice_finish: "write_choice wfail d s = (None, s') \<Longrightarrow> en_finish s' = choice_finish (en_finish s) d"
  by (auto simp: write_choice_def choice_finish_def Let_def and_then_None
      dest!: write_text_finish write_tool_calls_finish split: if_splits option.splits)

lemma write_choices_finish:
  "write_choices wfail ds s = (None, s') \<Longrightarrow> en_finish s' = foldl choice_finish (en_finish s) ds"
  by (induction ds arbitrary: s) (fastforce simp: and_then_None dest: write_choice_finish)+

lemma write_chunk_finish: "write_chunk wfail d s = (None, s') \<Longrightarrow> en_finish s' = chunk_finish (en_finish s) d"
  by (auto simp: write_chunk_def chunk_finish_def and_then_None
      dest!: start_message_finish write_choices_finish split: option.splits)

lemma write_chunks_finish:
  "write_chunks wfail ds s = (None, s') \<Longrightarrow> en_finish s' = foldl chunk_finish (en_finish s) ds"
  by (induction ds arbitrary: s) (fastforce simp: and_then_None dest: write_chunk_finish)+

lemma finish_tools_finish: "finish_tools lib wfail ts s = (None, s') \<Longrightarrow> en_finish s' = en_finish s"
proof (induction ts arbitrary: s)
  case Nil
  then show ?case by simp
next
  case (Cons kt ts)
  obtain k t where kt: "kt = (k, t)" by (cases kt)
  obtain t1 s1 where "start_tool wfail k t s = (t1, None, s1)" "finish_tools lib wfail ts s1 = (None, s')"
    using Cons.prems by (cases "start_tool wfail k t s") (auto simp: kt and_then_None split: if_splits)
  then show ?case using Cons.IH start_tool_finish by metis
qed

text \<open>Once every tool is started, the tool blocks are the tools the calls named.\<close>

definition calls_served :: "tool_call list \<Rightarrow> block list \<Rightarrow> bool" where
  "calls_served calls bs \<longleftrightarrow>
     (\<exists>pos. bij_betw pos (call_key ` set calls) {i. is_tool_at bs i}
        \<and> (\<forall>k \<in> call_key ` set calls.
             bs ! pos k = ToolBlock (call_text tc_id k calls) (call_text tc_name k calls) (call_text tc_args k calls)))"

lemma tools_served:
  assumes inv: "tools_inv bs calls m" and started: "\<And>k t. m k = Some t \<Longrightarrow> tl_started t"
  shows "calls_served calls bs"
proof -
  let ?pos = "\<lambda>k. nat (tl_index (the (m k)))"
  have keys: "k \<in> call_key ` set calls \<longleftrightarrow> (\<exists>t. m k = Some t)" for k
    using inv unfolding tools_inv_def by auto
  have ok: "tool_ok bs calls k t" if "m k = Some t" for k t using inv that unfolding tools_inv_def by blast
  have block: "0 \<le> tl_index t \<and> nat (tl_index t) < length bs \<and> bs ! nat (tl_index t) =
      ToolBlock (call_text tc_id k calls) (call_text tc_name k calls) (call_text tc_args k calls)"
    if "m k = Some t" for k t
    using ok [OF that] started [OF that] by (auto simp: tool_ok_def)
  have inj: "inj_on ?pos (call_key ` set calls)"
  proof (rule inj_onI)
    fix k k'
    assume "k \<in> call_key ` set calls" "k' \<in> call_key ` set calls" and eq: "?pos k = ?pos k'"
    then obtain t t' where t: "m k = Some t" "m k' = Some t'" using keys by blast
    then have "tl_index t = tl_index t'" using eq block by (metis nat_eq_iff2 option.sel)
    then show "k = k'" using inv t started [OF t(1)] started [OF t(2)] unfolding tools_inv_def by blast
  qed
  have image: "?pos ` (call_key ` set calls) = {i. is_tool_at bs i}"
  proof (rule set_eqI)
    fix i
    show "i \<in> ?pos ` (call_key ` set calls) \<longleftrightarrow> i \<in> {i. is_tool_at bs i}"
    proof
      assume "i \<in> ?pos ` (call_key ` set calls)"
      then obtain k where k: "k \<in> call_key ` set calls" "i = ?pos k" by blast
      then obtain t where "m k = Some t" using keys by blast
      then show "i \<in> {i. is_tool_at bs i}" using block k(2) by (simp add: is_tool_at_def)
    next
      assume "i \<in> {i. is_tool_at bs i}"
      then obtain k t where "m k = Some t" "tl_index t = int i" using inv unfolding tools_inv_def by blast
      moreover have "k \<in> call_key ` set calls" using keys calculation(1) by blast
      ultimately show "i \<in> ?pos ` (call_key ` set calls)" by (intro image_eqI [of _ _ k]) simp_all
    qed
  qed
  have "bij_betw ?pos (call_key ` set calls) {i. is_tool_at bs i}" using inj image by (simp add: bij_betw_def)
  moreover have "bs ! ?pos k = ToolBlock (call_text tc_id k calls) (call_text tc_name k calls) (call_text tc_args k calls)"
    if in_calls: "k \<in> call_key ` set calls" for k
  proof -
    obtain t where "m k = Some t" using in_calls keys by blast
    then show ?thesis using block by simp
  qed
  ultimately show ?thesis unfolding calls_served_def by (intro exI [of _ ?pos]) blast
qed

lemma finish_stream_read:
  assumes run: "finish_stream lib wfail exts u s = (None, s')" and inv: "stream_inv text calls s c"
  shows "\<exists>c'. client_run (en_out s') = Some c' \<and> cl_phase c' = 3 \<and> cl_stopped c' = length (cl_blocks c')
    \<and> client_text c' = text \<and> cl_reason c' = stop_reason (en_finish s) \<and> calls_served calls (cl_blocks c')"
proof -
  obtain s1 s2 s3 where s1: "start_message wfail u s = (None, s1)"
    and s2: "finish_tools lib wfail (en_tools s1) s1 = (None, s2)"
    and s3: "emit_all wfail (map (\<lambda>i. BlockStop (int i)) [0 ..< nat (en_next s2)]
        @ [MessageDelta (stop_reason (en_finish s2)) (en_stop s2) (usage_from_chat u)]) s2 = (None, s3)"
    and s4: "emit_sse wfail MessageStop (s3\<lparr>en_out := en_out s3 @ map Extension exts\<rparr>) = (None, s')"
    using run unfolding finish_stream_def finish_blocks_def stop_message_def by (auto simp: and_then_None split: if_splits)
  obtain c1 where c1: "stream_inv text calls s1 c1" "en_started s1"
    using start_message_inv [OF s1 inv] by blast
  have "\<forall>(k, t) \<in> set (en_tools s1). map_of (en_tools s1) k = Some t" "distinct (map fst (en_tools s1))"
    using c1(1) by (auto simp: stream_inv_def)
  then obtain c2 where c2: "stream_inv text calls s2 c2" "en_started s2"
    and started: "\<And>k. if k \<in> fst ` set (en_tools s1) then \<exists>t. map_of (en_tools s2) k = Some t \<and> tl_started t
      else map_of (en_tools s2) k = map_of (en_tools s1) k"
    using finish_tools_inv [OF s2 c1] by blast
  have all_started: "tl_started t" if "map_of (en_tools s2) k = Some t" for k t
    using started [of k] that by (auto simp: map_of_eq_None_iff [THEN iffD2] split: if_splits)
  let ?n = "length (cl_blocks c2)" and ?r = "stop_reason (en_finish s2)"
  have "client_run (en_out s2 @ map (\<lambda>i. BlockStop (int i)) [0 ..< ?n]) = Some (c2\<lparr>cl_stopped := ?n\<rparr>)"
    by (rule client_run_stops) (use c2 in \<open>simp_all add: stream_inv_def\<close>)
  then have "client_run (en_out s3) = Some (c2\<lparr>cl_stopped := ?n, cl_phase := 2, cl_reason := ?r\<rparr>)"
    using emit_all_None [OF s3] c2 by (simp add: stream_inv_def client_run_snoc flip: append_assoc)
  then have "client_run (en_out s3 @ map Extension exts) = Some (c2\<lparr>cl_stopped := ?n, cl_phase := 2, cl_reason := ?r\<rparr>)"
    by (rule client_run_extensions) simp
  then have "client_run (en_out s') = Some (c2\<lparr>cl_stopped := ?n, cl_phase := 3, cl_reason := ?r\<rparr>)"
    using emit_sse_None [OF s4] by (simp add: client_run_snoc flip: append_assoc)
  moreover have "calls_served calls (cl_blocks c2)" using tools_served [OF stream_inv_tools [OF c2(1)] all_started] .
  moreover have "?r = stop_reason (en_finish s)"
    using start_message_finish [OF s1] finish_tools_finish [OF s2] by simp
  ultimately show ?thesis using c2(1) by (auto simp: stream_inv_def client_text_def)
qed

lemma stream_read:
  assumes "and_then (write_chunks wfail cs (new_encoder alias)) (finish_stream lib wfail exts u) = (None, s)"
  shows "\<exists>c. client_run (en_out s) = Some c \<and> cl_phase c = 3 \<and> cl_stopped c = length (cl_blocks c)
    \<and> client_text c = concat (map chunk_text cs) \<and> cl_reason c = stop_reason (foldl chunk_finish [] cs)
    \<and> calls_served (concat (map chunk_calls cs)) (cl_blocks c)"
proof -
  obtain s1 where s1: "write_chunks wfail cs (new_encoder alias) = (None, s1)"
    "finish_stream lib wfail exts u s1 = (None, s)"
    using assms by (auto simp: and_then_None)
  have "\<exists>c. stream_inv (concat (map chunk_text cs)) (concat (map chunk_calls cs)) s1 c"
    using write_chunks_inv [OF s1(1) stream_inv_new] by simp
  moreover have "en_finish s1 = foldl chunk_finish [] cs"
    using write_chunks_finish [OF s1(1)] by (simp add: new_encoder_def)
  ultimately show ?thesis using finish_stream_read [OF s1(2)] by metis
qed

text \<open>
  C20. A stream that was encoded without an error is a complete answer that says what the chunks said: a client
  accepts every event in its place, all blocks are stopped, the text is the text of choice 0 in order, there is
  one tool block for every tool index, with the id, name and arguments its calls spell out, and the stop reason
  is that of the last finish reason.
\<close>

theorem encoded_stream_says_the_chunks:
  assumes "encode_stream lib wfail exts alias cs u = (None, s)"
  shows "\<exists>c. client_run (en_out s) = Some c \<and> cl_phase c = 3 \<and> cl_stopped c = length (cl_blocks c)
    \<and> client_text c = concat (map chunk_text cs) \<and> cl_reason c = stop_reason (foldl chunk_finish [] cs)
    \<and> calls_served (concat (map chunk_calls cs)) (cl_blocks c)"
  using assms unfolding encode_stream_def by (rule stream_read)

text \<open>A stream with text, one tool call whose arguments come in two pieces, and a second one without arguments.\<close>

definition sample_stream_lib :: golib where
  "sample_stream_lib = \<lparr>unmarshal = (\<lambda>s. if s \<in> {''{}'', ''{1}''} then Some (JObj []) else None),
     parse_time = (\<lambda>_. None), duration_string = (\<lambda>_. []), itoa = (\<lambda>_. []), sha256_hex = (\<lambda>_. [])\<rparr>"

definition sample_call :: "int option \<Rightarrow> string \<Rightarrow> string \<Rightarrow> string \<Rightarrow> tool_call" where
  "sample_call i tid name args = \<lparr>tc_index = i, tc_id = tid, tc_name = name, tc_args = args\<rparr>"

definition sample_chunk :: "string \<Rightarrow> string \<Rightarrow> tool_call list \<Rightarrow> stream_chunk option" where
  "sample_chunk content reason calls = Some \<lparr>chunk_data = [],
     chunk_choices = [\<lparr>sc_index = 0, sc_finish = reason, sc_stop = None,
       sc_delta = Some \<lparr>sd_content = content, sd_tools = calls\<rparr>\<rparr>], chunk_usage = None\<rparr>"

definition sample_chunks :: "stream_chunk option list" where
  "sample_chunks =
     [sample_chunk ''he'' [] [], sample_chunk ''llo'' [] [sample_call None ''t1'' ''find'' ''{''],
      sample_chunk [] [] [sample_call (Some 1) ''t2'' ''list'' [], sample_call (Some 0) [] [] ''1}''],
      sample_chunk [] ''tool_calls'' []]"

lemma sample_stream_encodes:
  "encode_stream sample_stream_lib (\<lambda>_. False) [''cost''] ''m'' sample_chunks None =
     (None, snd (encode_stream sample_stream_lib (\<lambda>_. False) [''cost''] ''m'' sample_chunks None))
   \<and> concat (map chunk_text sample_chunks) = ''hello''
   \<and> foldl chunk_finish [] sample_chunks = ''tool_calls''"
  by code_simp

theorem encoded_stream_says_the_chunks_witness:
  "\<exists>c. client_run (en_out (snd (encode_stream sample_stream_lib (\<lambda>_. False) [''cost''] ''m'' sample_chunks None))) = Some c
     \<and> client_text c = ''hello'' \<and> cl_reason c = ''tool_use''
     \<and> calls_served (concat (map chunk_calls sample_chunks)) (cl_blocks c)"
proof -
  have "stop_reason ''tool_calls'' = ''tool_use''" by code_simp
  then show ?thesis
    using encoded_stream_says_the_chunks [OF conjunct1 [OF sample_stream_encodes]] sample_stream_encodes by metis
qed

end
