(* ===== verification/Messages_Request.thy ===== *)
theory Messages_Request
  imports Anthropic_Stream
begin

text \<open>
  Requests in the Anthropic format (\<open>internal/anthropic/request.go\<close>): the translation of a Messages request to the
  chat request every provider understands.

  \<^item> JSON that the code keeps as text (\<open>json.RawMessage\<close>) is a string here; what the standard library makes of it is
    \<open>request_lib\<close>: a JSON string, an array of blocks decoded strictly, an object as a map of raw members (\<open>None\<close>
    also for \<open>null\<close>), the scheme and host of a URL, and the bytes of base64.
  \<^item> Go checks \<open>temperature\<close> and \<open>top_p\<close> in the order of a map, which is random: \<open>temp_first\<close> says which came first.
\<close>

section \<open>The request\<close>

record image_source =
  is_type :: string
  is_media_type :: string
  is_data :: string
  is_url :: string

record req_block =
  bk_type :: string
  bk_text :: string
  bk_id :: string
  bk_name :: string
  bk_input :: string
  bk_tool_use_id :: string
  bk_content :: string
  bk_is_error :: bool
  bk_source :: "image_source option"

record messages_message =
  mm_role :: string
  mm_content :: string

record messages_tool =
  mt_type :: string
  mt_name :: string
  mt_description :: string
  mt_input_schema :: string
  mt_strict :: "bool option"

record tool_choice =
  ch_type :: string
  ch_name :: string
  ch_disable_parallel :: "bool option"

record messages_request =
  mr_model :: string
  mr_max_tokens :: int
  mr_messages :: "messages_message list"
  mr_system :: string
  mr_stream :: bool
  mr_temperature :: "f64 option"
  mr_top_p :: "f64 option"
  mr_stop_sequences :: "string list"
  mr_tools :: "messages_tool list"
  mr_tool_choice :: "tool_choice option"
  mr_user_id :: "string option"

section \<open>The chat request\<close>

datatype content_part = TextPart string | ImagePart string

datatype req_content = NoParts | TextOnly string | Parts "content_part list"

record req_message =
  rm_role :: string
  rm_content :: req_content
  rm_tool_calls :: "tool_call list"
  rm_tool_call_id :: string

record function_def =
  fd_name :: string
  fd_description :: string
  fd_parameters :: string
  fd_strict :: "bool option"

datatype choice_spec = ChoiceMode string | ChoiceFunction string

record chat_request =
  cq_model :: string
  cq_messages :: "req_message list"
  cq_temperature :: "f64 option"
  cq_top_p :: "f64 option"
  cq_stream :: bool
  cq_stop :: "string list"
  cq_max_completion_tokens :: "int option"
  cq_include_usage :: "bool option"
  cq_max_tokens :: "int option"
  cq_user :: string
  cq_tools :: "function_def list"
  cq_parallel :: "bool option"
  cq_tool_choice :: "choice_spec option"

record request_lib =
  rl_text :: "string \<Rightarrow> string option"
  rl_blocks :: "string \<Rightarrow> req_block list option"
  rl_object :: "string \<Rightarrow> (string \<rightharpoonup> string) option"
  rl_url :: "string \<Rightarrow> (string \<times> string) option"
  rl_base64 :: "string \<Rightarrow> string option"

section \<open>Translation\<close>

definition text_block :: "string \<Rightarrow> req_block" where
  "text_block s = \<lparr>bk_type = ''text'', bk_text = s, bk_id = [], bk_name = [], bk_input = [], bk_tool_use_id = [],
     bk_content = [], bk_is_error = False, bk_source = None\<rparr>"

definition blocks :: "request_lib \<Rightarrow> string \<Rightarrow> string + req_block list" where
  "blocks rl raw =
     (case (if raw = ''null'' then None else rl_text rl raw) of
        Some s \<Rightarrow> Inr [text_block s]
      | None \<Rightarrow> (case rl_blocks rl raw of
          None \<Rightarrow> Inl ''content must be a string or a nonempty array of supported content blocks''
        | Some bs \<Rightarrow> if bs = [] then Inl ''content must be a string or a nonempty array of supported content blocks''
                     else Inr bs))"

definition image_part :: "request_lib \<Rightarrow> req_block \<Rightarrow> string + content_part" where
  "image_part rl b =
     (case bk_source b of None \<Rightarrow> Inl ''image requires source''
      | Some s \<Rightarrow>
        if is_type s = ''url'' then
          (case rl_url rl (is_url s) of
             Some (scheme, host) \<Rightarrow>
               if (scheme = ''https'' \<or> scheme = ''http'') \<and> host \<noteq> [] then Inr (ImagePart (is_url s))
               else Inl ''image source URL must be http or https''
           | None \<Rightarrow> Inl ''image source URL must be http or https'')
        else if is_type s = ''base64'' then
          (if is_media_type s \<notin> {''image/jpeg'', ''image/png'', ''image/gif'', ''image/webp''}
           then Inl ''unsupported image media_type''
           else case rl_base64 rl (is_data s) of
             None \<Rightarrow> Inl ''image source requires valid nonempty base64 data''
           | Some data \<Rightarrow> if data = [] then Inl ''image source requires valid nonempty base64 data''
               else Inr (ImagePart (''data:'' @ is_media_type s @ '';base64,'' @ is_data s)))
        else Inl (''unsupported image source type '' @ dquoted (is_type s)))"

text \<open>\<open>strings.Join\<close>, and the texts of blocks that must all be text.\<close>

fun join_sep :: "string \<Rightarrow> string list \<Rightarrow> string" where
  "join_sep sep [] = []"
| "join_sep sep [x] = x"
| "join_sep sep (x # y # xs) = x @ sep @ join_sep sep (y # xs)"

definition texts_of :: "string \<Rightarrow> req_block list \<Rightarrow> string + string list" where
  "texts_of err bs = (if \<forall>b \<in> set bs. bk_type b = ''text'' then Inr (map bk_text bs) else Inl err)"

definition newline :: string where
  "newline = [CHR 0x0A]"

definition system_message :: "request_lib \<Rightarrow> string \<Rightarrow> string + req_message list" where
  "system_message rl raw =
     (if raw = [] \<or> raw = ''null'' then Inr []
      else case blocks rl raw of Inl e \<Rightarrow> Inl (''system: '' @ e)
        | Inr bs \<Rightarrow> (case texts_of ''system supports only text blocks'' bs of Inl e \<Rightarrow> Inl e
            | Inr ts \<Rightarrow> Inr [\<lparr>rm_role = ''system'', rm_content = TextOnly (join_sep (newline @ newline) ts),
                             rm_tool_calls = [], rm_tool_call_id = []\<rparr>]))"

definition result_message :: "request_lib \<Rightarrow> req_block \<Rightarrow> string + req_message" where
  "result_message rl b =
     (let msg = (\<lambda>s. \<lparr>rm_role = ''tool'', rm_content = TextOnly (if bk_is_error b then ''Tool error: '' @ s else s),
                     rm_tool_calls = [], rm_tool_call_id = bk_tool_use_id b\<rparr>)
      in if bk_content b = [] then Inr (msg [])
         else case blocks rl (bk_content b) of Inl e \<Rightarrow> Inl (''tool_result: '' @ e)
           | Inr bs \<Rightarrow> (case texts_of ''tool_result supports only text content'' bs of Inl e \<Rightarrow> Inl e
               | Inr ts \<Rightarrow> Inr (msg (join_sep newline ts))))"

text \<open>One block of a message: it adds to the content, the tool calls or the tool results.\<close>

type_synonym parts = "content_part list \<times> tool_call list \<times> req_message list"

definition add_block :: "request_lib \<Rightarrow> string \<Rightarrow> req_block \<Rightarrow> parts \<Rightarrow> string + parts" where
  "add_block rl role b x =
     (case x of (content, calls, results) \<Rightarrow>
       if bk_type b = ''text'' then Inr (content @ [TextPart (bk_text b)], calls, results)
       else if bk_type b = ''image'' then
         (if role \<noteq> ''user'' then Inl ''image blocks require user role''
          else case image_part rl b of Inl e \<Rightarrow> Inl e | Inr p \<Rightarrow> Inr (content @ [p], calls, results))
       else if bk_type b = ''tool_use'' then
         (if role \<noteq> ''assistant'' \<or> bk_id b = [] \<or> bk_name b = [] \<or> rl_object rl (bk_input b) = None
          then Inl ''tool_use requires assistant role, id, name, and object input''
          else Inr (content, calls @ [\<lparr>tc_index = None, tc_id = bk_id b, tc_name = bk_name b, tc_args = bk_input b\<rparr>], results))
       else if bk_type b = ''tool_result'' then
         (if role \<noteq> ''user'' \<or> bk_tool_use_id b = [] then Inl ''tool_result requires user role and tool_use_id''
          else case result_message rl b of Inl e \<Rightarrow> Inl e | Inr m \<Rightarrow> Inr (content, calls, results @ [m]))
       else Inl (''unsupported content block type '' @ dquoted (bk_type b)))"

fun add_blocks :: "request_lib \<Rightarrow> string \<Rightarrow> req_block list \<Rightarrow> parts \<Rightarrow> string + parts" where
  "add_blocks rl role [] x = Inr x"
| "add_blocks rl role (b # bs) x = (case add_block rl role b x of Inl e \<Rightarrow> Inl e | Inr y \<Rightarrow> add_blocks rl role bs y)"

definition content_of :: "content_part list \<Rightarrow> req_content" where
  "content_of ps = (case ps of [] \<Rightarrow> NoParts | [TextPart s] \<Rightarrow> TextOnly s | _ \<Rightarrow> Parts ps)"

definition out_messages :: "string \<Rightarrow> parts \<Rightarrow> req_message list" where
  "out_messages role x =
     (case x of (content, calls, results) \<Rightarrow>
       results @ (if content \<noteq> [] \<or> calls \<noteq> []
         then [\<lparr>rm_role = role, rm_content = content_of content, rm_tool_calls = calls, rm_tool_call_id = []\<rparr>] else []))"

definition translate_blocks :: "request_lib \<Rightarrow> string \<Rightarrow> req_block list \<Rightarrow> string + req_message list" where
  "translate_blocks rl role bs =
     (case add_blocks rl role bs ([], [], []) of Inl e \<Rightarrow> Inl e | Inr x \<Rightarrow> Inr (out_messages role x))"

definition message_prefix :: "nat \<Rightarrow> string" where
  "message_prefix i = ''messages['' @ show_nat i @ '']: ''"

definition translate_message :: "request_lib \<Rightarrow> nat \<Rightarrow> messages_message \<Rightarrow> string + req_message list" where
  "translate_message rl i m =
     (if mm_role m \<noteq> ''user'' \<and> mm_role m \<noteq> ''assistant'' then Inl (message_prefix i @ ''role must be user or assistant'')
      else case blocks rl (mm_content m) of Inl e \<Rightarrow> Inl (message_prefix i @ e)
        | Inr bs \<Rightarrow> translate_blocks rl (mm_role m) bs)"

fun translate_messages :: "request_lib \<Rightarrow> nat \<Rightarrow> messages_message list \<Rightarrow> string + req_message list" where
  "translate_messages rl i [] = Inr []"
| "translate_messages rl i (m # ms) =
     (case translate_message rl i m of Inl e \<Rightarrow> Inl e
      | Inr xs \<Rightarrow> (case translate_messages rl (Suc i) ms of Inl e \<Rightarrow> Inl e | Inr ys \<Rightarrow> Inr (xs @ ys)))"

fun translate_tools :: "request_lib \<Rightarrow> string list \<Rightarrow> messages_tool list \<Rightarrow> string + function_def list" where
  "translate_tools rl names [] = Inr []"
| "translate_tools rl names (t # ts) =
     (if (mt_type t \<noteq> [] \<and> mt_type t \<noteq> ''custom'') \<or> mt_name t = [] \<or> mt_name t \<in> set names
         \<or> (case rl_object rl (mt_input_schema t) of None \<Rightarrow> True | Some o' \<Rightarrow> o' ''type'' \<noteq> Some (dquoted ''object''))
      then Inl ''tools require unique names and object input_schema; only client tools are supported''
      else case translate_tools rl (mt_name t # names) ts of Inl e \<Rightarrow> Inl e
        | Inr fs \<Rightarrow> Inr (\<lparr>fd_name = mt_name t, fd_description = mt_description t, fd_parameters = mt_input_schema t,
                          fd_strict = mt_strict t\<rparr> # fs))"

definition translate_choice :: "string list \<Rightarrow> tool_choice \<Rightarrow> string + choice_spec" where
  "translate_choice names c =
     (if ch_type c = ''auto'' \<or> ch_type c = ''none'' then Inr (ChoiceMode (ch_type c))
      else if ch_type c = ''any'' then
        (if names = [] then Inl ''tool_choice any requires tools'' else Inr (ChoiceMode ''required''))
      else if ch_type c = ''tool'' then
        (if ch_name c \<notin> set names then Inl ''tool_choice must name a defined tool'' else Inr (ChoiceFunction (ch_name c)))
      else Inl (''unsupported tool_choice type '' @ dquoted (ch_type c)))"

definition bad_ratio :: "f64 option \<Rightarrow> bool" where
  "bad_ratio v = (case v of None \<Rightarrow> False | Some x \<Rightarrow> x < 0 \<or> 1 < x)"

definition is_space :: "char \<Rightarrow> bool" where
  "is_space c \<longleftrightarrow> c \<in> {CHR 0x20, CHR 0x09, CHR 0x0A, CHR 0x0B, CHR 0x0C, CHR 0x0D}"

text \<open>\<open>strings.TrimSpace(s) == ""\<close> for a model name, whose characters are ASCII.\<close>

definition blank :: "string \<Rightarrow> bool" where
  "blank s \<longleftrightarrow> list_all is_space s"

definition check_request :: "bool \<Rightarrow> messages_request \<Rightarrow> string option" where
  "check_request temp_first r =
     (let range = (\<lambda>name. Some (name @ '' must be between 0 and 1''));
          temp = bad_ratio (mr_temperature r); top = bad_ratio (mr_top_p r)
      in if blank (mr_model r) \<or> mr_max_tokens r \<le> 0 \<or> mr_messages r = []
         then Some ''model, positive max_tokens, and nonempty messages are required''
         else if temp \<and> (temp_first \<or> \<not> top) then range ''temperature''
         else if top then range ''top_p''
         else if [] \<in> set (mr_stop_sequences r) then Some ''stop_sequences must contain nonempty strings''
         else None)"

text \<open>\<open>ChatRequest\<close>.\<close>

definition chat_request_of :: "request_lib \<Rightarrow> bool \<Rightarrow> messages_request \<Rightarrow> string + chat_request" where
  "chat_request_of rl temp_first r =
     (case check_request temp_first r of Some e \<Rightarrow> Inl e
      | None \<Rightarrow> (case system_message rl (mr_system r) of Inl e \<Rightarrow> Inl e
      | Inr sys \<Rightarrow> (case translate_messages rl 0 (mr_messages r) of Inl e \<Rightarrow> Inl e
      | Inr msgs \<Rightarrow> (case translate_tools rl [] (mr_tools r) of Inl e \<Rightarrow> Inl e
      | Inr tools \<Rightarrow>
          (let c = \<lparr>cq_model = mr_model r, cq_messages = sys @ msgs, cq_temperature = mr_temperature r,
               cq_top_p = mr_top_p r, cq_stream = mr_stream r, cq_stop = mr_stop_sequences r,
               cq_max_completion_tokens = None, cq_include_usage = (if mr_stream r then Some True else None),
               cq_max_tokens = Some (mr_max_tokens r),
               cq_user = (case mr_user_id r of None \<Rightarrow> [] | Some u \<Rightarrow> u), cq_tools = tools, cq_parallel = None,
               cq_tool_choice = None\<rparr>
           in case mr_tool_choice r of None \<Rightarrow> Inr c
              | Some tc \<Rightarrow> (case translate_choice (map mt_name (mr_tools r)) tc of Inl e \<Rightarrow> Inl e
                  | Inr spec \<Rightarrow> Inr (c\<lparr>cq_tool_choice := Some spec, cq_parallel := map_option Not (ch_disable_parallel tc)\<rparr>)))))))"

section \<open>Well-formed chat requests\<close>

definition call_ok :: "request_lib \<Rightarrow> tool_call \<Rightarrow> bool" where
  "call_ok rl c \<longleftrightarrow> tc_id c \<noteq> [] \<and> tc_name c \<noteq> [] \<and> rl_object rl (tc_args c) \<noteq> None"

definition is_text_part :: "content_part \<Rightarrow> bool" where
  "is_text_part p = (case p of TextPart s \<Rightarrow> True | ImagePart u \<Rightarrow> False)"

definition parts_of :: "req_content \<Rightarrow> content_part list" where
  "parts_of c = (case c of NoParts \<Rightarrow> [] | TextOnly s \<Rightarrow> [TextPart s] | Parts ps \<Rightarrow> ps)"

definition message_ok :: "request_lib \<Rightarrow> req_message \<Rightarrow> bool" where
  "message_ok rl m \<longleftrightarrow>
     rm_role m \<in> {''system'', ''user'', ''assistant'', ''tool''}
     \<and> (rm_role m = ''tool'' \<longleftrightarrow> rm_tool_call_id m \<noteq> [])
     \<and> (rm_role m \<noteq> ''assistant'' \<longrightarrow> rm_tool_calls m = []) \<and> (\<forall>c \<in> set (rm_tool_calls m). call_ok rl c)
     \<and> (rm_role m \<noteq> ''user'' \<longrightarrow> list_all is_text_part (parts_of (rm_content m)))
     \<and> (parts_of (rm_content m) \<noteq> [] \<or> rm_tool_calls m \<noteq> [])"

definition choice_ok :: "chat_request \<Rightarrow> bool" where
  "choice_ok c \<longleftrightarrow>
     (case cq_tool_choice c of None \<Rightarrow> True
      | Some (ChoiceMode mode) \<Rightarrow> mode \<in> {''auto'', ''none''} \<or> (mode = ''required'' \<and> cq_tools c \<noteq> [])
      | Some (ChoiceFunction name) \<Rightarrow> name \<in> set (map fd_name (cq_tools c)))"

definition chat_request_ok :: "request_lib \<Rightarrow> chat_request \<Rightarrow> bool" where
  "chat_request_ok rl c \<longleftrightarrow>
     \<not> blank (cq_model c) \<and> cq_messages c \<noteq> [] \<and> list_all (message_ok rl) (cq_messages c)
     \<and> (case cq_max_tokens c of None \<Rightarrow> False | Some n \<Rightarrow> 0 < n)
     \<and> \<not> bad_ratio (cq_temperature c) \<and> \<not> bad_ratio (cq_top_p c) \<and> [] \<notin> set (cq_stop c)
     \<and> distinct (map fd_name (cq_tools c)) \<and> [] \<notin> set (map fd_name (cq_tools c)) \<and> choice_ok c"

lemma parts_of_content [simp]: "parts_of (content_of ps) = ps"
  by (simp add: parts_of_def content_of_def split: list.splits content_part.splits)

lemma result_message_ok:
  assumes "result_message rl b = Inr m" "bk_tool_use_id b \<noteq> []"
  shows "message_ok rl m"
  using assms
  by (auto simp: result_message_def message_ok_def parts_of_def is_text_part_def Let_def split: if_splits sum.splits)

text \<open>What holds of the parts of a message with role \<open>role\<close>, of which \<open>n\<close> blocks have been read.\<close>

definition parts_ok :: "request_lib \<Rightarrow> string \<Rightarrow> nat \<Rightarrow> parts \<Rightarrow> bool" where
  "parts_ok rl role n x \<longleftrightarrow>
     (case x of (content, calls, results) \<Rightarrow>
       (role \<noteq> ''user'' \<longrightarrow> list_all is_text_part content) \<and> (role \<noteq> ''assistant'' \<longrightarrow> calls = [])
       \<and> (\<forall>c \<in> set calls. call_ok rl c) \<and> (\<forall>m \<in> set results. message_ok rl m)
       \<and> length content + length calls + length results = n)"

lemma add_block_ok:
  assumes "add_block rl role b x = Inr y" "parts_ok rl role n x"
  shows "parts_ok rl role (Suc n) y"
  using assms
  by (auto simp: add_block_def parts_ok_def is_text_part_def call_ok_def intro: result_message_ok
      split: prod.splits if_splits sum.splits)

lemma add_blocks_ok:
  "add_blocks rl role bs x = Inr y \<Longrightarrow> parts_ok rl role n x \<Longrightarrow> parts_ok rl role (n + length bs) y"
proof (induction bs arbitrary: x n)
  case Nil
  then show ?case by simp
next
  case (Cons b bs)
  obtain z where "add_block rl role b x = Inr z" "add_blocks rl role bs z = Inr y"
    using Cons.prems(1) by (auto split: sum.splits)
  then show ?case using Cons.IH [of z "Suc n"] add_block_ok Cons.prems(2) by fastforce
qed

lemma out_messages_ok:
  assumes "parts_ok rl role n x" "0 < n" "role \<in> {''user'', ''assistant''}"
  shows "out_messages role x \<noteq> [] \<and> list_all (message_ok rl) (out_messages role x)"
proof -
  obtain content calls results where x: "x = (content, calls, results)" by (cases x)
  have "message_ok rl \<lparr>rm_role = role, rm_content = content_of content, rm_tool_calls = calls, rm_tool_call_id = []\<rparr>"
    if "content \<noteq> [] \<or> calls \<noteq> []"
    using assms that by (auto simp: x parts_ok_def message_ok_def)
  then show ?thesis using assms by (auto simp: x parts_ok_def out_messages_def list_all_iff)
qed

lemma blocks_not_Nil: "blocks rl raw = Inr bs \<Longrightarrow> bs \<noteq> []"
  by (auto simp: blocks_def split: option.splits if_splits)

lemma translate_message_ok:
  assumes "translate_message rl i m = Inr xs"
  shows "xs \<noteq> [] \<and> list_all (message_ok rl) xs"
proof -
  obtain bs x where role: "mm_role m \<in> {''user'', ''assistant''}" and bs: "blocks rl (mm_content m) = Inr bs"
    and x: "add_blocks rl (mm_role m) bs ([], [], []) = Inr x" "xs = out_messages (mm_role m) x"
    using assms by (auto simp: translate_message_def translate_blocks_def split: if_splits sum.splits)
  have "parts_ok rl (mm_role m) (length bs) x"
    using add_blocks_ok [OF x(1), of 0] by (simp add: parts_ok_def)
  then show ?thesis using out_messages_ok [OF _ _ role] blocks_not_Nil [OF bs] x(2) by simp
qed

lemma translate_messages_ok:
  "translate_messages rl i ms = Inr xs \<Longrightarrow> (ms \<noteq> [] \<longrightarrow> xs \<noteq> []) \<and> list_all (message_ok rl) xs"
proof (induction ms arbitrary: i xs)
  case Nil
  then show ?case by simp
next
  case (Cons m ms)
  obtain ys zs where "translate_message rl i m = Inr ys" "translate_messages rl (Suc i) ms = Inr zs" "xs = ys @ zs"
    using Cons.prems by (auto split: sum.splits)
  then show ?case using Cons.IH translate_message_ok by fastforce
qed

lemma system_message_ok: "system_message rl raw = Inr xs \<Longrightarrow> list_all (message_ok rl) xs"
  by (auto simp: system_message_def message_ok_def parts_of_def is_text_part_def split: if_splits sum.splits)

lemma translate_tools_names:
  "translate_tools rl names ts = Inr fs \<Longrightarrow>
     map fd_name fs = map mt_name ts \<and> distinct (map mt_name ts) \<and> set (map mt_name ts) \<inter> set names = {}
     \<and> [] \<notin> set (map mt_name ts)"
proof (induction ts arbitrary: names fs)
  case Nil
  then show ?case by simp
next
  case (Cons t ts)
  obtain gs where gs: "translate_tools rl (mt_name t # names) ts = Inr gs" "fd_name (hd fs) = mt_name t" "tl fs = gs" "fs \<noteq> []"
    and t: "mt_name t \<noteq> []" "mt_name t \<notin> set names"
    using Cons.prems by (auto split: if_splits sum.splits)
  show ?case using Cons.IH [OF gs(1)] gs t by (cases fs) auto
qed

lemma translate_choice_ok:
  assumes "translate_choice names c = Inr spec" "names = map fd_name (cq_tools q)" "cq_tool_choice q = Some spec"
  shows "choice_ok q"
  using assms by (auto simp: translate_choice_def choice_ok_def split: if_splits)

text \<open>
  C9. Translation is typed: whatever Messages request the proxy accepts, the chat request it forwards is well
  formed. There is at least one message (so the handler's own check for empty messages never rejects one), every
  message has content or tool calls, only the assistant calls tools, every call has an id, a name and a JSON object as
  arguments, every tool result names its call, images come from the user only, tool names are distinct, and
  a forced tool exists.
\<close>

theorem accepted_request_well_formed:
  assumes "chat_request_of rl temp_first r = Inr c"
  shows "chat_request_ok rl c"
proof -
  obtain sys msgs tools where check: "check_request temp_first r = None"
    and sys: "system_message rl (mr_system r) = Inr sys" and msgs: "translate_messages rl 0 (mr_messages r) = Inr msgs"
    and tools: "translate_tools rl [] (mr_tools r) = Inr tools"
    using assms by (auto simp: chat_request_of_def split: option.splits sum.splits)
  have fields: "cq_model c = mr_model r" "cq_messages c = sys @ msgs" "cq_temperature c = mr_temperature r"
    "cq_top_p c = mr_top_p r" "cq_stop c = mr_stop_sequences r" "cq_max_tokens c = Some (mr_max_tokens r)"
    "cq_tools c = tools"
    using assms check sys msgs tools by (auto simp: chat_request_of_def Let_def split: option.splits sum.splits)
  have checks: "\<not> blank (mr_model r)" "0 < mr_max_tokens r" "mr_messages r \<noteq> []" "\<not> bad_ratio (mr_temperature r)"
    "\<not> bad_ratio (mr_top_p r)" "[] \<notin> set (mr_stop_sequences r)"
    using check by (auto simp: check_request_def Let_def split: if_splits)
  have "choice_ok c"
  proof (cases "mr_tool_choice r")
    case None
    then show ?thesis
      using assms check sys msgs tools by (auto simp: chat_request_of_def Let_def choice_ok_def split: option.splits)
  next
    case (Some tc)
    then obtain spec where "translate_choice (map mt_name (mr_tools r)) tc = Inr spec" "cq_tool_choice c = Some spec"
      using assms check sys msgs tools by (auto simp: chat_request_of_def Let_def split: sum.splits)
    then show ?thesis using translate_choice_ok translate_tools_names [OF tools] fields(7) by metis
  qed
  then show ?thesis
    using fields checks translate_tools_names [OF tools] translate_messages_ok [OF msgs] system_message_ok [OF sys]
    by (simp add: chat_request_ok_def)
qed

section \<open>An answer sent back\<close>

text \<open>
  A client keeps the conversation by sending the answer back as an assistant message, block by block.
\<close>

definition block_of_answer :: "answer_block \<Rightarrow> req_block" where
  "block_of_answer a =
     (case a of AnswerText s \<Rightarrow> text_block s
      | AnswerTool i name input \<Rightarrow> (text_block [])\<lparr>bk_type := ''tool_use'', bk_id := i, bk_name := name, bk_input := input\<rparr>)"

definition message_texts :: "message_content \<Rightarrow> string list" where
  "message_texts c = (case c of NoContent \<Rightarrow> [] | TextContent s \<Rightarrow> (if s = [] then [] else [s])
     | PartsContent ps \<Rightarrow> map snd ps | OtherContent \<Rightarrow> [])"

text \<open>The call as the client saw it: no arguments are the empty object.\<close>

definition shown_call :: "tool_call \<Rightarrow> tool_call" where
  "shown_call c = c\<lparr>tc_index := None, tc_args := (if tc_args c = [] then ''{}'' else tc_args c)\<rparr>"

lemma part_blocks_texts: "part_blocks ps = Inr bs \<Longrightarrow> bs = map AnswerText (map snd ps)"
proof (induction ps arbitrary: bs)
  case Nil
  then show ?case by simp
next
  case (Cons p ps)
  then show ?case by (cases p) (auto split: if_splits sum.splits)
qed

lemma content_blocks_texts: "content_blocks c = Inr bs \<Longrightarrow> bs = map AnswerText (message_texts c)"
  by (auto simp: content_blocks_def message_texts_def dest: part_blocks_texts split: message_content.splits if_splits)

lemma tool_blocks_calls:
  "tool_blocks lib cs = Inr bs \<Longrightarrow>
     bs = map (\<lambda>c. AnswerTool (tc_id c) (tc_name c) (tc_args (shown_call c))) cs
     \<and> (\<forall>c \<in> set cs. tc_id c \<noteq> [] \<and> tc_name c \<noteq> [] \<and> (\<exists>fs. unmarshal lib (tc_args (shown_call c)) = Some (JObj fs)))"
proof (induction cs arbitrary: bs)
  case Nil
  then show ?case by simp
next
  case (Cons c cs)
  obtain input ts where c: "tc_id c \<noteq> []" "tc_name c \<noteq> []" "tool_input lib (tc_args c) = Some input"
    and ts: "tool_blocks lib cs = Inr ts" and bs: "bs = AnswerTool (tc_id c) (tc_name c) input # ts"
    using Cons.prems by (auto split: if_splits option.splits sum.splits)
  have "input = tc_args (shown_call c)" "\<exists>fs. unmarshal lib input = Some (JObj fs)"
    using c(3) by (auto simp: tool_input_def shown_call_def Let_def split: option.splits json.splits if_splits)
  then show ?case using Cons.IH [OF ts] c bs by auto
qed

lemma add_text_blocks:
  "add_blocks rl role (map (block_of_answer \<circ> AnswerText) ts @ bs) (content, calls, results)
   = add_blocks rl role bs (content @ map TextPart ts, calls, results)"
  by (induction ts arbitrary: content) (simp_all add: add_block_def block_of_answer_def text_block_def)

lemma add_tool_blocks:
  assumes "\<forall>c \<in> set cs. tc_id c \<noteq> [] \<and> tc_name c \<noteq> [] \<and> rl_object rl (tc_args (shown_call c)) \<noteq> None"
  shows "add_blocks rl ''assistant''
      (map (\<lambda>c. block_of_answer (AnswerTool (tc_id c) (tc_name c) (tc_args (shown_call c)))) cs) (content, calls, results)
    = Inr (content, calls @ map shown_call cs, results)"
  using assms
proof (induction cs arbitrary: calls)
  case Nil
  then show ?case by simp
next
  case (Cons c cs)
  have "add_block rl ''assistant'' (block_of_answer (AnswerTool (tc_id c) (tc_name c) (tc_args (shown_call c))))
      (content, calls, results) = Inr (content, calls @ [shown_call c], results)"
    using Cons.prems by (simp add: add_block_def block_of_answer_def text_block_def shown_call_def)
  then show ?case using Cons.IH Cons.prems by simp
qed

text \<open>
  C10. The two directions of the Messages protocol fit: an answer with content that the client sends back as an assistant
  message becomes one chat message with the same texts, in order, and the same tool calls, in order.
\<close>

theorem answer_sent_back:
  assumes answer: "from_chat lib (Some (Some m, reason, stop)) u alias = Inr resp" and content: "ar_content resp \<noteq> []"
    and objects: "\<And>s. rl_object rl s \<noteq> None \<longleftrightarrow> (\<exists>fs. unmarshal lib s = Some (JObj fs))"
  shows "translate_blocks rl ''assistant'' (map block_of_answer (ar_content resp)) =
    Inr [\<lparr>rm_role = ''assistant'', rm_content = content_of (map TextPart (message_texts (cm_content m))),
          rm_tool_calls = map shown_call (cm_tools m), rm_tool_call_id = []\<rparr>]"
proof -
  obtain bs ts where bs: "content_blocks (cm_content m) = Inr bs" and ts: "tool_blocks lib (cm_tools m) = Inr ts"
    and resp: "ar_content resp = bs @ ts"
    using answer by (auto simp: from_chat_def split: sum.splits)
  have calls: "\<forall>c \<in> set (cm_tools m). tc_id c \<noteq> [] \<and> tc_name c \<noteq> [] \<and> rl_object rl (tc_args (shown_call c)) \<noteq> None"
    using tool_blocks_calls [OF ts] objects by blast
  have "map block_of_answer (ar_content resp) = map (block_of_answer \<circ> AnswerText) (message_texts (cm_content m))
      @ map (\<lambda>c. block_of_answer (AnswerTool (tc_id c) (tc_name c) (tc_args (shown_call c)))) (cm_tools m)"
    using content_blocks_texts [OF bs] tool_blocks_calls [OF ts] resp by simp
  moreover have "message_texts (cm_content m) \<noteq> [] \<or> cm_tools m \<noteq> []"
    using content resp content_blocks_texts [OF bs] tool_blocks_calls [OF ts] by auto
  ultimately show ?thesis
    by (simp add: translate_blocks_def add_text_blocks add_tool_blocks [OF calls] out_messages_def)
qed

definition sample_request_lib :: request_lib where
  "sample_request_lib = \<lparr>rl_text = (\<lambda>s. if s = ''q'' then Some ''hi'' else None),
     rl_blocks = (\<lambda>s. if s = ''r'' then Some [(text_block [])\<lparr>bk_type := ''tool_result'', bk_tool_use_id := ''t1'', bk_is_error := True\<rparr>,
        text_block ''go on''] else None),
     rl_object = (\<lambda>s. case unmarshal sample_stream_lib s of
        Some (JObj fs) \<Rightarrow> Some (Map.empty(''type'' \<mapsto> dquoted ''object'')) | _ \<Rightarrow> None),
     rl_url = (\<lambda>_. None), rl_base64 = (\<lambda>_. None)\<rparr>"

definition sample_messages_request :: messages_request where
  "sample_messages_request = \<lparr>mr_model = ''m'', mr_max_tokens = 9,
     mr_messages = [\<lparr>mm_role = ''user'', mm_content = ''q''\<rparr>, \<lparr>mm_role = ''user'', mm_content = ''r''\<rparr>],
     mr_system = ''q'', mr_stream = True, mr_temperature = Some 1, mr_top_p = None, mr_stop_sequences = [],
     mr_tools = [\<lparr>mt_type = [], mt_name = ''find'', mt_description = [], mt_input_schema = ''{}'', mt_strict = None\<rparr>],
     mr_tool_choice = Some \<lparr>ch_type = ''any'', ch_name = [], ch_disable_parallel = Some True\<rparr>, mr_user_id = None\<rparr>"

lemma sample_request_accepted:
  "case chat_request_of sample_request_lib True sample_messages_request of
     Inl e \<Rightarrow> False | Inr c \<Rightarrow> length (cq_messages c) = 4"
  by code_simp

theorem accepted_request_well_formed_witness:
  "\<exists>c. chat_request_of sample_request_lib True sample_messages_request = Inr c \<and> length (cq_messages c) = 4
     \<and> chat_request_ok sample_request_lib c"
  using sample_request_accepted
  by (cases "chat_request_of sample_request_lib True sample_messages_request")
    (auto intro: accepted_request_well_formed)

definition sample_answer :: chat_message where
  "sample_answer = \<lparr>cm_content = TextContent ''ok'', cm_tools = [sample_call (Some 0) ''t1'' ''find'' []]\<rparr>"

lemma sample_answer_translates:
  "from_chat sample_stream_lib (Some (Some sample_answer, ''tool_calls'', None)) None ''m'' = Inr \<lparr>ar_model = ''m'',
     ar_content = [AnswerText ''ok'', AnswerTool ''t1'' ''find'' ''{}''], ar_stop_reason = ''tool_use'', ar_stop_sequence = None,
     ar_usage = usage_from_chat None\<rparr>"
  by code_simp

theorem answer_sent_back_witness:
  "\<exists>m. translate_blocks sample_request_lib ''assistant'' (map block_of_answer [AnswerText ''ok'', AnswerTool ''t1'' ''find'' ''{}''])
     = Inr [m] \<and> rm_content m = TextOnly ''ok'' \<and> rm_tool_calls m = [sample_call None ''t1'' ''find'' ''{}'']"
proof -
  have "rl_object sample_request_lib s \<noteq> None \<longleftrightarrow> (\<exists>fs. unmarshal sample_stream_lib s = Some (JObj fs))" for s
    by (simp add: sample_request_lib_def split: option.splits json.splits)
  then show ?thesis
    using answer_sent_back [OF sample_answer_translates, of sample_request_lib]
    by (simp add: sample_answer_def sample_call_def shown_call_def message_texts_def content_of_def)
qed

end
