(* ===== verification/Chat.thy ===== *)
theory Chat
  imports Settlement Webhook Messages_Request
begin

text \<open>
  The handlers of chat requests and embeddings (\<open>internal/api/handler/chat.go\<close>, \<open>embeddings.go\<close>,
  \<open>internal/model/anthropic_error.go\<close>): admission, the answer of a plain and of a streaming call, the request log,
  and the settlement at the end.

  \<^item> A handler's state is the accounting of its call and the world it shares with other requests. What it reads from outside
    is \<open>chat_env\<close>: clock readings, faults, whether a write fails (by its position in the output) and whether the request's
    context is done after the \<open>n\<close>-th receive.
  \<^item> The provider's stream is the list of its \<open>Recv\<close> results, as in \<open>stream_recv\<close>: an exhausted list is \<open>io.EOF\<close>.
  \<^item> Tracing, flushing and HTTP headers other than the routing and accounting ones are left out.
\<close>

section \<open>Errors in the Anthropic format\<close>

definition anthropic_error_type :: "int \<Rightarrow> string" where
  "anthropic_error_type st =
     (if st = 400 \<or> st = 422 then ''invalid_request_error''
      else if st = 401 then ''authentication_error''
      else if st = 403 then ''permission_error''
      else if st = 404 then ''not_found_error''
      else if st = 413 then ''request_too_large''
      else if st = 429 then ''rate_limit_error''
      else if st = 503 \<or> st = 529 then ''overloaded_error''
      else if st = 504 then ''timeout_error''
      else if 400 \<le> st \<and> st < 500 then ''invalid_request_error''
      else ''api_error'')"

record anthropic_error =
  ae_type :: string
  ae_message :: string
  ae_request_id :: string

definition to_anthropic_error :: "goerror \<Rightarrow> string \<Rightarrow> anthropic_error" where
  "to_anthropic_error e rid = \<lparr>ae_type = anthropic_error_type (pe_status_code e), ae_message = pe_message e, ae_request_id = rid\<rparr>"

record anthropic_error_response =
  aer_status :: int
  aer_retry_after :: "int option"
  aer_body :: anthropic_error

definition write_anthropic_error :: "goerror \<Rightarrow> string \<Rightarrow> anthropic_error_response" where
  "write_anthropic_error e rid = \<lparr>aer_status = pe_status_code e,
     aer_retry_after = (if 0 < pe_retry_after e then Some \<lceil>duration_seconds (pe_retry_after e)\<rceil> else None),
     aer_body = to_anthropic_error e rid\<rparr>"

datatype error_answer = OpenAIError error_response | AnthropicError anthropic_error_response

definition write_request_error :: "bool \<Rightarrow> string \<Rightarrow> goerror \<Rightarrow> error_answer" where
  "write_request_error messages rid e =
     (if messages then AnthropicError (write_anthropic_error e rid) else OpenAIError (write_error e))"

section \<open>Admission\<close>

text \<open>Who calls: the key of the request, if any, and the signed-in user, with the right of an administrator.\<close>

record caller =
  cl_key :: "cached_key option"
  cl_key_hash :: string
  cl_user :: "(string \<times> bool) option"

text \<open>What admission reads from the store, which may be absent: a key by its id, and a user's accessible keys.\<close>

record key_reader =
  kr_store :: bool
  kr_key :: "int \<Rightarrow> goerror + stored_key option"
  kr_accessible :: "string \<Rightarrow> goerror + int list"

definition model_allowed :: "cached_key option \<Rightarrow> string \<Rightarrow> bool" where
  "model_allowed ck m =
     (case ck of None \<Rightarrow> True | Some k \<Rightarrow> ck_allowed_models k = [] \<or> m \<in> set (ck_allowed_models k))"

text \<open>The key to charge by the header \<open>X-Charge-Key-ID\<close>.\<close>

definition charge_key :: "key_reader \<Rightarrow> (string \<times> bool) option \<Rightarrow> string \<Rightarrow> goerror + int" where
  "charge_key kr user header =
     (case atoi header of
        None \<Rightarrow> Inl (err_bad_request ''invalid X-Charge-Key-ID'')
      | Some i \<Rightarrow> (case kr_key kr i of
          Inl e \<Rightarrow> Inl (err_bad_request ''API key not found'')
        | Inr None \<Rightarrow> Inl (err_bad_request ''API key not found'')
        | Inr (Some k) \<Rightarrow>
            if \<not> key_active k then Inl (err_bad_request ''API key is revoked'')
            else (case user of
                None \<Rightarrow> Inr i
              | Some (uid, admin) \<Rightarrow>
                  if admin then Inr i
                  else (case kr_accessible kr uid of
                      Inl e \<Rightarrow> Inl (err_internal ''failed to verify key access'')
                    | Inr ids \<Rightarrow> if i \<in> set ids then Inr i
                                 else Inl (err_forbidden ''you do not have access to this API key'')))))"

text \<open>The guards of the handler in order; the answer is the key the request is charged to.\<close>

definition admit_chat :: "key_reader \<Rightarrow> caller \<Rightarrow> string \<Rightarrow> string \<Rightarrow> bool \<Rightarrow> goerror + int option" where
  "admit_chat kr cl header m no_messages =
     (if m = [] then Inl (err_bad_request ''model is required'')
      else if no_messages then Inl (err_bad_request ''messages is required'')
      else if \<not> model_allowed (cl_key cl) m then Inl (err_forbidden (''model not allowed: '' @ m))
      else
        let own = map_option (\<lambda>k. key_id (ck_key k)) (cl_key cl)
        in if header \<noteq> [] \<and> cl_key cl = None \<and> kr_store kr
           then (case charge_key kr (cl_user cl) header of Inl e \<Rightarrow> Inl e | Inr i \<Rightarrow> Inr (Some i))
           else Inr own)"

definition sticky_key_of :: "caller \<Rightarrow> string" where
  "sticky_key_of cl = (case cl_key cl of None \<Rightarrow> [] | Some k \<Rightarrow> cl_key_hash cl)"

section \<open>The request log\<close>

text \<open>\<open>computeCost\<close>.\<close>

definition compute_cost :: "cost_manager option \<Rightarrow> deployment option \<Rightarrow> usage option \<Rightarrow> f64" where
  "compute_cost cm d u =
     (case (cm, d, u) of
        (Some m, Some d, Some u) \<Rightarrow> usage_cost (es_spec (get_effective_spec m (model_name d) [actual_model d])) u
      | _ \<Rightarrow> 0)"

definition direct_log :: "cost_manager option \<Rightarrow> time \<Rightarrow> log_params \<Rightarrow> request_log" where
  "direct_log cm now p =
     (let u = (case prm_usage p of None \<Rightarrow> empty_usage | Some u \<Rightarrow> u); d = prm_deployment p in
      \<lparr>lg_accounting_id = [], lg_cost_source = [], lg_cost_known = None, lg_cost_coverage = [],
       lg_usage_known = (prm_usage p \<noteq> None), lg_request_id = prm_request_id p, lg_session_id = prm_session_id p,
       lg_key_id = prm_key_id p, lg_model = model_name d, lg_provider = provider_name d, lg_endpoint = prm_endpoint p,
       lg_input_tokens = prompt_tokens u, lg_output_tokens = completion_tokens u,
       lg_total_cost = (if prm_cost_known p then prm_total_cost p else compute_cost cm (Some d) (Some u)),
       lg_status_code = prm_status p, lg_latency_ms = milliseconds (now - prm_start p), lg_request_time = prm_start p,
       lg_is_streaming = prm_is_streaming p, lg_deployment_key = deployment_key d, lg_pool_name = prm_pool_name p,
       lg_ttft_ms = prm_ttft_ms p, lg_req_snippet = prm_req_snippet p, lg_resp_snippet = prm_resp_snippet p,
       lg_cache_read = cache_read_tokens u, lg_cache_write = cache_write_tokens u\<rparr>)"

text \<open>\<open>logRequest\<close>: a call with accounting only keeps the parameters; without, the log is written and credited here.\<close>

definition log_request ::
  "cost_manager option \<Rightarrow> goerror option \<Rightarrow> time \<Rightarrow> string \<Rightarrow> log_params
   \<Rightarrow> call_accounting option \<times> proxy_world \<Rightarrow> call_accounting option \<times> proxy_world" where
  "log_request cm fault now today p x =
     (case x of
        (Some s, w) \<Rightarrow> (Some (s\<lparr>ca_log_params := Some p\<rparr>), w)
      | (None, w) \<Rightarrow>
        (let l = direct_log cm now p; cost = lg_total_cost l;
             w1 = w\<lparr>pw_db := snd (insert_request_log fault l (pw_db w))\<rparr>;
             w2 = (case (prm_key_id p, pw_spend w1) of
                 (Some k, Some t) \<Rightarrow> if 0 < cost then w1\<lparr>pw_spend := Some (key_credit t k cost)\<rparr> else w1
               | _ \<Rightarrow> w1)
         in (None, if prm_pool_name p \<noteq> [] \<and> 0 < cost
                   then w2\<lparr>pw_router := (pw_router w2)\<lparr>rt_budget :=
                          budget_credit (rt_budget (pw_router w2)) (prm_pool_name p) cost today\<rparr>\<rparr>
                   else w2)))"

section \<open>A call and its surroundings\<close>

record chat_env =
  ch_lib :: golib
  ch_marshal_api :: "goerror \<Rightarrow> string"
  ch_start :: time
  ch_first :: time
  ch_report :: time
  ch_now :: time
  ch_today :: "nat \<Rightarrow> string"
  ch_fault :: "goerror option"
  ch_write_fails :: "nat \<Rightarrow> bool"
  ch_write_error :: goerror
  ch_gone :: "nat \<Rightarrow> bool"
  ch_ctx_error :: "goerror \<Rightarrow> bool"
  ch_chunk_error :: "stream_chunk \<Rightarrow> goerror option"
  ch_render :: "accounting_output \<Rightarrow> string"
  ch_flusher :: bool
  ch_snippet_limit :: int
  ch_req_snippet :: string
  ch_choice :: "chat_response \<Rightarrow> (chat_message option \<times> string \<times> string option) option"

text \<open>What is fixed for the call once Route has chosen a deployment.\<close>

record chat_call =
  cc_deployment :: deployment
  cc_pool :: string
  cc_key :: "int option"
  cc_session :: string
  cc_request_id :: string
  cc_messages :: bool
  cc_model :: string
  cc_include_usage :: bool

definition endpoint :: "bool \<Rightarrow> string" where
  "endpoint messages = (if messages then ''/v1/messages'' else ''/v1/chat/completions'')"

definition chat_log_params ::
  "chat_env \<Rightarrow> chat_call \<Rightarrow> f64 \<Rightarrow> usage option \<Rightarrow> bool \<Rightarrow> int option \<Rightarrow> string \<Rightarrow> log_params" where
  "chat_log_params env c cost u streaming ttft snippet =
     \<lparr>prm_total_cost = cost, prm_cost_known = True, prm_pool_name = cc_pool c, prm_key_id = cc_key c,
      prm_deployment = cc_deployment c, prm_endpoint = endpoint (cc_messages c), prm_usage = u, prm_status = 200,
      prm_start = ch_start env, prm_is_streaming = streaming, prm_request_id = cc_request_id c,
      prm_session_id = cc_session c, prm_ttft_ms = ttft, prm_resp_snippet = snippet,
      prm_req_snippet = (if 0 < ch_snippet_limit env then Some (ch_req_snippet env) else None)\<rparr>"

definition keep_log_params :: "log_params \<Rightarrow> call_accounting \<Rightarrow> call_accounting" where
  "keep_log_params p s = (if ca_store s = NoStore then s else s\<lparr>ca_log_params := Some p\<rparr>)"

definition fail_deployment :: "chat_env \<Rightarrow> deployment \<Rightarrow> proxy_world \<Rightarrow> proxy_world" where
  "fail_deployment env d w =
     w\<lparr>pw_router := (pw_router w)\<lparr>rt_cooldown := cooldown_failure (rt_cooldown (pw_router w)) d (ch_report env)\<rparr>\<rparr>"

definition succeed_deployment :: "deployment \<Rightarrow> proxy_world \<Rightarrow> proxy_world" where
  "succeed_deployment d w = w\<lparr>pw_router := report_success (pw_router w) d\<rparr>"

section \<open>A plain answer\<close>

datatype chat_body = ChatBody chat_response | MessageBody anthropic_response

text \<open>
  The answer of a call: an error, a body with its inline accounting record and headers, or a panic: the OpenAI format
  dereferences a response that a provider left out.
\<close>

datatype chat_answer =
    ErrorAnswer error_answer
  | BodyAnswer chat_body "acct_record option" "(string \<times> string) list"
  | PanicAnswer

definition provider_failed :: "chat_env \<Rightarrow> string \<Rightarrow> goerror \<Rightarrow> goerror" where
  "provider_failed env name e = err_provider_error (ch_lib env) (ch_marshal_api env) name e"

definition non_streaming_body :: "chat_env \<Rightarrow> chat_call \<Rightarrow> chat_response option \<Rightarrow> string + chat_body option" where
  "non_streaming_body env c resp =
     (if cc_messages c
      then (case from_chat (ch_lib env) (Option.bind resp (ch_choice env)) (Option.bind resp resp_usage) (cc_model c) of
              Inl e \<Rightarrow> Inl e | Inr r \<Rightarrow> Inr (Some (MessageBody r)))
      else Inr (map_option ChatBody resp))"

text \<open>\<open>handleNonStreamingResponse\<close>; \<open>encode_error\<close> is the failure to write the body, which the client has by then.\<close>

definition handle_non_streaming ::
  "chat_env \<Rightarrow> chat_call \<Rightarrow> route_result \<Rightarrow> f64 \<Rightarrow> goerror option \<Rightarrow> call_accounting \<times> proxy_world
   \<Rightarrow> (chat_answer \<times> goerror option) \<times> call_accounting \<times> proxy_world" where
  "handle_non_streaming env c res cost encode_error x =
     (case x of (s, w) \<Rightarrow>
       (case non_streaming_body env c (rr_response res) of
          Inl e \<Rightarrow>
            ((ErrorAnswer (AnthropicError (write_anthropic_error
                (provider_failed env (provider_name (cc_deployment c)) (PlainError e)) (cc_request_id c))), Some (PlainError e)),
             s, fail_deployment env (cc_deployment c) w)
        | Inr body \<Rightarrow>
            (let w1 = succeed_deployment (cc_deployment c) w;
                 u = Option.bind (rr_response res) resp_usage;
                 s1 = (if rr_response res = None then s
                       else keep_log_params (chat_log_params env c cost u False None []) s);
                 (record, s2, w2) = inline_record (ch_fault env) (ch_now env) (ch_today env) (s1, w1)
             in (case body of
                   None \<Rightarrow> (PanicAnswer, None)
                 | Some b \<Rightarrow> (BodyAnswer b record (set_route_headers (Some res)), encode_error), s2, w2))))"

section \<open>A streaming answer\<close>

datatype stream_output = ChunkOut stream_chunk | AccountingOut accounting_output | DoneOut

text \<open>
  The variables of the receive loop. For a Messages call the events are the output of \<open>sr_encoder\<close>, followed by
  \<open>sr_error\<close>, the event of \<open>streamError\<close>; otherwise the output is \<open>sr_out\<close>.
\<close>

record stream_run =
  sr_acct :: call_accounting
  sr_world :: proxy_world
  sr_usage :: "usage option"
  sr_ttft :: "int option"
  sr_snippet :: string
  sr_encoder :: "encoder option"
  sr_error :: "anthropic_error option"
  sr_out :: "stream_output list"

type_synonym stream_end = "usage option \<times> f64 \<times> goerror option"

definition new_stream_run :: "chat_call \<Rightarrow> call_accounting \<times> proxy_world \<Rightarrow> stream_run" where
  "new_stream_run c x = \<lparr>sr_acct = fst x, sr_world = snd x, sr_usage = None, sr_ttft = None, sr_snippet = [],
     sr_encoder = (if cc_messages c then Some (new_encoder (cc_model c)) else None), sr_error = None, sr_out = []\<rparr>"

definition send_error :: "chat_env \<Rightarrow> chat_call \<Rightarrow> goerror \<Rightarrow> stream_run \<Rightarrow> stream_run" where
  "send_error env c e r =
     (if sr_encoder r = None then r
      else r\<lparr>sr_error := Some (to_anthropic_error (provider_failed env (provider_name (cc_deployment c)) e) (cc_request_id c))\<rparr>)"

text \<open>An upstream failure: the deployment is reported, the client of a Messages stream is told.\<close>

definition upstream_failed :: "chat_env \<Rightarrow> chat_call \<Rightarrow> goerror \<Rightarrow> stream_run \<Rightarrow> stream_run" where
  "upstream_failed env c e r =
     send_error env c e (r\<lparr>sr_world := fail_deployment env (cc_deployment c) (sr_world r)\<rparr>)"

fun encoder_error :: "chat_env \<Rightarrow> stream_error \<Rightarrow> goerror" where
  "encoder_error env WriteFailed = ch_write_error env"
| "encoder_error env (BadStream m) = PlainError m"

text \<open>A failed encoder: a write error or a done context is the client's, anything else the upstream's.\<close>

definition encoder_failed :: "chat_env \<Rightarrow> chat_call \<Rightarrow> nat \<Rightarrow> stream_error \<Rightarrow> stream_run \<Rightarrow> stream_end \<times> stream_run" where
  "encoder_failed env c i e r =
     (let err = encoder_error env e; end = (sr_usage r, 0, Some err)
      in if e = WriteFailed \<or> ch_gone env i then (end, r) else (end, upstream_failed env c err r))"

text \<open>\<open>Finish\<close> with the hook \<open>BeforeStop\<close>, which completes the accounting.\<close>

definition finish_encoder :: "chat_env \<Rightarrow> encoder \<Rightarrow> stream_run \<Rightarrow> stream_error option \<times> stream_run" where
  "finish_encoder env s r =
     (case finish_blocks (ch_lib env) (ch_write_fails env) (sr_usage r) s of
        (Some e, s1) \<Rightarrow> (Some e, r\<lparr>sr_encoder := Some s1\<rparr>)
      | (None, s1) \<Rightarrow>
        (let (out, a, w) = emit_stream True (ch_fault env) (ch_now env) (ch_today env) (sr_acct r, sr_world r);
             exts = (case out of None \<Rightarrow> [] | Some o' \<Rightarrow> [ch_render env o']);
             (e, s2) = stop_message (ch_write_fails env) exts s1
         in (e, r\<lparr>sr_acct := a, sr_world := w, sr_encoder := Some s2\<rparr>)))"

definition stream_eof :: "chat_env \<Rightarrow> chat_call \<Rightarrow> nat \<Rightarrow> stream_run \<Rightarrow> stream_end \<times> stream_run" where
  "stream_eof env c i r =
     (let (cost, a) = call_cost (ch_lib env) (sr_acct r) (sr_usage r);
          r1 = r\<lparr>sr_acct := keep_log_params (chat_log_params env c cost (sr_usage r) True (sr_ttft r) (sr_snippet r)) a\<rparr>;
          (e, r2) = (case sr_encoder r1 of None \<Rightarrow> (None, r1) | Some s \<Rightarrow> finish_encoder env s r1)
      in case e of
           Some err \<Rightarrow> encoder_failed env c i err r2
         | None \<Rightarrow>
           (let r3 = r2\<lparr>sr_world := succeed_deployment (cc_deployment c) (sr_world r2)\<rparr>
            in if cc_messages c then ((sr_usage r3, cost, None), r3)
               else
                 let (out, a', w') = emit_stream False (ch_fault env) (ch_now env) (ch_today env) (sr_acct r3, sr_world r3);
                     r4 = r3\<lparr>sr_acct := a', sr_world := w',
                            sr_out := sr_out r3 @ (case out of None \<Rightarrow> [] | Some o' \<Rightarrow> [AccountingOut o'])\<rparr>
                 in if ch_write_fails env (length (sr_out r4)) then ((sr_usage r4, cost, Some (ch_write_error env)), r4)
                    else ((sr_usage r4, cost, None), r4\<lparr>sr_out := sr_out r4 @ [DoneOut]\<rparr>)))"

text \<open>The content that the snippet takes from a chunk: the delta of its first choice.\<close>

definition chunk_content :: "stream_chunk option \<Rightarrow> string" where
  "chunk_content co =
     (case co of None \<Rightarrow> []
      | Some ch \<Rightarrow> (case chunk_choices ch of [] \<Rightarrow> []
          | d # _ \<Rightarrow> (case sc_delta d of None \<Rightarrow> [] | Some x \<Rightarrow> sd_content x)))"

definition add_snippet :: "int \<Rightarrow> string \<Rightarrow> string \<Rightarrow> string" where
  "add_snippet limit snippet content =
     (if content = [] \<or> limit \<le> 0 then snippet
      else let remaining = limit - int (length snippet)
           in if 0 < remaining
              then snippet @ (if remaining < int (length content) then take (nat remaining) content else content)
              else snippet)"

definition observe_chunk :: "chat_env \<Rightarrow> stream_chunk option \<Rightarrow> stream_run \<Rightarrow> stream_run" where
  "observe_chunk env co r =
     (let r1 = (if sr_ttft r = None then r\<lparr>sr_ttft := Some (milliseconds (ch_first env - ch_start env))\<rparr> else r);
          r2 = r1\<lparr>sr_snippet := add_snippet (ch_snippet_limit env) (sr_snippet r1) (chunk_content co)\<rparr>
      in case Option.bind co chunk_usage of
           None \<Rightarrow> r2
         | Some u \<Rightarrow> r2\<lparr>sr_usage := Some u,
               sr_acct := (sr_acct r2)\<lparr>ca_collector := collector_observe_usage (ch_lib env) (ca_collector (sr_acct r2)) (Some u)\<rparr>\<rparr>)"

text \<open>A chunk for an OpenAI client: \<open>None\<close> is skipped, since only its usage mattered.\<close>

definition forwarded :: "bool \<Rightarrow> stream_chunk \<Rightarrow> stream_chunk option" where
  "forwarded include_usage ch =
     (if include_usage then Some ch
      else if chunk_choices ch = [] then None
      else Some (ch\<lparr>chunk_usage := None\<rparr>))"

text \<open>The loop from the \<open>i\<close>-th receive on.\<close>

fun stream_loop :: "chat_env \<Rightarrow> chat_call \<Rightarrow> nat \<Rightarrow> provider_stream \<Rightarrow> stream_run \<Rightarrow> stream_end \<times> stream_run" where
  "stream_loop env c i [] r = stream_eof env c i r"
| "stream_loop env c i ((co, err) # xs) r =
     (case err of
        Some EOF \<Rightarrow> stream_eof env c i r
      | Some (RecvError e) \<Rightarrow>
          if ch_ctx_error env e then ((None, 0, Some e), r)
          else ((None, 0, Some e), upstream_failed env c e r)
      | None \<Rightarrow>
        (let r1 = observe_chunk env co r in
         case sr_encoder r1 of
           Some s \<Rightarrow> (case write_chunk (ch_write_fails env) co s of
               (Some e, s1) \<Rightarrow> encoder_failed env c i e (r1\<lparr>sr_encoder := Some s1\<rparr>)
             | (None, s1) \<Rightarrow> stream_loop env c (Suc i) xs (r1\<lparr>sr_encoder := Some s1\<rparr>))
         | None \<Rightarrow> (case co of
             None \<Rightarrow> ((sr_usage r1, 0, Some (PlainError ''upstream returned a nil stream chunk'')), r1)
           | Some ch \<Rightarrow> (case forwarded (cc_include_usage c) ch of
               None \<Rightarrow> stream_loop env c (Suc i) xs r1
             | Some o' \<Rightarrow> (case ch_chunk_error env o' of
                 Some e \<Rightarrow> ((None, 0, Some e), r1)
               | None \<Rightarrow>
                   if ch_write_fails env (length (sr_out r1)) then ((sr_usage r1, 0, Some (ch_write_error env)), r1)
                   else stream_loop env c (Suc i) xs (r1\<lparr>sr_out := sr_out r1 @ [ChunkOut o']\<rparr>))))))"

definition handle_streaming ::
  "chat_env \<Rightarrow> chat_call \<Rightarrow> provider_stream \<Rightarrow> call_accounting \<times> proxy_world \<Rightarrow> stream_end \<times> stream_run" where
  "handle_streaming env c xs x =
     (if \<not> ch_flusher env
      then ((None, 0, Some (PlainError ''streaming response writer does not support flushing'')),
            (new_stream_run c x)\<lparr>sr_encoder := None\<rparr>)
      else stream_loop env c 0 xs (new_stream_run c x))"

section \<open>A whole call\<close>

datatype chat_reply = PlainReply chat_answer | StreamReply stream_run

text \<open>\<open>acc.err = err\<close>, the cost read by the trace, and the deferred \<open>close\<close>.\<close>

definition end_call ::
  "chat_env \<Rightarrow> usage option \<Rightarrow> goerror option \<Rightarrow> call_accounting \<times> proxy_world \<Rightarrow> call_accounting \<times> proxy_world" where
  "end_call env u err x =
     close_call (ch_fault env) (ch_now env) (ch_today env)
       (snd (call_cost (ch_lib env) ((fst x)\<lparr>ca_err := err\<rparr>) u), snd x)"

text \<open>A routed call that failed: settled first, then answered.\<close>

definition settle_failed :: "chat_env \<Rightarrow> goerror \<Rightarrow> call_accounting \<times> proxy_world \<Rightarrow> call_accounting \<times> proxy_world" where
  "settle_failed env e x =
     end_call env None (Some e) (complete_call (ch_fault env) (ch_now env) (ch_today env)
       ((fst x)\<lparr>ca_err := Some e, ca_streaming := False\<rparr>, snd x))"

definition routing_error :: "chat_env \<Rightarrow> route_result \<Rightarrow> goerror \<Rightarrow> goerror" where
  "routing_error env res e =
     (if FailoverBudgetExhausted \<in> set (rr_reasons res)
      then err_budget_exceeded ''budget exhausted for all available pools''
      else provider_failed env ''all providers'' e)"

text \<open>Everything after Route. A success without a stream, when one was asked for, panics.\<close>

definition chat_respond ::
  "chat_env \<Rightarrow> chat_call \<Rightarrow> bool \<Rightarrow> route_result \<Rightarrow> goerror option \<Rightarrow> call_accounting \<times> proxy_world
   \<Rightarrow> chat_reply \<times> call_accounting \<times> proxy_world" where
  "chat_respond env c streaming res encode_error x =
     (case rr_error res of
        Some e \<Rightarrow>
          (PlainReply (ErrorAnswer (write_request_error (cc_messages c) (cc_request_id c) (routing_error env res e))),
           settle_failed env e x)
      | None \<Rightarrow>
        if streaming then
          (case rr_stream res of
             Some (PlainStream xs) \<Rightarrow>
               (let ((u, cost, err), r) = handle_streaming env c xs x
                in (StreamReply r, end_call env u err (sr_acct r, sr_world r)))
           | Some (LimitedStream cs) \<Rightarrow>
               (let ((u, cost, err), r) = handle_streaming env c (cs_stream cs) x
                in (StreamReply r, end_call env u err (sr_acct r, sr_world r)))
           | None \<Rightarrow> (PlainReply PanicAnswer, close_call (ch_fault env) (ch_now env) (ch_today env) x))
        else
          (let u = Option.bind (rr_response res) resp_usage;
               (cost, s1) = call_cost (ch_lib env) (fst x) u;
               ((answer, err), x1) = handle_non_streaming env c res cost encode_error (s1, snd x)
           in if answer = PanicAnswer
              then (PlainReply PanicAnswer, close_call (ch_fault env) (ch_now env) (ch_today env) x1)
              else (PlainReply answer, end_call env u err x1)))"

text \<open>
  What a whole handler needs besides: the routing environment, the reader of keys, the accounting library with
  the digest of a pricing, the cost map, the faults of the pending writes, and the random part of the record's id.
\<close>

record handler_env =
  hn_chat :: chat_env
  hn_route :: route_env
  hn_keys :: key_reader
  hn_acct :: acct_lib
  hn_digest :: "acct_pricing \<Rightarrow> string"
  hn_costs :: "cost_manager option"
  hn_faults :: "nat \<Rightarrow> goerror option"
  hn_uuid :: string
  hn_request_id :: string
  hn_store :: store_kind
  hn_inline :: bool
  hn_encode_error :: "goerror option"

definition routed_options :: "bool \<Rightarrow> int \<Rightarrow> route_options" where
  "routed_options streaming estimate = \<lparr>opt_usage_snapshot = True, opt_defer_reconcile = streaming,
     opt_estimated_tokens = estimate, opt_before_attempt = True, opt_after_attempt = True, opt_eligible = None\<rparr>"

text \<open>
  Accounting is opened, Route runs with its hooks, and the webhook events are raised. \<open>env_usage\<close> of the routing
  environment is what the hook \<open>CurrentUsage\<close> answers.
\<close>

definition routed_call ::
  "handler_env \<Rightarrow> string \<Rightarrow> string \<Rightarrow> string \<Rightarrow> string \<Rightarrow> int option \<Rightarrow> bool \<Rightarrow> int \<Rightarrow> proxy_world
   \<Rightarrow> route_result \<times> hook_event list \<times> call_accounting \<times> proxy_world" where
  "routed_call hn m ep session sticky key streaming estimate w =
     (let lib = ch_lib (hn_chat hn);
          (s, _, db) = start_accounting lib (hn_uuid hn) (hn_request_id hn) key (hn_store hn) (hn_inline hn) streaming m ep
                         session (ch_start (hn_chat hn)) (hn_faults hn 0) (pw_db w);
          (res, rw) = route lib (hn_route hn) (Some (routed_options streaming estimate)) m sticky
                        (router.extend (pw_router w) (route_world.fields 0 []));
          (s1, db1) = run_hooks lib (hn_acct hn) (hn_digest hn) (hn_costs hn) (\<lambda>n. hn_faults hn (Suc n)) (rw_events rw) (s, db);
          (evs, rw1) = routing_events lib (hn_route hn) rw res m (hn_request_id hn)
      in (res, evs, s1, w\<lparr>pw_db := db1, pw_router := router.truncate rw1\<rparr>))"

text \<open>\<open>ChatCompletions\<close> and \<open>Messages\<close>, for a request that has been decoded.\<close>

definition chat_completions ::
  "handler_env \<Rightarrow> bool \<Rightarrow> caller \<Rightarrow> string \<Rightarrow> string \<Rightarrow> int \<Rightarrow> chat_request \<Rightarrow> proxy_world
   \<Rightarrow> chat_reply \<times> hook_event list \<times> proxy_world" where
  "chat_completions hn messages cl header session data_len q w =
     (case admit_chat (hn_keys hn) cl header (cq_model q) (cq_messages q = []) of
        Inl e \<Rightarrow> (PlainReply (ErrorAnswer (write_request_error messages (hn_request_id hn) e)), [], w)
      | Inr key \<Rightarrow>
        (let estimate = chat_estimated_tokens data_len (cq_max_completion_tokens q) (cq_max_tokens q);
             (res, evs, s, w1) = routed_call hn (cq_model q) (endpoint messages) session (sticky_key_of cl) key
                                   (cq_stream q) estimate w;
             c = (\<lambda>d. \<lparr>cc_deployment = d, cc_pool = rr_pool res, cc_key = key, cc_session = session,
                 cc_request_id = hn_request_id hn, cc_messages = messages, cc_model = cq_model q,
                 cc_include_usage = (cq_include_usage q = Some True)\<rparr>)
         in case rr_used res of
              Some d \<Rightarrow>
                (let (reply, x) = chat_respond (hn_chat hn) (c d) (cq_stream q) res (hn_encode_error hn) (s, w1)
                 in (reply, evs, snd x))
            | None \<Rightarrow>
                (PlainReply (case rr_error res of
                     Some e \<Rightarrow> ErrorAnswer (write_request_error messages (hn_request_id hn) (routing_error (hn_chat hn) res e))
                   | None \<Rightarrow> PanicAnswer), evs,
                 snd (case rr_error res of Some e \<Rightarrow> settle_failed (hn_chat hn) e (s, w1)
                      | None \<Rightarrow> close_call (ch_fault (hn_chat hn)) (ch_now (hn_chat hn)) (ch_today (hn_chat hn)) (s, w1)))))"

section \<open>Embeddings\<close>

text \<open>The callback of an embeddings request: a deployment whose provider cannot embed answers with an error.\<close>

definition embeddings_callback ::
  "(deployment \<Rightarrow> bool) \<Rightarrow> (nat \<Rightarrow> deployment \<Rightarrow> goerror + usage option) \<Rightarrow> nat \<Rightarrow> deployment \<Rightarrow> callback_result" where
  "embeddings_callback supports call n d =
     (if \<not> supports d then (None, None, Some (PlainError ''provider does not support embeddings''))
      else case call n d of Inl e \<Rightarrow> (None, None, Some e)
        | Inr u \<Rightarrow> (Some \<lparr>resp_content = [], resp_usage = u\<rparr>, None, None))"

definition admit_embeddings :: "caller \<Rightarrow> string \<Rightarrow> bool \<Rightarrow> goerror + int option" where
  "admit_embeddings cl m no_input =
     (if m = [] then Inl (err_bad_request ''model is required'')
      else if no_input then Inl (err_bad_request ''input is required'')
      else if \<not> model_allowed (cl_key cl) m then Inl (err_forbidden (''model not allowed: '' @ m))
      else Inr (map_option (\<lambda>k. key_id (ck_key k)) (cl_key cl)))"

definition embeddings_respond ::
  "chat_env \<Rightarrow> chat_call \<Rightarrow> route_result \<Rightarrow> call_accounting \<times> proxy_world
   \<Rightarrow> (error_response + acct_record option \<times> (string \<times> string) list) \<times> call_accounting \<times> proxy_world" where
  "embeddings_respond env c res x =
     (case rr_error res of
        Some e \<Rightarrow> (Inl (write_error (routing_error env res e)), settle_failed env e x)
      | None \<Rightarrow>
        (let w1 = succeed_deployment (cc_deployment c) (snd x);
             u = Option.bind (rr_response res) resp_usage;
             (cost, s1) = call_cost (ch_lib env) (fst x) u;
             s2 = snd (call_cost (ch_lib env) s1 u);
             p = (chat_log_params env c cost u False None [])\<lparr>prm_endpoint := ''/v1/embeddings'',
                   prm_req_snippet := Some (ch_req_snippet env)\<rparr>;
             s3 = keep_log_params p s2;
             (record, y) = inline_record (ch_fault env) (ch_now env) (ch_today env) (s3, w1)
         in (Inr (record, set_route_headers (Some res)), close_call (ch_fault env) (ch_now env) (ch_today env) y)))"

end
