(* ===== verification/Chat_Properties.thy ===== *)
theory Chat_Properties
  imports Chat Settlement_Properties
begin

text \<open>
  Properties of the chat and embeddings handlers: what a streaming client receives and when a deployment is
  blamed, who may be charged, that every call is settled, and what a request for embeddings can do to a chat model.
\<close>

section \<open>The parts of the world a handler touches\<close>

text \<open>The health of the deployments, which only reports change.\<close>

definition health :: "proxy_world \<Rightarrow> cooldown_manager \<times> backoff_manager" where
  "health w = (rt_cooldown (pw_router w), rt_backoff (pw_router w))"

text \<open>What of a call's accounting stays fixed.\<close>

definition same_call :: "call_accounting \<Rightarrow> call_accounting \<Rightarrow> bool" where
  "same_call s s' \<longleftrightarrow> ca_store s' = ca_store s \<and> ca_background s' = ca_background s \<and> ca_inline s' = ca_inline s"

lemma same_call_refl [simp]: "same_call s s"
  by (simp add: same_call_def)

lemma same_call_trans: "same_call s s' \<Longrightarrow> same_call s' s'' \<Longrightarrow> same_call s s''"
  by (simp add: same_call_def)

lemma same_call_updates [simp]:
  "same_call s0 (s\<lparr>ca_collector := c\<rparr>) = same_call s0 s" "same_call s0 (s\<lparr>ca_log_params := p\<rparr>) = same_call s0 s"
  "same_call s0 (s\<lparr>ca_err := e\<rparr>) = same_call s0 s" "same_call s0 (s\<lparr>ca_done := b\<rparr>) = same_call s0 s"
  "same_call s0 (s\<lparr>ca_record := r\<rparr>) = same_call s0 s" "same_call s0 (s\<lparr>ca_streaming := b\<rparr>) = same_call s0 s"
  by (simp_all add: same_call_def)

lemma same_call_end [simp]: "same_call s0 (end_current s e) = same_call s0 s"
  by (simp add: end_current_def split: option.splits)

lemma end_current_done [simp]: "ca_done (end_current s e) = ca_done s"
  by (simp add: end_current_def split: option.splits)

lemma same_call_log [simp]: "same_call s0 (keep_log_params p s) = same_call s0 s"
  by (simp add: keep_log_params_def)

lemma same_call_cost [simp]: "same_call s0 (snd (call_cost lib s u)) = same_call s0 s"
  by (simp add: call_cost_def Let_def)

lemma complete_call_frame:
  assumes "complete_call f now today (s, w) = (s', w')"
  shows "same_call s s' \<and> ca_done s' \<and> health w' = health w \<and> (\<not> ca_done s \<longrightarrow> ca_record s' \<noteq> None)"
  using assms
  by (auto simp: complete_call_def Let_def health_def credit_accounting_def reconcile_call_def
      split: if_splits prod.splits option.splits)

lemma complete_call_settles:
  assumes "complete_call f now today (s, w) = (s', w')" "ca_store s = AcctStore"
  shows "settles w w'"
  using settles_complete [OF assms(2), of w f now today] assms(1) by simp

lemma emit_stream_frame:
  assumes "emit_stream b f now today (s, w) = (out, s', w')"
  shows "same_call s s' \<and> ca_done s' \<and> health w' = health w \<and> (ca_store s = AcctStore \<longrightarrow> settles w w')
    \<and> (\<not> ca_done s \<longrightarrow> (out \<noteq> None) = ca_inline s)"
proof -
  obtain s1 w1 where c: "complete_call f now today (s, w) = (s1, w1)" by (metis surj_pair)
  then have "s' = s1" "w' = w1"
    "out = (if ca_inline s1 then map_option (if b then AccountingEvent else AccountingChunk) (ca_record s1) else None)"
    using assms by (auto simp: emit_stream_def Let_def)
  then show ?thesis
    using complete_call_frame [OF c] complete_call_settles [OF c] by (auto simp: same_call_def)
qed

lemma health_reports [simp]:
  "health (w\<lparr>pw_db := db\<rparr>) = health w"
  by (simp add: health_def)

lemma settles_fail [settle_intros]: "settles w (fail_deployment env d w)"
  unfolding fail_deployment_def by (rule settles_router) simp

lemma settles_succeed [settle_intros]: "settles w (succeed_deployment d w)"
  unfolding succeed_deployment_def by (rule settles_router) (simp add: report_success_def)

lemma health_fail: "health w' = health w \<Longrightarrow> health (fail_deployment env d w') = health (fail_deployment env d w)"
  by (simp add: health_def fail_deployment_def)

lemma health_succeed: "health w' = health w \<Longrightarrow> health (succeed_deployment d w') = health (succeed_deployment d w)"
  by (simp add: health_def succeed_deployment_def report_success_def)

section \<open>The end of a stream\<close>

text \<open>Nothing that is read before the end of a stream touches the world.\<close>

lemma observe_chunk_frame [simp]:
  "sr_world (observe_chunk env co r) = sr_world r" "sr_encoder (observe_chunk env co r) = sr_encoder r"
  "sr_out (observe_chunk env co r) = sr_out r" "sr_error (observe_chunk env co r) = sr_error r"
  "same_call s0 (sr_acct (observe_chunk env co r)) = same_call s0 (sr_acct r)"
  "ca_done (sr_acct (observe_chunk env co r)) = ca_done (sr_acct r)"
  by (simp_all add: observe_chunk_def Let_def split: option.splits)

lemma observe_out_same [simp]: "(observe_chunk env co r)\<lparr>sr_out := sr_out r\<rparr> = observe_chunk env co r"
proof -
  have "(observe_chunk env co r)\<lparr>sr_out := sr_out (observe_chunk env co r)\<rparr> = observe_chunk env co r" by simp
  then show ?thesis by simp
qed

lemma observe_chunk_usage:
  "sr_usage (observe_chunk env co r) = (case Option.bind co chunk_usage of None \<Rightarrow> sr_usage r | Some u \<Rightarrow> Some u)"
  by (simp add: observe_chunk_def Let_def split: option.splits)

lemma observe_chunk_snippet:
  "sr_snippet (observe_chunk env co r) = add_snippet (ch_snippet_limit env) (sr_snippet r) (chunk_content co)"
  by (simp add: observe_chunk_def Let_def split: option.splits)

lemma upstream_failed_frame [simp]:
  "sr_world (upstream_failed env c e r) = fail_deployment env (cc_deployment c) (sr_world r)"
  "sr_acct (upstream_failed env c e r) = sr_acct r" "sr_encoder (upstream_failed env c e r) = sr_encoder r"
  "(sr_error (upstream_failed env c e r) = None) = (sr_encoder r = None \<and> sr_error r = None)"
  "sr_usage (upstream_failed env c e r) = sr_usage r" "sr_snippet (upstream_failed env c e r) = sr_snippet r"
  "sr_out (upstream_failed env c e r) = sr_out r"
  by (simp_all add: upstream_failed_def send_error_def)

text \<open>
  The state of a run against its start: the same call, protocol steps only, and for each outcome of the call the health
  it leaves behind.
\<close>

definition run_ok :: "call_accounting \<Rightarrow> proxy_world \<Rightarrow> stream_run \<Rightarrow> bool" where
  "run_ok s0 w0 r \<longleftrightarrow> same_call s0 (sr_acct r) \<and> (ca_store s0 = AcctStore \<longrightarrow> settles w0 (sr_world r))"

definition blamed :: "chat_env \<Rightarrow> chat_call \<Rightarrow> proxy_world \<Rightarrow> proxy_world \<Rightarrow> bool" where
  "blamed env c w w' \<longleftrightarrow> health w' = health (fail_deployment env (cc_deployment c) w)"

lemma finish_encoder_frame:
  assumes "finish_encoder env s r = (e, r')" "run_ok s0 w0 r"
  shows "run_ok s0 w0 r' \<and> health (sr_world r') = health (sr_world r) \<and> sr_encoder r' \<noteq> None \<and> sr_error r' = sr_error r
    \<and> sr_usage r' = sr_usage r \<and> sr_snippet r' = sr_snippet r \<and> sr_out r' = sr_out r"
proof -
  obtain e1 s1 where b: "finish_blocks (ch_lib env) (ch_write_fails env) (sr_usage r) s = (e1, s1)" by (metis surj_pair)
  show ?thesis
  proof (cases e1)
    case (Some x)
    then show ?thesis using assms b by (auto simp: finish_encoder_def run_ok_def)
  next
    case None
    obtain out a w where em: "emit_stream True (ch_fault env) (ch_now env) (ch_today env) (sr_acct r, sr_world r) = (out, a, w)"
      by (metis surj_pair)
    then have "sr_acct r' = a" "sr_world r' = w" "sr_encoder r' \<noteq> None" "sr_error r' = sr_error r" "sr_usage r' = sr_usage r"
      "sr_snippet r' = sr_snippet r" "sr_out r' = sr_out r"
      using assms(1) b None by (auto simp: finish_encoder_def Let_def split: prod.splits)
    then show ?thesis
      using emit_stream_frame [OF em] assms(2) by (auto simp: run_ok_def same_call_def intro: settles_trans)
  qed
qed

lemma finish_encoder_done:
  assumes "finish_encoder env s r = (None, r')"
  shows "\<exists>exts s'. finish_stream (ch_lib env) (ch_write_fails env) exts (sr_usage r) s = (None, s') \<and> sr_encoder r' = Some s'"
proof -
  obtain s1 where b: "finish_blocks (ch_lib env) (ch_write_fails env) (sr_usage r) s = (None, s1)"
    using assms by (auto simp: finish_encoder_def split: prod.splits option.splits)
  obtain out a w where em: "emit_stream True (ch_fault env) (ch_now env) (ch_today env) (sr_acct r, sr_world r) = (out, a, w)"
    by (metis surj_pair)
  let ?exts = "case out of None \<Rightarrow> [] | Some o' \<Rightarrow> [ch_render env o']"
  obtain e s2 where "stop_message (ch_write_fails env) ?exts s1 = (e, s2)" by (metis surj_pair)
  then have "stop_message (ch_write_fails env) ?exts s1 = (None, s2)" "sr_encoder r' = Some s2"
    using assms b em by (auto simp: finish_encoder_def Let_def)
  then have "finish_stream (ch_lib env) (ch_write_fails env) ?exts (sr_usage r) s = (None, s2) \<and> sr_encoder r' = Some s2"
    using b by (simp add: finish_stream_def and_then_def)
  then show ?thesis by blast
qed

lemma encoder_failed_frame:
  assumes "encoder_failed env c i e r = ((u, cost, err), r')" "run_ok s0 w0 r" "sr_encoder r \<noteq> None" "sr_error r = None"
  shows "run_ok s0 w0 r' \<and> err \<noteq> None
    \<and> (if sr_error r' = None then health (sr_world r') = health (sr_world r) else blamed env c (sr_world r) (sr_world r'))"
  using assms settles_trans [OF _ settles_fail]
  by (auto simp: encoder_failed_def Let_def run_ok_def blamed_def split: if_splits)

text \<open>The state in which the end of a stream is handled: the cost is read and the log parameters are kept.\<close>

definition logged :: "chat_env \<Rightarrow> chat_call \<Rightarrow> stream_run \<Rightarrow> f64 \<times> stream_run" where
  "logged env c r =
     (let (cost, a) = call_cost (ch_lib env) (sr_acct r) (sr_usage r)
      in (cost, r\<lparr>sr_acct := keep_log_params (chat_log_params env c cost (sr_usage r) True (sr_ttft r) (sr_snippet r)) a\<rparr>))"

lemma call_cost_done [simp]: "ca_done (snd (call_cost lib s u)) = ca_done s"
  by (simp add: call_cost_def Let_def)

lemma keep_log_done [simp]: "ca_done (keep_log_params p s) = ca_done s"
  by (simp add: keep_log_params_def)

lemma logged_frame [simp]:
  "sr_world (snd (logged env c r)) = sr_world r" "sr_encoder (snd (logged env c r)) = sr_encoder r"
  "sr_out (snd (logged env c r)) = sr_out r" "sr_error (snd (logged env c r)) = sr_error r"
  "sr_usage (snd (logged env c r)) = sr_usage r" "sr_snippet (snd (logged env c r)) = sr_snippet r"
  "run_ok s0 w0 (snd (logged env c r)) = run_ok s0 w0 r"
  "ca_done (sr_acct (snd (logged env c r))) = ca_done (sr_acct r)"
  "same_call s0 (sr_acct (snd (logged env c r))) = same_call s0 (sr_acct r)"
proof -
  obtain cost a where ca: "call_cost (ch_lib env) (sr_acct r) (sr_usage r) = (cost, a)" by (metis surj_pair)
  then have a: "a = snd (call_cost (ch_lib env) (sr_acct r) (sr_usage r))" by simp
  have same: "same_call s0 a = same_call s0 (sr_acct r)" and don: "ca_done a = ca_done (sr_acct r)" by (simp_all add: a)
  show "sr_world (snd (logged env c r)) = sr_world r" "sr_encoder (snd (logged env c r)) = sr_encoder r"
    "sr_out (snd (logged env c r)) = sr_out r" "sr_error (snd (logged env c r)) = sr_error r"
    "sr_usage (snd (logged env c r)) = sr_usage r" "sr_snippet (snd (logged env c r)) = sr_snippet r"
    "run_ok s0 w0 (snd (logged env c r)) = run_ok s0 w0 r"
    "ca_done (sr_acct (snd (logged env c r))) = ca_done (sr_acct r)"
    "same_call s0 (sr_acct (snd (logged env c r))) = same_call s0 (sr_acct r)"
    using ca same don by (simp_all add: logged_def run_ok_def)
qed

lemma messages_eof:
  assumes run: "stream_eof env c i r = ((u, cost, err), r')" and "cc_messages c" "sr_encoder r = Some s" "sr_error r = None"
    "run_ok s0 w0 r"
  shows "run_ok s0 w0 r' \<and> (case err of
      None \<Rightarrow> sr_error r' = None \<and> health (sr_world r') = health (succeed_deployment (cc_deployment c) (sr_world r))
        \<and> (\<exists>exts s'. finish_stream (ch_lib env) (ch_write_fails env) exts u s = (None, s') \<and> sr_encoder r' = Some s')
    | Some e \<Rightarrow> if sr_error r' = None then health (sr_world r') = health (sr_world r)
                else blamed env c (sr_world r) (sr_world r'))"
proof -
  obtain k r1 where k: "logged env c r = (k, r1)" by (metis surj_pair)
  then have r1: "r1 = snd (logged env c r)" by simp
  have fr: "sr_world r1 = sr_world r" "sr_encoder r1 = Some s" "sr_error r1 = None" "sr_usage r1 = sr_usage r" "run_ok s0 w0 r1"
    using assms(3-5) by (simp_all add: r1)
  obtain e r2 where e: "finish_encoder env s r1 = (e, r2)" by (metis surj_pair)
  note f2 = finish_encoder_frame [OF e fr(5)]
  have eq: "stream_eof env c i r = (case e of Some x \<Rightarrow> encoder_failed env c i x r2
      | None \<Rightarrow> ((sr_usage r2, k, None), r2\<lparr>sr_world := succeed_deployment (cc_deployment c) (sr_world r2)\<rparr>))"
    using k e fr(2) assms(2) by (auto simp: stream_eof_def logged_def split: prod.splits option.splits)
  show ?thesis
  proof (cases e)
    case (Some x)
    then have "encoder_failed env c i x r2 = ((u, cost, err), r')" using eq run by simp
    from encoder_failed_frame [OF this, of s0 w0] f2 fr show ?thesis
      using health_fail [of "sr_world r2" "sr_world r"] by (auto simp: blamed_def split: if_splits)
  next
    case None
    then have "u = sr_usage r2" "err = None" "r' = r2\<lparr>sr_world := succeed_deployment (cc_deployment c) (sr_world r2)\<rparr>"
      using eq run by auto
    then show ?thesis
      using f2 fr finish_encoder_done [OF e [unfolded None]] settles_trans [OF _ settles_succeed]
        health_succeed [of "sr_world r2" "sr_world r"]
      by (auto simp: run_ok_def)
  qed
qed

text \<open>The chunks of a stream up to its end or first error, and that end.\<close>

fun received :: "provider_stream \<Rightarrow> stream_chunk option list" where
  "received [] = []"
| "received ((co, err) # xs) = (if err = None then co # received xs else [])"

fun stream_ending :: "provider_stream \<Rightarrow> recv_error" where
  "stream_ending [] = EOF"
| "stream_ending ((co, err) # xs) = (case err of None \<Rightarrow> stream_ending xs | Some e \<Rightarrow> e)"

lemma messages_loop:
  assumes "stream_loop env c i xs r = ((u, cost, err), r')" "cc_messages c" "sr_encoder r = Some s" "sr_error r = None"
    "run_ok s0 w0 r"
  shows "run_ok s0 w0 r' \<and> (case err of
      None \<Rightarrow> sr_error r' = None \<and> health (sr_world r') = health (succeed_deployment (cc_deployment c) (sr_world r))
        \<and> (\<exists>exts s'. and_then (write_chunks (ch_write_fails env) (received xs) s)
              (finish_stream (ch_lib env) (ch_write_fails env) exts u) = (None, s') \<and> sr_encoder r' = Some s')
    | Some e \<Rightarrow> if sr_error r' = None then health (sr_world r') = health (sr_world r)
                else blamed env c (sr_world r) (sr_world r'))"
  using assms
proof (induction xs arbitrary: i r s)
  case Nil
  then have "stream_eof env c i r = ((u, cost, err), r')" by simp
  from messages_eof [OF this Nil.prems(2-5)] show ?case
    by (cases err) (simp_all add: and_then_def)
next
  case (Cons x xs)
  obtain co e where x: "x = (co, e)" by (cases x)
  consider (chunk) "e = None" | (eof) "e = Some EOF" | (err) e' where "e = Some (RecvError e')"
    by (cases e) (use recv_error.exhaust in blast)+
  then show ?case
  proof cases
    case eof
    then have "stream_eof env c i r = ((u, cost, err), r')" using Cons.prems(1) x by simp
    from messages_eof [OF this Cons.prems(2-5)] show ?thesis
      by (cases err) (simp_all add: x eof and_then_def)
  next
    case (err e')
    then show ?thesis
      using Cons.prems x settles_trans [OF _ settles_fail]
      by (auto simp: blamed_def run_ok_def split: if_splits)
  next
    case chunk
    let ?r1 = "observe_chunk env co r"
    have ok1: "run_ok s0 w0 ?r1" using Cons.prems(5) by (simp add: run_ok_def)
    obtain w s1 where w: "write_chunk (ch_write_fails env) co s = (w, s1)" by (metis surj_pair)
    let ?r2 = "?r1\<lparr>sr_encoder := Some s1\<rparr>"
    show ?thesis
    proof (cases w)
      case (Some we)
      then have "encoder_failed env c i we ?r2 = ((u, cost, err), r')"
        using Cons.prems(1,3) x chunk w by simp
      from encoder_failed_frame [OF this, of s0 w0] show ?thesis
        using ok1 Cons.prems(4) by (auto simp: run_ok_def split: if_splits)
    next
      case None
      then have "stream_loop env c (Suc i) xs ?r2 = ((u, cost, err), r')"
        using Cons.prems(1,3) x chunk w by simp
      from Cons.IH [OF this Cons.prems(2), of s1] show ?thesis
        using ok1 Cons.prems(4) w None x chunk
        by (cases err) (auto simp: run_ok_def and_then_def split: if_splits)
    qed
  qed
qed

section \<open>A stream in the OpenAI format\<close>

definition forward_out :: "bool \<Rightarrow> stream_chunk option \<Rightarrow> stream_output list" where
  "forward_out inc co = (case Option.bind co (forwarded inc) of None \<Rightarrow> [] | Some ch \<Rightarrow> [ChunkOut ch])"

definition later_usage :: "usage option \<Rightarrow> stream_chunk option \<Rightarrow> usage option" where
  "later_usage u co = (case Option.bind co chunk_usage of None \<Rightarrow> u | Some v \<Rightarrow> Some v)"

lemma add_snippet_take: "add_snippet limit (take (nat limit) t) content = take (nat limit) (t @ content)"
proof (cases "limit \<le> 0 \<or> content = []")
  case True
  then show ?thesis by (auto simp: add_snippet_def)
next
  case False
  show ?thesis
  proof (cases "length t < nat limit")
    case True
    then have "nat (limit - int (length t)) = nat limit - length t" by simp
    then show ?thesis using False True by (simp add: add_snippet_def Let_def)
  next
    case full: False
    then show ?thesis using False by (simp add: add_snippet_def Let_def)
  qed
qed

lemma plain_eof:
  assumes "stream_eof env c i r = ((u, cost, err), r')" "\<not> cc_messages c" "sr_encoder r = None"
    "\<And>n. \<not> ch_write_fails env n" "\<not> ca_done (sr_acct r)"
  shows "err = None \<and> sr_snippet r' = sr_snippet r \<and> sr_usage r' = sr_usage r
    \<and> health (sr_world r') = health (succeed_deployment (cc_deployment c) (sr_world r))
    \<and> (\<exists>acct. length acct = (if ca_inline (sr_acct r) then 1 else 0)
          \<and> sr_out r' = sr_out r @ map AccountingOut acct @ [DoneOut])"
proof -
  obtain k r1 where k: "logged env c r = (k, r1)" by (metis surj_pair)
  then have r1: "r1 = snd (logged env c r)" by simp
  have fr: "sr_world r1 = sr_world r" "sr_encoder r1 = None" "sr_usage r1 = sr_usage r" "sr_out r1 = sr_out r"
    "sr_snippet r1 = sr_snippet r" "\<not> ca_done (sr_acct r1)" "ca_inline (sr_acct r1) = ca_inline (sr_acct r)"
    using assms(3,5) logged_frame(9) [of "sr_acct r" env c r] by (simp_all add: r1 same_call_def)
  define w1 where "w1 = succeed_deployment (cc_deployment c) (sr_world r1)"
  obtain out a w where em: "emit_stream False (ch_fault env) (ch_now env) (ch_today env) (sr_acct r1, w1) = (out, a, w)"
    by (metis surj_pair)
  have "err = None" "sr_snippet r' = sr_snippet r1" "sr_usage r' = sr_usage r1" "sr_world r' = w"
    "sr_out r' = sr_out r1 @ (case out of None \<Rightarrow> [] | Some o' \<Rightarrow> [AccountingOut o']) @ [DoneOut]"
    using assms(1,2,4) k em fr(2) by (auto simp: stream_eof_def logged_def w1_def Let_def split: prod.splits)
  moreover have "health w = health w1" "(out \<noteq> None) = ca_inline (sr_acct r)"
    using emit_stream_frame [OF em] fr(6,7) by simp_all
  ultimately show ?thesis
    using fr by (cases out) (auto simp: w1_def intro: exI [of _ "[]"] exI [of _ "[the out]"])
qed

definition plain_stream_spec :: "chat_env \<Rightarrow> chat_call \<Rightarrow> provider_stream \<Rightarrow> stream_run \<Rightarrow> goerror option \<Rightarrow> stream_run \<Rightarrow> bool" where
  "plain_stream_spec env c xs r err r' \<longleftrightarrow>
     sr_usage r' = foldl later_usage (sr_usage r) (received xs)
     \<and> (case stream_ending xs of
          EOF \<Rightarrow> err = None \<and> health (sr_world r') = health (succeed_deployment (cc_deployment c) (sr_world r))
            \<and> (\<exists>acct. length acct = (if ca_inline (sr_acct r) then 1 else 0)
                  \<and> sr_out r' = sr_out r @ concat (map (forward_out (cc_include_usage c)) (received xs))
                                @ map AccountingOut acct @ [DoneOut])
        | RecvError e \<Rightarrow> err = Some e
            \<and> (if ch_ctx_error env e then health (sr_world r') = health (sr_world r)
               else blamed env c (sr_world r) (sr_world r'))
            \<and> sr_out r' = sr_out r @ concat (map (forward_out (cc_include_usage c)) (received xs)))"

lemma plain_loop:
  assumes "stream_loop env c i xs r = ((u, cost, err), r')" "\<not> cc_messages c" "sr_encoder r = None"
    "\<And>n. \<not> ch_write_fails env n" "\<And>ch. ch_chunk_error env ch = None" "\<not> ca_done (sr_acct r)" "None \<notin> set (received xs)"
    "sr_snippet r = take (nat (ch_snippet_limit env)) t"
  shows "plain_stream_spec env c xs r err r'
    \<and> sr_snippet r' = take (nat (ch_snippet_limit env)) (t @ concat (map chunk_content (received xs)))"
  using assms
proof (induction xs arbitrary: i r t)
  case Nil
  then have "stream_eof env c i r = ((u, cost, err), r')" by simp
  from plain_eof [OF this Nil.prems(2-4,6)] show ?case using Nil.prems(8) by (simp add: plain_stream_spec_def)
next
  case (Cons x xs)
  obtain co e where x: "x = (co, e)" by (cases x)
  consider (chunk) "e = None" | (eof) "e = Some EOF" | (err) e' where "e = Some (RecvError e')"
    by (cases e) (use recv_error.exhaust in blast)+
  then show ?case
  proof cases
    case eof
    then have "stream_eof env c i r = ((u, cost, err), r')" using Cons.prems(1) x by simp
    from plain_eof [OF this Cons.prems(2-4,6)] show ?thesis
      using Cons.prems(8) by (simp add: plain_stream_spec_def x eof)
  next
    case (err e')
    then show ?thesis
      using Cons.prems x by (auto simp: blamed_def plain_stream_spec_def split: if_splits)
  next
    case chunk
    let ?r1 = "observe_chunk env co r"
    let ?r2 = "?r1\<lparr>sr_out := sr_out ?r1 @ forward_out (cc_include_usage c) co\<rparr>"
    obtain ch where co: "co = Some ch" using Cons.prems(7) x chunk by (cases co) auto
    have loop: "stream_loop env c (Suc i) xs ?r2 = ((u, cost, err), r')"
      using Cons.prems(1,3-5) x chunk co
      by (cases "forwarded (cc_include_usage c) ch") (simp_all add: forward_out_def)
    have r2: "sr_snippet ?r2 = take (nat (ch_snippet_limit env)) (t @ chunk_content co)"
      "sr_usage ?r2 = later_usage (sr_usage r) co" "sr_encoder ?r2 = None" "\<not> ca_done (sr_acct ?r2)"
      "None \<notin> set (received xs)" "sr_world ?r2 = sr_world r"
      "sr_out ?r2 = sr_out r @ forward_out (cc_include_usage c) co" "ca_inline (sr_acct ?r2) = ca_inline (sr_acct r)"
      using Cons.prems(3,6-8) observe_chunk_frame(5) [of "sr_acct r" env co r]
      by (simp_all add: observe_chunk_snippet add_snippet_take observe_chunk_usage later_usage_def x chunk same_call_def)
    from Cons.IH [OF loop Cons.prems(2) r2(3) Cons.prems(4,5) r2(4,5,1)] show ?thesis
      using r2 x chunk by (auto simp: plain_stream_spec_def blamed_def split: recv_error.splits)
  qed
qed



section \<open>Every call is settled\<close>

text \<open>
  The invariant of a handler whose call has the record \<open>i\<close>: only steps of the settlement protocol so far, and, unless
  finalizing fails (\<open>f\<close>), the record's row is final once the call is done.
\<close>

definition call_inv ::
  "goerror option \<Rightarrow> string \<Rightarrow> call_accounting \<Rightarrow> proxy_world \<Rightarrow> call_accounting \<times> proxy_world \<Rightarrow> bool" where
  "call_inv f i s0 w0 x \<longleftrightarrow>
     (case x of (s, w) \<Rightarrow>
       same_call s0 s \<and> settles w0 w \<and> rec_id (col_record (ca_collector s)) = i
       \<and> (f = None \<longrightarrow> (pending_row (pw_db w) i \<or> final_row (pw_db w) i) \<and> (ca_done s \<longrightarrow> final_row (pw_db w) i)))"

lemma collector_observe_id [simp]: "rec_id (col_record (collector_observe_usage lib c u)) = rec_id (col_record c)"
  by (simp add: collector_observe_usage_def split: option.splits)

lemma end_current_id [simp]: "rec_id (col_record (ca_collector (end_current s e))) = rec_id (col_record (ca_collector s))"
  by (simp add: end_current_def split: option.splits)

lemma call_cost_id [simp]:
  "rec_id (col_record (ca_collector (snd (call_cost lib s u)))) = rec_id (col_record (ca_collector s))"
  by (simp add: call_cost_def Let_def)

lemma keep_log_id [simp]: "ca_collector (keep_log_params p s) = ca_collector s"
  by (simp add: keep_log_params_def)

lemma call_inv_updates [simp]:
  "call_inv f i s0 w0 (keep_log_params p s, w) = call_inv f i s0 w0 (s, w)"
  "call_inv f i s0 w0 (snd (call_cost lib s u), w) = call_inv f i s0 w0 (s, w)"
  "call_inv f i s0 w0 (s\<lparr>ca_err := e\<rparr>, w) = call_inv f i s0 w0 (s, w)"
  "call_inv f i s0 w0 (s\<lparr>ca_streaming := b\<rparr>, w) = call_inv f i s0 w0 (s, w)"
  "call_inv f i s0 w0 (s\<lparr>ca_collector := collector_observe_usage lib (ca_collector s) u\<rparr>, w) = call_inv f i s0 w0 (s, w)"
  by (simp_all add: call_inv_def)

lemma call_inv_reports:
  assumes "call_inv f i s0 w0 (s, w)"
  shows "call_inv f i s0 w0 (s, fail_deployment env d w)" "call_inv f i s0 w0 (s, succeed_deployment d w)"
  using assms settles_trans [OF _ settles_fail] settles_trans [OF _ settles_succeed]
  by (auto simp: call_inv_def fail_deployment_def succeed_deployment_def)

lemma finalize_makes_final:
  assumes "pending_row db i \<or> final_row db i" "rec_id r = i"
  shows "final_row (snd (finalize_accounting None r entry job now db)) i"
proof (cases "pending_row db i")
  case True
  then show ?thesis using finalize_pending [of db r entry job now] assms(2) by auto
next
  case False
  then show ?thesis using finalize_final [of db r entry job now] assms by auto
qed

lemma complete_call_db:
  assumes "ca_store s = AcctStore" "\<not> ca_done s"
  shows "\<exists>r entry. rec_id r = rec_id (col_record (ca_collector s))
    \<and> pw_db (snd (complete_call f now today (s, w))) = snd (finalize_accounting f r entry None now (pw_db w))"
proof -
  let ?s1 = "end_current (s\<lparr>ca_done := True\<rparr>) (ca_err s)"
  let ?r = "snapshot (ca_collector ?s1) True"
  let ?s2 = "?s1\<lparr>ca_record := Some ?r\<rparr>"
  have "ca_store ?s2 = AcctStore" using assms(1) by (simp add: end_current_def split: option.splits)
  then have "pw_db (snd (complete_call f now today (s, w)))
      = snd (finalize_accounting f ?r (log_entry ?s2 ?r now) None now (pw_db w))"
    using assms(2) by (simp add: complete_call_def Let_def finalize_call_def split: prod.splits)
  moreover have "rec_id ?r = rec_id (col_record (ca_collector s))" by simp
  ultimately show ?thesis by blast
qed

lemma complete_call_id:
  "rec_id (col_record (ca_collector (fst (complete_call f now today (s, w))))) = rec_id (col_record (ca_collector s))"
  by (simp add: complete_call_def Let_def split: prod.splits)

lemma call_inv_complete:
  assumes "call_inv f i s0 w0 (s, w)" "ca_store s0 = AcctStore"
  shows "call_inv f i s0 w0 (complete_call f now today (s, w)) \<and> ca_done (fst (complete_call f now today (s, w)))"
proof (cases "ca_done s")
  case True
  then show ?thesis using assms by (simp add: complete_call_def)
next
  case False
  obtain s' w' where c: "complete_call f now today (s, w) = (s', w')" by (metis surj_pair)
  have store: "ca_store s = AcctStore" using assms by (simp add: call_inv_def same_call_def)
  obtain r entry where r: "rec_id r = i" "pw_db w' = snd (finalize_accounting f r entry None now (pw_db w))"
    using complete_call_db [OF store False, of f now today w] assms(1) c by (auto simp: call_inv_def)
  have fr: "same_call s s'" "ca_done s'" using complete_call_frame [OF c] by simp_all
  have "settles w w'" by (rule complete_call_settles [OF c store])
  moreover have "rec_id (col_record (ca_collector s')) = i"
    using complete_call_id [of f now today s w] assms(1) c by (simp add: call_inv_def)
  moreover have "final_row (pw_db w') i" if "f = None"
    using finalize_makes_final [of "pw_db w" i r entry None now] r assms(1) that by (auto simp: call_inv_def)
  ultimately show ?thesis
    using fr assms(1) c by (auto simp: call_inv_def intro: same_call_trans settles_trans)
qed

lemma call_inv_emit:
  assumes "call_inv f i s0 w0 (s, w)" "ca_store s0 = AcctStore" "emit_stream b f now today (s, w) = (out, s', w')"
  shows "call_inv f i s0 w0 (s', w')"
proof -
  have "(s', w') = complete_call f now today (s, w)" using assms(3) by (auto simp: emit_stream_def Let_def)
  then show ?thesis using call_inv_complete [OF assms(1,2)] by metis
qed

lemma call_inv_close:
  assumes "call_inv f i s0 w0 x" "ca_store s0 = AcctStore" "\<not> ca_background s0"
  shows "call_inv f i s0 w0 (close_call f now today x) \<and> ca_done (fst (close_call f now today x))"
proof -
  obtain s w where x: "x = (s, w)" by (cases x)
  have "\<not> ca_background s" using assms(1,3) x by (simp add: call_inv_def same_call_def)
  then show ?thesis using assms(1) call_inv_complete [OF assms(1)[unfolded x] assms(2)] by (auto simp: close_call_def x)
qed

lemma call_inv_end:
  assumes "call_inv (ch_fault env) i s0 w0 x" "ca_store s0 = AcctStore" "\<not> ca_background s0"
  shows "call_inv (ch_fault env) i s0 w0 (end_call env u err x) \<and> ca_done (fst (end_call env u err x))"
proof -
  have "call_inv (ch_fault env) i s0 w0 (snd (call_cost (ch_lib env) ((fst x)\<lparr>ca_err := err\<rparr>) u), snd x)"
    using assms(1) by (cases x) simp
  from call_inv_close [OF this assms(2,3)] show ?thesis unfolding end_call_def by blast
qed

abbreviation run_call :: "stream_run \<Rightarrow> call_accounting \<times> proxy_world" where
  "run_call r \<equiv> (sr_acct r, sr_world r)"

lemma call_inv_observe [simp]: "call_inv f i s0 w0 (sr_acct (observe_chunk env co r), w) = call_inv f i s0 w0 (sr_acct r, w)"
  by (simp add: observe_chunk_def Let_def split: option.splits)

lemma call_inv_encoder_failed:
  "call_inv f i s0 w0 (run_call r) \<Longrightarrow> call_inv f i s0 w0 (run_call (snd (encoder_failed env c n e r)))"
  by (simp add: encoder_failed_def Let_def call_inv_reports)

lemma call_inv_finish_encoder:
  assumes "call_inv (ch_fault env) i s0 w0 (run_call r)" "ca_store s0 = AcctStore" "finish_encoder env s r = (e, r')"
  shows "call_inv (ch_fault env) i s0 w0 (run_call r')"
proof -
  obtain e1 s1 where b: "finish_blocks (ch_lib env) (ch_write_fails env) (sr_usage r) s = (e1, s1)" by (metis surj_pair)
  obtain out a w where em: "emit_stream True (ch_fault env) (ch_now env) (ch_today env) (run_call r) = (out, a, w)"
    by (metis surj_pair)
  show ?thesis
    using assms(1,3) b em call_inv_emit [OF assms(1,2) em]
    by (cases e1) (auto simp: finish_encoder_def Let_def split: prod.splits)
qed

lemma call_inv_eof:
  assumes "call_inv (ch_fault env) i s0 w0 (run_call r)" "ca_store s0 = AcctStore"
  shows "call_inv (ch_fault env) i s0 w0 (run_call (snd (stream_eof env c n r)))"
proof -
  obtain k r1 where k: "logged env c r = (k, r1)" by (metis surj_pair)
  have r1: "call_inv (ch_fault env) i s0 w0 (run_call r1)"
  proof -
    obtain cost a where ca: "call_cost (ch_lib env) (sr_acct r) (sr_usage r) = (cost, a)" by (metis surj_pair)
    then have "call_inv (ch_fault env) i s0 w0 (a, sr_world r)"
      using assms(1) call_inv_updates(2) [of "ch_fault env" i s0 w0 "ch_lib env" "sr_acct r" "sr_usage r"] by simp
    then show ?thesis using k ca by (auto simp: logged_def)
  qed
  obtain e r2 where e: "(case sr_encoder r1 of None \<Rightarrow> (None, r1) | Some s \<Rightarrow> finish_encoder env s r1) = (e, r2)"
    by (metis surj_pair)
  have r2: "call_inv (ch_fault env) i s0 w0 (run_call r2)"
    using e r1 call_inv_finish_encoder [OF r1 assms(2)] by (cases "sr_encoder r1") auto
  define w3 where "w3 = succeed_deployment (cc_deployment c) (sr_world r2)"
  have r3: "call_inv (ch_fault env) i s0 w0 (sr_acct r2, w3)" unfolding w3_def by (rule call_inv_reports [OF r2])
  obtain out a w where em: "emit_stream False (ch_fault env) (ch_now env) (ch_today env) (sr_acct r2, w3) = (out, a, w)"
    by (metis surj_pair)
  show ?thesis
  proof (cases e)
    case (Some x)
    then have "stream_eof env c n r = encoder_failed env c n x r2"
      using k e by (auto simp: stream_eof_def logged_def split: prod.splits)
    then show ?thesis using call_inv_encoder_failed [OF r2] by simp
  next
    case None
    then show ?thesis
      using k e em r3 call_inv_emit [OF r3 assms(2) em]
      by (auto simp: stream_eof_def logged_def w3_def Let_def split: prod.splits)
  qed
qed

lemma call_inv_loop:
  assumes "call_inv (ch_fault env) i s0 w0 (run_call r)" "ca_store s0 = AcctStore"
  shows "call_inv (ch_fault env) i s0 w0 (run_call (snd (stream_loop env c n xs r)))"
  using assms(1)
proof (induction xs arbitrary: n r)
  case Nil
  then show ?case using call_inv_eof [OF _ assms(2)] by simp
next
  case (Cons x xs)
  obtain co e where x: "x = (co, e)" by (cases x)
  consider (chunk) "e = None" | (eof) "e = Some EOF" | (err) e' where "e = Some (RecvError e')"
    by (cases e) (use recv_error.exhaust in blast)+
  then show ?case
  proof cases
    case eof
    then show ?thesis using Cons.prems call_inv_eof [OF _ assms(2)] x by simp
  next
    case (err e')
    then show ?thesis using Cons.prems call_inv_reports x by simp
  next
    case chunk
    let ?r1 = "observe_chunk env co r"
    have r1: "call_inv (ch_fault env) i s0 w0 (sr_acct ?r1, sr_world r)" using Cons.prems by simp
    show ?thesis
    proof (cases "sr_encoder r")
      case (Some s)
      obtain w s1 where w: "write_chunk (ch_write_fails env) co s = (w, s1)" by (metis surj_pair)
      let ?r2 = "?r1\<lparr>sr_encoder := Some s1\<rparr>"
      have "call_inv (ch_fault env) i s0 w0 (run_call ?r2)" using r1 by simp
      then show ?thesis
        using Cons.IH [of ?r2 "Suc n"] call_inv_encoder_failed [of "ch_fault env" i s0 w0 ?r2] x chunk Some w
        by (cases w) auto
    next
      case None
      have out: "call_inv (ch_fault env) i s0 w0 (run_call (?r1\<lparr>sr_out := o'\<rparr>))" for o' using r1 by simp
      show ?thesis
        using Cons.IH [of ?r1 "Suc n"] Cons.IH [OF out] r1 x chunk None by (auto simp: Let_def split: option.splits)
    qed
  qed
qed

lemma call_inv_streaming:
  assumes "call_inv (ch_fault env) i s0 w0 x" "ca_store s0 = AcctStore"
  shows "call_inv (ch_fault env) i s0 w0 (run_call (snd (handle_streaming env c xs x)))"
proof -
  have "call_inv (ch_fault env) i s0 w0 (run_call (new_stream_run c x))"
    using assms(1) by (cases x) (simp add: new_stream_run_def)
  from call_inv_loop [OF this assms(2)] show ?thesis
    using assms(1) by (cases x) (simp add: handle_streaming_def new_stream_run_def)
qed

lemma call_inv_non_streaming:
  assumes "call_inv (ch_fault env) i s0 w0 (s, w)" "ca_store s0 = AcctStore"
  shows "call_inv (ch_fault env) i s0 w0 (snd (handle_non_streaming env c res cost ee (s, w)))"
proof -
  define s1 where "s1 = (if rr_response res = None then s
    else keep_log_params (chat_log_params env c cost (Option.bind (rr_response res) resp_usage) False None []) s)"
  let ?w1 = "succeed_deployment (cc_deployment c) w"
  have inv: "call_inv (ch_fault env) i s0 w0 (s1, ?w1)"
    using call_inv_reports(2) [OF assms(1)] by (simp add: s1_def)
  obtain rcd y where inl: "inline_record (ch_fault env) (ch_now env) (ch_today env) (s1, ?w1) = (rcd, y)"
    by (metis surj_pair)
  have "y = complete_call (ch_fault env) (ch_now env) (ch_today env) (s1, ?w1)"
    using inl by (auto simp: inline_record_def Let_def)
  then have y: "call_inv (ch_fault env) i s0 w0 y" using call_inv_complete [OF inv assms(2)] by simp
  show ?thesis
    using y inl call_inv_reports(1) [OF assms(1)]
    by (auto simp: handle_non_streaming_def Let_def s1_def split: sum.splits prod.splits)
qed

lemma call_inv_settle_failed:
  assumes "call_inv (ch_fault env) i s0 w0 x" "ca_store s0 = AcctStore" "\<not> ca_background s0"
  shows "call_inv (ch_fault env) i s0 w0 (settle_failed env e x) \<and> ca_done (fst (settle_failed env e x))"
proof -
  let ?s = "(fst x)\<lparr>ca_err := Some e, ca_streaming := False\<rparr>"
  have "call_inv (ch_fault env) i s0 w0 (?s, snd x)" using assms(1) by (cases x) simp
  then have "call_inv (ch_fault env) i s0 w0 (complete_call (ch_fault env) (ch_now env) (ch_today env) (?s, snd x))"
    using call_inv_complete [OF _ assms(2)] by blast
  from call_inv_end [OF this assms(2,3)] show ?thesis unfolding settle_failed_def by blast
qed

lemma chat_respond_settled:
  assumes x: "call_inv (ch_fault env) i s0 w0 x" and s0: "ca_store s0 = AcctStore" "\<not> ca_background s0"
  shows "call_inv (ch_fault env) i s0 w0 (snd (chat_respond env c streaming res ee x))
    \<and> ca_done (fst (snd (chat_respond env c streaming res ee x)))"
proof (cases "rr_error res")
  case (Some e)
  then show ?thesis using call_inv_settle_failed [OF assms] by (simp add: chat_respond_def)
next
  case ok: None
  have close: "call_inv (ch_fault env) i s0 w0 (close_call (ch_fault env) (ch_now env) (ch_today env) y)
      \<and> ca_done (fst (close_call (ch_fault env) (ch_now env) (ch_today env) y))"
    if "call_inv (ch_fault env) i s0 w0 y" for y
    using call_inv_close [OF that s0] .
  have stream: "call_inv (ch_fault env) i s0 w0 (end_call env u err (run_call r)) \<and> ca_done (fst (end_call env u err (run_call r)))"
    if "handle_streaming env c xs x = ((u, cost, err), r)" for xs u cost err r
    using call_inv_end [OF _ s0, of env i w0 "run_call r"] call_inv_streaming [OF x s0(1), of c xs] that by simp
  show ?thesis
  proof (cases streaming)
    case True
    show ?thesis
    proof (cases "rr_stream res")
      case None
      then show ?thesis using close [OF x] True ok by (simp add: chat_respond_def)
    next
      case (Some st)
      then show ?thesis
        using stream True ok by (cases st) (auto simp: chat_respond_def Let_def split: prod.splits)
    qed
  next
    case False
    obtain cost s1 where cost: "call_cost (ch_lib env) (fst x) (Option.bind (rr_response res) resp_usage) = (cost, s1)"
      by (metis surj_pair)
    have "call_inv (ch_fault env) i s0 w0 (s1, snd x)"
      using x cost call_inv_updates(2) [of "ch_fault env" i s0 w0 "ch_lib env" "fst x"] by (metis prod.collapse snd_conv)
    note non = call_inv_non_streaming [OF this s0(1), of c res cost ee]
    obtain answer err x1 where run: "handle_non_streaming env c res cost ee (s1, snd x) = ((answer, err), x1)"
      by (metis surj_pair)
    have x1: "call_inv (ch_fault env) i s0 w0 x1" using non run by simp
    show ?thesis
      using False ok cost run close [OF x1] call_inv_end [OF x1 s0] by (simp add: chat_respond_def Let_def)
  qed
qed

text \<open>
  C6. Every call is settled. However a routed chat request ends, by an answer, an error, a panic, a broken stream or a
  client that went away, the handler leaves only after it has finished the call's accounting; all it did to
  the shared state are steps of the settlement protocol, so it charged at most once; and unless the finalizing
  transaction fails, the call's record is final in the database.
\<close>

theorem chat_call_is_settled:
  assumes "ca_store s = AcctStore" "\<not> ca_background s" "\<not> ca_done s"
    "pending_row (pw_db w) (rec_id (col_record (ca_collector s)))"
  shows "case chat_respond env c streaming res encode_error (s, w) of (reply, s', w') \<Rightarrow>
    ca_done s' \<and> settles w w'
    \<and> (if ch_fault env = None then final_row (pw_db w') (rec_id (col_record (ca_collector s))) else True)"
proof -
  have "call_inv (ch_fault env) (rec_id (col_record (ca_collector s))) s w (s, w)"
    using assms(3,4) by (simp add: call_inv_def)
  from chat_respond_settled [OF this assms(1,2), of c streaming res encode_error] show ?thesis
    by (auto simp: call_inv_def)
qed

section \<open>Who is charged\<close>

lemma charge_key_spec:
  "charge_key kr user header = Inr i \<longleftrightarrow>
     atoi header = Some i \<and> (\<exists>k. kr_key kr i = Inr (Some k) \<and> key_active k)
     \<and> (case user of None \<Rightarrow> True
        | Some (uid, admin) \<Rightarrow> admin \<or> (\<exists>ids. kr_accessible kr uid = Inr ids \<and> i \<in> set ids))"
  by (auto simp: charge_key_def split: option.splits sum.splits if_splits)

text \<open>
  C11. Admission. A chat request is admitted exactly when it names a model and has messages, its key, if it
  has one, allows the model, and the charge header, which only counts without a key, names an active key
  that the signed-in user can reach: it is charged to that key, to the key of the request, or to none.
\<close>

theorem chat_admission_exact:
  "admit_chat kr cl header m no_messages = Inr charged \<longleftrightarrow>
     m \<noteq> [] \<and> \<not> no_messages \<and> model_allowed (cl_key cl) m
     \<and> (if header \<noteq> [] \<and> cl_key cl = None \<and> kr_store kr
        then \<exists>i k. charged = Some i \<and> atoi header = Some i \<and> kr_key kr i = Inr (Some k) \<and> key_active k
               \<and> (case cl_user cl of None \<Rightarrow> True
                  | Some (uid, admin) \<Rightarrow> admin \<or> (\<exists>ids. kr_accessible kr uid = Inr ids \<and> i \<in> set ids))
        else charged = map_option (\<lambda>k. key_id (ck_key k)) (cl_key cl))"
proof (cases "header \<noteq> [] \<and> cl_key cl = None \<and> kr_store kr")
  case True
  then have "admit_chat kr cl header m no_messages = Inr charged \<longleftrightarrow> m \<noteq> [] \<and> \<not> no_messages \<and> model_allowed (cl_key cl) m
      \<and> (\<exists>i. charged = Some i \<and> charge_key kr (cl_user cl) header = Inr i)"
    by (auto simp: admit_chat_def Let_def split: sum.splits)
  then show ?thesis using True unfolding charge_key_spec by auto
next
  case False
  then show ?thesis by (auto simp: admit_chat_def Let_def)
qed

text \<open>
  C12. The charge header evades the policy of the key it charges. The same key that is refused when it authenticates a
  request, because its budget is used up, and refused for the model by its allowlist, pays for the request
  of a user who merely names it: neither its allowlist nor its budget nor its rate limits are looked at.
\<close>

theorem charge_header_evades_key_policy:
  assumes "atoi header = Some (key_id (ck_key ck))" "kr_key kr (key_id (ck_key ck)) = Inr (Some (ck_key ck))"
    "key_active (ck_key ck)" "kr_store kr" "cl_key cl = None" "cl_user cl = Some (uid, False)"
    "kr_accessible kr uid = Inr ids" "key_id (ck_key ck) \<in> set ids" "header \<noteq> []" "m \<noteq> []"
    "key_max_budget (ck_key ck) = Some b" "b \<le> key_spend (as_spend st) (key_id (ck_key ck))"
    "ck_allowed_models ck \<noteq> []" "m \<notin> set (ck_allowed_models ck)"
  shows "admit_chat kr cl header m False = Inr (Some (key_id (ck_key ck)))
    \<and> (\<exists>e. fst (check_limits st ck t1 t2) = AuthRejected e)
    \<and> admit_chat kr (cl\<lparr>cl_key := Some ck\<rparr>) header m False = Inl (err_forbidden (''model not allowed: '' @ m))"
proof -
  obtain x st' where l: "check_limits st ck t1 t2 = (x, st')" by (metis surj_pair)
  have "\<exists>e. x = AuthRejected e"
    using check_limits_admits [of st ck t1 t2 _ st'] check_limits_not_master [of st ck t1 t2] l assms(11,12)
    by (cases x) auto
  moreover have "charge_key kr (cl_user cl) header = Inr (key_id (ck_key ck))"
    unfolding charge_key_spec using assms by simp
  ultimately show ?thesis using assms l by (simp add: admit_chat_def model_allowed_def)
qed

section \<open>Embeddings and the health of chat models\<close>

text \<open>
  C13. A request for embeddings takes a chat-only deployment down. Each attempt on a deployment whose provider
  cannot embed counts as a failure of the deployment, although nothing was sent to it; so when
  \<open>allowed_fails\<close> is reached, the deployment is in cooldown for chat requests too.
\<close>

theorem embeddings_cool_chat_models:
  assumes "env_call env = embeddings_callback supports call" "\<not> supports d" "env_ctx env (rw_pos w) = None"
    "rpm d \<le> 0" "tpm d \<le> 0" "try_deployment lib env opts pname res w d = (a, res', w')"
  shows "a = Failover (PlainError ''provider does not support embeddings'')
    \<and> (\<exists>t. rt_cooldown w' = cooldown_failure (rt_cooldown w) d t
          \<and> (if allowed_fails (rt_cooldown w) \<le> mget (failures (rt_cooldown w)) (dep_id d) 0 + 1 \<and> 0 \<le> cooldown_time (rt_cooldown w)
             then fst (in_cooldown (rt_cooldown w') d t) else True))"
proof -
  let ?e = "PlainError ''provider does not support embeddings''"
  have call: "env_call env n d = (None, None, Some ?e)" for n
    using assms(1,2) by (simp add: embeddings_callback_def)
  obtain resp stream err w1 where inv: "invoke lib env opts (tick w) d pname = ((resp, stream, err), w1)"
    by (metis surj_pair)
  have "err = Some ?e"
    using inv assms(4,5) call
    by (auto simp: invoke_def Let_def reserve_def split: prod.splits sum.splits if_splits)
  then have a: "a = Failover ?e"
    using assms(3,6) inv by (auto simp: try_deployment_def Let_def is_invalid_request_def split: prod.splits)
  have "w' = report_failure env w1 d"
    using assms(3,6) inv \<open>err = Some ?e\<close>
    by (auto simp: try_deployment_def Let_def is_invalid_request_def report_attempt_error_def split: prod.splits)
  moreover have "rt_cooldown w1 = rt_cooldown w" using invoke_cases [OF inv] by (simp add: same_health_def)
  ultimately have "\<exists>t. rt_cooldown w' = cooldown_failure (rt_cooldown w) d t" by (auto simp: report_failure_def)
  then obtain t where t: "rt_cooldown w' = cooldown_failure (rt_cooldown w) d t" by blast
  moreover have "fst (in_cooldown (cooldown_failure (rt_cooldown w) d t) d t)"
    if "allowed_fails (rt_cooldown w) \<le> mget (failures (rt_cooldown w)) (dep_id d) 0 + 1" "0 \<le> cooldown_time (rt_cooldown w)"
    using that by (simp add: in_cooldown_iff cooling_def cooldown_failure_def Let_def)
  ultimately show ?thesis using a by auto
qed

section \<open>Witnesses\<close>

definition sample_chat_env :: chat_env where
  "sample_chat_env = \<lparr>ch_lib = sample_stream_lib, ch_marshal_api = (\<lambda>_. []), ch_start = 0, ch_first = second,
     ch_report = second, ch_now = 2 * second, ch_today = (\<lambda>_. ''2025-01-01''), ch_fault = None,
     ch_write_fails = (\<lambda>_. False), ch_write_error = PlainError ''broken pipe'', ch_gone = (\<lambda>_. False),
     ch_ctx_error = (\<lambda>e. e = PlainError ''context canceled''), ch_chunk_error = (\<lambda>_. None), ch_render = (\<lambda>_. []),
     ch_flusher = True, ch_snippet_limit = 3, ch_req_snippet = [], ch_choice = (\<lambda>_. None)\<rparr>"

definition sample_chat_call :: "bool \<Rightarrow> chat_call" where
  "sample_chat_call messages = \<lparr>cc_deployment = sample_a, cc_pool = [], cc_key = Some 7, cc_session = [],
     cc_request_id = ''r1'', cc_messages = messages, cc_model = ''chat'', cc_include_usage = False\<rparr>"

definition sample_acct :: call_accounting where
  "sample_acct = fst (start_accounting sample_lib ''u1'' ''r1'' (Some 7) AcctStore True True ''chat'' [] [] 0 None (pw_db sample_world))"

definition sample_receives :: provider_stream where
  "sample_receives = map (\<lambda>co. (co, None)) sample_chunks @ [(None, Some EOF)]"

lemma sample_acct_fields [simp]:
  "ca_store sample_acct = AcctStore" "\<not> ca_background sample_acct" "\<not> ca_done sample_acct" "ca_inline sample_acct"
  by (simp_all add: sample_acct_def start_accounting_def Let_def)

lemma received_map: "received (map (\<lambda>co. (co, None)) cs @ [(None, Some e)]) = cs"
  by (induction cs) simp_all

lemma ending_map: "stream_ending (map (\<lambda>co. (co, None)) cs @ [(None, Some e)]) = e"
  by (induction cs) simp_all


lemma sample_messages_run:
  "snd (snd (fst (handle_streaming sample_chat_env (sample_chat_call True) sample_receives (sample_acct, sample_world)))) = None"
  by code_simp


theorem chat_call_is_settled_witness:
  "case chat_respond sample_chat_env (sample_chat_call True) True empty_result None (sample_acct, sample_world) of
     (reply, s', w') \<Rightarrow> ca_done s' \<and> settles sample_world w'
       \<and> (if ch_fault sample_chat_env = None
          then final_row (pw_db w') (rec_id (col_record (ca_collector sample_acct))) else True)"
  by (rule chat_call_is_settled) (simp_all add: pending_row_def sample_world_def)

definition sample_charged :: cached_key where
  "sample_charged = sample_cached\<lparr>ck_allowed_models := [''other'']\<rparr>"

theorem charge_header_evades_key_policy_witness:
  "let kr = \<lparr>kr_store = True, kr_key = (\<lambda>_. Inr (Some sample_key)), kr_accessible = (\<lambda>_. Inr [7])\<rparr>;
       cl = \<lparr>cl_key = None, cl_key_hash = [], cl_user = Some (''u'', False)\<rparr>
   in admit_chat kr cl ''7'' ''chat'' False = Inr (Some (key_id (ck_key sample_charged)))
      \<and> (\<exists>e. fst (check_limits \<lparr>as_cache = new_cache 0, as_counters = new_rate_limiter, as_spend = [(7, 1)]\<rparr>
            sample_charged 0 0) = AuthRejected e)
      \<and> admit_chat kr (cl\<lparr>cl_key := Some sample_charged\<rparr>) ''7'' ''chat'' False
          = Inl (err_forbidden (''model not allowed: '' @ ''chat''))"
  unfolding Let_def
  by (rule charge_header_evades_key_policy [where uid = "''u''" and ids = "[7]" and b = 1])
    (simp_all add: sample_charged_def sample_cached_def sample_key_def key_spend_def atoi_def Let_def, code_simp?)

definition sample_embed_env :: route_env where
  "sample_embed_env = \<lparr>env_now = (\<lambda>n. 0), env_today = (\<lambda>n. []), env_rand = (\<lambda>n. 0), env_ctx = (\<lambda>n. None),
     env_call = embeddings_callback (\<lambda>_. False) (\<lambda>_ _. Inr None), env_usage = (\<lambda>n. None)\<rparr>"

definition sample_embed_world :: route_world where
  "sample_embed_world = router.extend (pw_router sample_world) (route_world.fields 0 [])"

theorem embeddings_cool_chat_models_witness:
  "case try_deployment sample_lib sample_embed_env None [] empty_result sample_embed_world sample_a of (a, res', w') \<Rightarrow>
     a = Failover (PlainError ''provider does not support embeddings'') \<and> (\<exists>t. fst (in_cooldown (rt_cooldown w') sample_a t))"
proof -
  obtain a res' w' where run: "try_deployment sample_lib sample_embed_env None [] empty_result sample_embed_world sample_a = (a, res', w')"
    by (metis surj_pair)
  have "rt_cooldown sample_embed_world = new_cooldown_manager 0 0"
    by (simp add: sample_embed_world_def sample_world_def router.defs route_world.defs)
  then show ?thesis
    using embeddings_cool_chat_models [of sample_embed_env "\<lambda>_. False" "\<lambda>_ _. Inr None" sample_a sample_embed_world
        sample_lib None "[]" empty_result a res' w'] run
    by (auto simp: sample_embed_env_def sample_defs new_cooldown_manager_def)
qed

end
