(* ===== verification/Spec2Isabelle.thy ===== *)
theory Spec2Isabelle
  imports Routing_Properties Router_Config Keystore Costmap Accounting Settlement_Properties Chat_Properties
begin

text \<open>
  The proxy's core.
\<close>

end
